(* ===== verification/Prelude.thy ===== *)
theory Prelude
  imports Main "HOL-Library.Word" "HOL-Library.Multiset" "HOL-Library.Sublist"
begin

text \<open>
  Shared ground of the development: what it means for a process of the system to die,
  the sequencing of steps that may die, the integer conversions of C++ on a 64-bit
  Linux target (\<open>int\<close> 32 bits, \<open>long\<close> and \<open>size_t\<close> 64 bits), and
  generic list lemmas.
\<close>

section \<open>Steps that may kill the process\<close>

text \<open>
  A worker or server process of the system dies when it throws an exception nobody
  catches, dereferences a null pointer, writes outside a buffer or calls
  \<open>exit\<close>. Each such event is a value of \<open>crash\<close>; a computation that may die
  is a sum, \<open>Inl\<close> the reason.
\<close>

datatype crash =
    Null_String            \<comment> \<open>\<open>std::string\<close> built from a null \<open>char *\<close>\<close>
  | Unterminated_String    \<comment> \<open>no NUL byte before the end of readable memory\<close>
  | Null_Pointer           \<comment> \<open>null pointer passed to code that follows it\<close>
  | Out_Of_Range           \<comment> \<open>\<open>std::out_of_range\<close> or a missing column\<close>
  | Json_Exception         \<comment> \<open>a jsoncpp accessor applied to the wrong kind of value\<close>
  | Buffer_Overflow        \<comment> \<open>access outside an allocated buffer\<close>
  | Uninitialised_Pointer  \<comment> \<open>use of a pointer that was never assigned\<close>
  | Exit_Called            \<comment> \<open>the code itself calls \<open>exit\<close>\<close>
  | Raised string          \<comment> \<open>a Python exception nobody catches, by its class\<close>

type_synonym 'a exec = "crash + 'a"

definition bind_exec :: "'a exec \<Rightarrow> ('a \<Rightarrow> 'b exec) \<Rightarrow> 'b exec" where
  "bind_exec m k = (case m of Inl e \<Rightarrow> Inl e | Inr a \<Rightarrow> k a)"

lemma bind_exec_Inl [simp]: "bind_exec (Inl e) k = Inl e"
  by (simp add: bind_exec_def)

lemma bind_exec_Inr [simp]: "bind_exec (Inr a) k = k a"
  by (simp add: bind_exec_def)

lemma bind_exec_eq_Inr: "bind_exec m k = Inr b \<longleftrightarrow> (\<exists>a. m = Inr a \<and> k a = Inr b)"
  by (cases m) auto

lemma bind_exec_assoc: "bind_exec (bind_exec m k) l = bind_exec m (\<lambda>a. bind_exec (k a) l)"
  by (cases m) auto

definition crashes :: "'a exec \<Rightarrow> bool" where
  "crashes m = (case m of Inl _ \<Rightarrow> True | Inr _ \<Rightarrow> False)"

lemma crashes_simps [simp]: "crashes (Inl e)" "\<not> crashes (Inr a)"
  by (simp_all add: crashes_def)

lemma not_crashes: "\<not> crashes m \<longleftrightarrow> (\<exists>a. m = Inr a)"
  by (cases m) auto

text \<open>
  \<open>yields P m\<close>: unless the process dies, the result satisfies \<open>P\<close>. The rules take a
  computation apart along its sequencing, tests and patterns.
\<close>

named_theorems yields_intros

definition yields :: "('a \<Rightarrow> bool) \<Rightarrow> 'a exec \<Rightarrow> bool" where
  "yields P m \<longleftrightarrow> (\<forall>a. m = Inr a \<longrightarrow> P a)"

lemma yieldsD: "yields P m \<Longrightarrow> m = Inr a \<Longrightarrow> P a"
  by (simp add: yields_def)

lemma yields_Inr [yields_intros]: "P a \<Longrightarrow> yields P (Inr a)"
  by (simp add: yields_def)

lemma yields_Inl [yields_intros]: "yields P (Inl e)"
  by (simp add: yields_def)

lemma yields_bind [yields_intros]:
  "(\<And>a. m = Inr a \<Longrightarrow> yields P (k a)) \<Longrightarrow> yields P (bind_exec m k)"
  by (auto simp: yields_def bind_exec_eq_Inr)

lemma yields_if [yields_intros]:
  "(b \<Longrightarrow> yields P m) \<Longrightarrow> (\<not> b \<Longrightarrow> yields P n) \<Longrightarrow> yields P (if b then m else n)"
  by simp

lemma yields_prod [yields_intros]:
  "(\<And>a b. p = (a, b) \<Longrightarrow> yields P (f a b)) \<Longrightarrow> yields P (case_prod f p)"
  by (cases p) simp

lemma yields_option [yields_intros]:
  "(x = None \<Longrightarrow> yields P m) \<Longrightarrow> (\<And>a. x = Some a \<Longrightarrow> yields P (f a)) \<Longrightarrow> yields P (case_option m f x)"
  by (cases x) simp_all

section \<open>Integer conversions\<close>

text \<open>
  \<open>to_int\<close> is the conversion of a 64-bit quantity to \<open>int\<close> (the low 32 bits, read
  as two's complement), \<open>to_size\<close> the conversion of a signed value to
  \<open>size_t\<close> or \<open>unsigned long\<close>.
\<close>

definition to_int :: "int \<Rightarrow> int" where
  "to_int i = signed_take_bit 31 i"

definition to_size :: "int \<Rightarrow> nat" where
  "to_size i = nat (i mod 2 ^ 64)"

definition npos :: nat where
  "npos = 2 ^ 64 - 1"

lemma to_int_small: "- (2 ^ 31) \<le> i \<Longrightarrow> i < 2 ^ 31 \<Longrightarrow> to_int i = i"
  unfolding to_int_def by (rule signed_take_bit_int_eq_self)  auto

lemma to_int_nat_small [simp]: "n < 2 ^ 31 \<Longrightarrow> to_int (int n) = int n"
  by (rule to_int_small) auto

lemma to_size_small: "0 \<le> i \<Longrightarrow> i < 2 ^ 64 \<Longrightarrow> to_size i = nat i"
  by (simp add: to_size_def)

lemma to_size_nat_small [simp]: "n < 2 ^ 64 \<Longrightarrow> to_size (int n) = n"
  by (simp add: to_size_def nat_mod_distrib)

lemma to_int_npos [simp]: "to_int (int npos) = - 1"
  by (simp add: to_int_def npos_def)

lemma to_size_minus_one [simp]: "to_size (- 1) = npos"
  by (simp add: to_size_def npos_def)

lemma to_int_range: "- (2 ^ 31) \<le> to_int i \<and> to_int i < 2 ^ 31"
  unfolding to_int_def
  using signed_take_bit_int_greater_eq_minus_exp [of 31 i] signed_take_bit_int_less_exp [of 31 i]
  by simp

lemma to_size_bound: "to_size i < 2 ^ 64"
  by (simp add: to_size_def nat_less_iff)

lemma sint_nonneg:
  fixes v :: "32 word"
  assumes "0 \<le> sint v"
  shows "sint v = int (unat v)" and "unat v < 2 ^ 31"
proof -
  have b: "sint v < 2 ^ 31" using sint_lt [of v] by simp
  have "uint v = take_bit 32 (sint v)" by (simp only: uint_sint) simp
  also have "\<dots> = sint v" 
    by (rule take_bit_int_eq_self) (use assms b in auto)
  finally show eq: "sint v = int (unat v)" by (simp only: uint_nat)
  have "int (unat v) < int (2 ^ 31)" using b unfolding eq by simp
  then show "unat v < 2 ^ 31" by (simp only: of_nat_less_iff)
qed

lemma word_of_to_int [simp]: "(word_of_int (to_int i) :: 32 word) = word_of_int i"
proof -
  have "take_bit 32 (to_int i) = take_bit 32 i"
    unfolding to_int_def by (simp add: take_bit_signed_take_bit)
  then show ?thesis by (simp add: word_of_int_eq_iff)
qed

section \<open>Lists\<close>

lemma takeWhile_append_stop:
  "(\<And>x. x \<in> set xs \<Longrightarrow> P x) \<Longrightarrow> \<not> P y \<Longrightarrow> takeWhile P (xs @ y # ys) = xs"
  by (induction xs) auto

lemma dropWhile_append_stop:
  "(\<And>x. x \<in> set xs \<Longrightarrow> P x) \<Longrightarrow> \<not> P y \<Longrightarrow> dropWhile P (xs @ y # ys) = y # ys"
  by (induction xs) auto

lemma takeWhile_all: "(\<And>x. x \<in> set xs \<Longrightarrow> P x) \<Longrightarrow> takeWhile P xs = xs"
  by (induction xs) auto

lemma dropWhile_all: "(\<And>x. x \<in> set xs \<Longrightarrow> P x) \<Longrightarrow> dropWhile P xs = []"
  by (induction xs) auto

end
