(* ===== verification/Cstring.thy ===== *)
theory Cstring
  imports Prelude
begin

text \<open>
  The part of the C and C++ string library the system uses: \<open>std::string::find\<close> and
  \<open>substr\<close>, construction of a \<open>std::string\<close> from a \<open>char *\<close>,
  \<open>c_str\<close>, decimal output of integers, \<open>strtol\<close>, \<open>strtoul\<close> and
  \<open>atoi\<close>. A string is the list of its bytes.
\<close>

section \<open>Searching and slicing\<close>

fun find_sub :: "string \<Rightarrow> string \<Rightarrow> nat option" where
  "find_sub p [] = (if p = [] then Some 0 else None)"
| "find_sub p (x # xs) =
     (if prefix p (x # xs) then Some 0 else map_option Suc (find_sub p xs))"

definition str_find :: "string \<Rightarrow> string \<Rightarrow> nat \<Rightarrow> nat" where
  "str_find s p pos =
     (if pos \<le> length s
      then (case find_sub p (drop pos s) of None \<Rightarrow> npos | Some i \<Rightarrow> pos + i)
      else npos)"

definition str_substr :: "string \<Rightarrow> nat \<Rightarrow> nat \<Rightarrow> string exec" where
  "str_substr s pos n = (if pos \<le> length s then Inr (take n (drop pos s)) else Inl Out_Of_Range)"

lemma find_sub_Some:
  "find_sub p s = Some i \<Longrightarrow> i + length p \<le> length s \<and> prefix p (drop i s)"
proof (induction s arbitrary: i)
  case Nil
  then show ?case by (auto split: if_splits)
next
  case (Cons x xs)
  show ?case
  proof (cases "prefix p (x # xs)")
    case True
    with Cons.prems show ?thesis by (auto dest: prefix_length_le)
  next
    case False
    with Cons.prems obtain j where "find_sub p xs = Some j" and "i = Suc j" by auto
    with Cons.IH [of j] show ?thesis by simp
  qed
qed

lemma find_sub_first: "find_sub p s = Some i \<Longrightarrow> j < i \<Longrightarrow> \<not> prefix p (drop j s)"
proof (induction s arbitrary: i j)
  case Nil
  then show ?case by (auto split: if_splits)
next
  case (Cons x xs)
  show ?case
  proof (cases "prefix p (x # xs)")
    case True
    with Cons.prems show ?thesis by simp
  next
    case False
    with Cons.prems obtain k where "find_sub p xs = Some k" and "i = Suc k" by auto
    with Cons.IH [of k] Cons.prems False show ?thesis by (cases j) auto
  qed
qed

lemma find_sub_None: "find_sub p s = None \<longleftrightarrow> (\<forall>j \<le> length s. \<not> prefix p (drop j s))"
proof (induction s)
  case Nil
  then show ?case by auto
next
  case (Cons x xs)
  have "(\<forall>j \<le> length (x # xs). \<not> prefix p (drop j (x # xs))) \<longleftrightarrow>
      \<not> prefix p (x # xs) \<and> (\<forall>j \<le> length xs. \<not> prefix p (drop j xs))"
    by (metis Suc_le_mono drop0 drop_Suc_Cons length_Cons not0_implies_Suc zero_le)
  with Cons.IH show ?case by simp
qed

lemma find_sub_here: "prefix p s \<Longrightarrow> find_sub p s = Some 0"
  by (cases s) auto

lemma find_sub_prefix [simp]: "find_sub p (p @ s) = Some 0"
  by (simp add: find_sub_here)

lemma find_sub_skip:
  "c \<notin> set xs \<Longrightarrow> find_sub (c # p) (xs @ ys) = map_option (\<lambda>i. length xs + i) (find_sub (c # p) ys)"
  by (cases "find_sub (c # p) ys"; induction xs) auto

lemma find_sub_char:
  "c \<notin> set xs \<Longrightarrow> find_sub [c] (xs @ c # ys) = Some (length xs)"
  by (simp add: find_sub_skip)

lemma find_sub_char_None [simp]: "c \<notin> set xs \<Longrightarrow> find_sub [c] xs = None"
  by (induction xs) auto

lemma str_find_le: "length s < npos \<Longrightarrow> str_find s p pos \<noteq> npos \<Longrightarrow> str_find s p pos \<le> length s"
  by (auto simp: str_find_def split: option.splits if_splits dest!: find_sub_Some)

lemma str_substr_Inr: "pos \<le> length s \<Longrightarrow> str_substr s pos n = Inr (take n (drop pos s))"
  by (simp add: str_substr_def)

section \<open>C strings\<close>

definition nul :: char where
  "nul = CHR 0x00"

text \<open>
  \<open>c_str\<close>: what a C function sees of a \<open>std::string\<close> passed with \<open>c_str()\<close>.
  \<open>string_of_ptr p m\<close>: the \<open>std::string\<close> built from the pointer \<open>p\<close>, null or
  the address of the bytes \<open>b\<close>, when the memory after those bytes holds \<open>m\<close>:
  everything up to the first NUL byte.
\<close>

definition c_str :: "string \<Rightarrow> string" where
  "c_str s = takeWhile (\<lambda>c. c \<noteq> nul) s"

definition string_of_ptr :: "string option \<Rightarrow> string \<Rightarrow> string exec" where
  "string_of_ptr p m =
     (case p of
        None \<Rightarrow> Inl Null_String
      | Some b \<Rightarrow> (if nul \<in> set (b @ m) then Inr (c_str (b @ m)) else Inl Unterminated_String))"

lemma c_str_id [simp]: "nul \<notin> set s \<Longrightarrow> c_str s = s"
  by (auto simp: c_str_def intro: takeWhile_all)

lemma string_of_ptr_terminated:
  "nul \<notin> set b \<Longrightarrow> string_of_ptr (Some b) (nul # m) = Inr b"
  by (auto simp: string_of_ptr_def c_str_def intro: takeWhile_append_stop)

section \<open>Decimal numbers\<close>

definition digit_char :: "nat \<Rightarrow> char" where
  "digit_char d = char_of (48 + d)"

definition is_digit :: "char \<Rightarrow> bool" where
  "is_digit c \<longleftrightarrow> 48 \<le> (of_char c :: nat) \<and> (of_char c :: nat) \<le> 57"

definition is_space :: "char \<Rightarrow> bool" where
  "is_space c \<longleftrightarrow> (of_char c :: nat) = 32 \<or> 9 \<le> (of_char c :: nat) \<and> (of_char c :: nat) \<le> 13"

fun show_nat :: "nat \<Rightarrow> string" where
  "show_nat n = (if n < 10 then [digit_char n] else show_nat (n div 10) @ [digit_char (n mod 10)])"

declare show_nat.simps [simp del]

definition show_int :: "int \<Rightarrow> string" where
  "show_int i = (if i < 0 then CHR ''-'' # show_nat (nat (- i)) else show_nat (nat i))"

definition dec_value :: "string \<Rightarrow> int" where
  "dec_value ds = foldl (\<lambda>acc c. 10 * acc + (of_char c - 48)) 0 ds"

text \<open>
  \<open>read_int\<close> is the common part of \<open>strtol\<close> and \<open>strtoul\<close> in base 10: skip
  white space, an optional sign, the digits; \<open>None\<close> when there is no digit.
\<close>

definition read_int :: "string \<Rightarrow> (bool \<times> int \<times> string) option" where
  "read_int s =
     (let t = dropWhile is_space s;
          neg = (t \<noteq> [] \<and> hd t = CHR ''-'');
          u = (if t \<noteq> [] \<and> (hd t = CHR ''-'' \<or> hd t = CHR ''+'') then tl t else t);
          ds = takeWhile is_digit u
      in if ds = [] then None else Some (neg, dec_value ds, dropWhile is_digit u))"

definition strtol :: "string \<Rightarrow> int \<times> string" where
  "strtol s =
     (case read_int s of
        None \<Rightarrow> (0, s)
      | Some (neg, v, rest) \<Rightarrow>
          (if neg then max (- (2 ^ 63)) (- v) else min (2 ^ 63 - 1) v, rest))"

definition strtoul :: "string \<Rightarrow> nat \<times> string" where
  "strtoul s =
     (case read_int s of
        None \<Rightarrow> (0, s)
      | Some (neg, v, rest) \<Rightarrow>
          (if 2 ^ 64 \<le> v then 2 ^ 64 - 1 else to_size (if neg then - v else v), rest))"

definition atoi :: "string \<Rightarrow> int" where
  "atoi s = to_int (fst (strtol s))"

lemma of_char_digit_char [simp]: "d < 10 \<Longrightarrow> (of_char (digit_char d) :: nat) = 48 + d"
  by (simp add: digit_char_def)

lemma of_char_digit_char_int [simp]: "d < 10 \<Longrightarrow> (of_char (digit_char d) :: int) = 48 + int d"
  using of_char_digit_char [of d] by (metis of_char_of of_nat_numeral of_nat_add of_nat_of_char)

lemma is_digit_digit_char [simp]: "d < 10 \<Longrightarrow> is_digit (digit_char d)"
  by (simp add: is_digit_def)

lemma show_nat_digits: "c \<in> set (show_nat n) \<Longrightarrow> is_digit c"
  by (induction n rule: show_nat.induct) (subst (asm) (2) show_nat.simps, auto split: if_splits)

lemma show_nat_nonempty [simp]: "show_nat n \<noteq> []"
  by (subst show_nat.simps) simp

lemma dec_value_append: "dec_value (xs @ [c]) = 10 * dec_value xs + (of_char c - 48)"
  by (simp add: dec_value_def)

lemma dec_value_show_nat [simp]: "dec_value (show_nat n) = int n"
proof (induction n rule: show_nat.induct)
  case (1 n)
  show ?case
  proof (cases "n < 10")
    case True
    then show ?thesis by (subst show_nat.simps) (simp add: dec_value_def)
  next
    case False
    with "1.IH" have "dec_value (show_nat (n div 10)) = int (n div 10)" by simp
    with False show ?thesis
      by (subst show_nat.simps) (simp add: dec_value_append, presburger)
  qed
qed

lemma digit_not_space: "is_digit c \<Longrightarrow> \<not> is_space c"
  by (auto simp: is_digit_def is_space_def)

lemma digit_not_sign: "is_digit c \<Longrightarrow> c \<noteq> CHR ''-'' \<and> c \<noteq> CHR ''+'' \<and> c \<noteq> nul"
  by (auto simp: is_digit_def nul_def)

lemma read_int_digits:
  assumes "ds \<noteq> []" "\<And>c. c \<in> set ds \<Longrightarrow> is_digit c" "rest = [] \<or> \<not> is_digit (hd rest)"
  shows "read_int (ds @ rest) = Some (False, dec_value ds, rest)"
    and "read_int (CHR ''-'' # ds @ rest) = Some (True, dec_value ds, rest)"
proof -
  obtain c cs where ds: "ds = c # cs" using assms(1) by (cases ds) auto
  have c: "is_digit c" using assms(2) ds by simp
  have sp: "dropWhile is_space (ds @ rest) = ds @ rest"
    using c ds by (simp add: digit_not_space)
  have tw: "takeWhile is_digit (ds @ rest) = ds" and dw: "dropWhile is_digit (ds @ rest) = rest"
    using assms(2,3) by (cases rest; force simp: takeWhile_append takeWhile_all dropWhile_append dropWhile_all)+
  show "read_int (ds @ rest) = Some (False, dec_value ds, rest)"
    using c ds digit_not_sign [OF c] tw dw sp by (simp add: read_int_def Let_def)
  have "\<not> is_space (CHR ''-'')" by (simp add: is_space_def)
  then show "read_int (CHR ''-'' # ds @ rest) = Some (True, dec_value ds, rest)"
    using assms(1) tw dw by (simp add: read_int_def Let_def)
qed

lemma strtol_show_int:
  assumes "- (2 ^ 63) \<le> i" "i < 2 ^ 63"
  shows "strtol (show_int i) = (i, [])"
  using assms read_int_digits [OF show_nat_nonempty show_nat_digits, where rest = "[]"]
  by (auto simp: strtol_def show_int_def)

lemma atoi_show_int:
  assumes "- (2 ^ 31) \<le> i" "i < 2 ^ 31"
  shows "atoi (show_int i) = i"
  using assms by (simp add: atoi_def strtol_show_int to_int_small)

lemma nul_notin_show_int [simp]: "nul \<notin> set (show_int i)"
  by (auto simp: show_int_def nul_def dest!: show_nat_digits simp: is_digit_def)

lemma show_int_nat: "show_int (int n) = show_nat n"
  by (simp add: show_int_def)

lemma word_atoi_show_nat:
  assumes "n < 2 ^ 63"
  shows "(word_of_int (atoi (show_nat n)) :: 32 word) = word_of_nat n"
proof -
  have "int n < 2 ^ 63" using assms by (metis of_nat_less_iff of_nat_numeral of_nat_power)
  then have "strtol (show_int (int n)) = (int n, [])" by (intro strtol_show_int) auto
  then show ?thesis by (simp add: atoi_def show_int_nat)
qed

lemma atoi_empty [simp]: "atoi [] = 0"
  by (simp add: atoi_def strtol_def read_int_def to_int_def)

end
