(* ===== verification/Sync_Client.thy ===== *)
theory Sync_Client
  imports Cstring "HOL-Library.List_Lexorder" "HOL-Library.Char_ord"
begin

text \<open>
  \<open>client/sync.py\<close>, the Python script a user runs: its requests to the servers, the upload and
  the download of one file. The requests library, the shell with the \<open>curl\<close>, \<open>split\<close> and
  \<open>cat\<close> it runs, and the hash function are the fields of a record. A file of the block
  directory is a pair of its path and its content.
\<close>

section \<open>Python values\<close>

datatype py =
    PNone
  | PBool bool
  | PInt int
  | PStr string
  | PList "py list"
  | PDict "(string \<times> py) list"

text \<open>\<open>v == True\<close> and \<open>v == False\<close>: a Boolean equals the number it counts as.\<close>

definition is_true :: "py \<Rightarrow> bool" where
  "is_true v \<longleftrightarrow> v = PBool True \<or> v = PInt 1"

definition is_false :: "py \<Rightarrow> bool" where
  "is_false v \<longleftrightarrow> v = PBool False \<or> v = PInt 0"

text \<open>\<open>v[key]\<close> with a string for the key.\<close>

definition item :: "py \<Rightarrow> string \<Rightarrow> py exec" where
  "item v key =
     (case v of
        PDict d \<Rightarrow> (case map_of d key of None \<Rightarrow> Inl (Raised ''KeyError'') | Some x \<Rightarrow> Inr x)
      | _ \<Rightarrow> Inl (Raised ''TypeError''))"

text \<open>What \<open>for x in v\<close> runs through.\<close>

definition elements :: "py \<Rightarrow> py list exec" where
  "elements v =
     (case v of
        PList vs \<Rightarrow> Inr vs
      | PStr s \<Rightarrow> Inr (map (\<lambda>c. PStr [c]) s)
      | PDict d \<Rightarrow> Inr (map (PStr \<circ> fst) d)
      | _ \<Rightarrow> Inl (Raised ''TypeError''))"

section \<open>The libraries and programs it uses\<close>

text \<open>
  \<open>rq_send w method url params data\<close>: \<open>requests.get\<close> and \<open>requests.post\<close>; \<open>None\<close> when they
  raise. The parameters come in the order the script writes them. \<open>rq_json\<close>: \<open>r.json()\<close>.
  \<open>py_dumps\<close>: \<open>json.dumps\<close> of a dictionary. \<open>py_shell w files command\<close>: what a shell command
  prints, where \<open>files\<close> are the files it can read. \<open>sha256\<close>: \<open>hexdigest\<close> of the content.
\<close>

record web_reply =
  p_status :: int
  p_content :: string
  p_origin :: "string option"

record 'w client =
  rq_send :: "'w \<Rightarrow> string \<Rightarrow> string \<Rightarrow> (string \<times> py) list \<Rightarrow> string \<Rightarrow> 'w \<times> web_reply option"
  rq_json :: "string \<Rightarrow> py option"
  py_dumps :: "(string \<times> py) list \<Rightarrow> string"
  py_shell :: "'w \<Rightarrow> (string \<rightharpoonup> string) \<Rightarrow> string \<Rightarrow> 'w \<times> string"
  sha256 :: "string \<Rightarrow> string"

definition send_request ::
  "'w client \<Rightarrow> 'w \<Rightarrow> string \<Rightarrow> string \<Rightarrow> (string \<times> py) list \<Rightarrow> string \<Rightarrow> ('w \<times> web_reply) exec" where
  "send_request E w method url params data =
     (case rq_send E w method url params data of
        (w, None) \<Rightarrow> Inl (Raised ''ConnectionError'')
      | (w, Some r) \<Rightarrow> Inr (w, r))"

definition reply_json :: "'w client \<Rightarrow> web_reply \<Rightarrow> py exec" where
  "reply_json E r =
     (case rq_json E (p_content r) of None \<Rightarrow> Inl (Raised ''ValueError'') | Some v \<Rightarrow> Inr v)"

section \<open>Requests\<close>

definition requestOK :: "web_reply \<Rightarrow> bool" where
  "requestOK r \<longleftrightarrow> p_status r = 200"

definition getBlockList :: "'w client \<Rightarrow> 'w \<Rightarrow> string \<Rightarrow> string \<Rightarrow> ('w \<times> py option) exec" where
  "getBlockList E w fi user =
     bind_exec (send_request E w ''GET'' ''http://metaserver.raycoll.me/block_list''
                  [(''file_name'', PStr fi), (''user_id'', PStr user)] []) (\<lambda>(w, r).
     if \<not> requestOK r then Inr (w, None)
     else bind_exec (reply_json E r) (\<lambda>v. Inr (w, Some v)))"

definition getBlockQuery :: "'w client \<Rightarrow> 'w \<Rightarrow> string \<Rightarrow> string list \<Rightarrow> string \<Rightarrow> ('w \<times> py option) exec" where
  "getBlockQuery E w fi block_list user_id =
     (let payload = py_dumps E [(''user_id'', PStr user_id), (''file_name'', PStr fi),
                                (''block_list'', PList (map PStr block_list))] in
      bind_exec (send_request E w ''GET'' ''http://metaserver.raycoll.me/block_query'' [] payload) (\<lambda>(w, r).
      if \<not> requestOK r then Inr (w, None)
      else bind_exec (reply_json E r) (\<lambda>v. Inr (w, Some v))))"

definition curl_command :: "string \<Rightarrow> string \<Rightarrow> string \<Rightarrow> string \<Rightarrow> string" where
  "curl_command fi cache_host block_hash user =
     ''curl -s --data-binary @'' @ fi @ '' '' @ [CHR 0x27] @ ''http://'' @ cache_host @
     ''/cache_block_store?hash='' @ block_hash @ ''&user='' @ user @ [CHR 0x27]"

definition postBlockStore ::
  "'w client \<Rightarrow> string \<Rightarrow> (string \<rightharpoonup> string) \<Rightarrow> 'w \<Rightarrow> string \<Rightarrow> string \<Rightarrow> string \<Rightarrow> 'w \<times> bool" where
  "postBlockStore E cache_host files w fi block_hash user =
     (case py_shell E w files (curl_command fi cache_host block_hash user) of
        (w, response) \<Rightarrow> (w, find_sub ''200 OK'' response \<noteq> None))"

definition postFileCommit ::
  "'w client \<Rightarrow> 'w \<Rightarrow> string \<Rightarrow> string list \<Rightarrow> string \<Rightarrow> string \<Rightarrow> ('w \<times> bool) exec" where
  "postFileCommit E w fi block_list user_id version =
     (let payload = py_dumps E [(''user_id'', PStr user_id), (''file_name'', PStr fi),
                                (''block_list'', PList (map PStr block_list)), (''version'', PStr version)] in
      bind_exec (send_request E w ''POST'' ''http://metaserver.raycoll.me/file_commit'' [] payload) (\<lambda>(w, r).
      if \<not> requestOK r then Inr (w, False)
      else bind_exec (reply_json E r) (\<lambda>file_commit_json.
           bind_exec (item file_commit_json ''metadata_updated'') (\<lambda>v. Inr (w, is_true v)))))"

section \<open>Uploading a file\<close>

text \<open>
  The loop over \<open>needed_blocks\<close>; \<open>hash_to_file\<close> names the file of a block, the last one when
  several have the same hash. A value that is no string is no key of the dictionary; lists and
  dictionaries cannot even be looked up.
\<close>

definition lookup_error :: "py \<Rightarrow> crash" where
  "lookup_error v = (case v of PList _ \<Rightarrow> Raised ''TypeError'' | PDict _ \<Rightarrow> Raised ''TypeError'' | _ \<Rightarrow> Raised ''KeyError'')"

fun store_needed ::
  "'w client \<Rightarrow> string \<Rightarrow> (string \<rightharpoonup> string) \<Rightarrow> (string \<rightharpoonup> string) \<Rightarrow> string \<Rightarrow> 'w \<Rightarrow> py list \<Rightarrow> ('w \<times> bool) exec" where
  "store_needed E host files hash_to_file user w [] = Inr (w, True)"
| "store_needed E host files hash_to_file user w (PStr blck_hash # bs) =
     (case hash_to_file blck_hash of
        None \<Rightarrow> Inl (Raised ''KeyError'')
      | Some path \<Rightarrow>
          (case postBlockStore E host files w path blck_hash user of
             (w, file_store) \<Rightarrow>
               if \<not> file_store then Inr (w, False)
               else store_needed E host files hash_to_file user w bs))"
| "store_needed E host files hash_to_file user w (v # bs) = Inl (lookup_error v)"

text \<open>
  \<open>pieces\<close>: the paths and contents of the files \<open>split\<close> leaves in the block directory, sorted
  by name. An answer whose \<open>nb\<close> is neither true nor false ends without a commit, and with
  \<open>True\<close>.
\<close>

definition upFile ::
  "'w client \<Rightarrow> string \<Rightarrow> string \<Rightarrow> 'w \<Rightarrow> string \<Rightarrow> string \<Rightarrow> (string \<times> string) list \<Rightarrow> ('w \<times> bool) exec" where
  "upFile E cache_host user w fi version pieces =
     (let file_hashes = map (\<lambda>(path, content). sha256 E content) pieces;
          hash_to_file = map_of (rev (zip file_hashes (map fst pieces)))
      in
      bind_exec (getBlockQuery E w fi file_hashes user) (\<lambda>(w, block_query_json).
      case block_query_json of
        None \<Rightarrow> Inr (w, False)
      | Some v \<Rightarrow>
          bind_exec (item v ''nb'') (\<lambda>nb.
          if is_false nb then postFileCommit E w fi file_hashes user version
          else if is_true nb then
            bind_exec (item v ''needed_blocks'') (\<lambda>needed.
            bind_exec (elements needed) (\<lambda>needed_blocks.
            bind_exec (store_needed E cache_host (map_of pieces) hash_to_file user w needed_blocks) (\<lambda>(w, stored).
            if \<not> stored then Inr (w, False)
            else postFileCommit E w fi file_hashes user version)))
          else Inr (w, True))))"

section \<open>Downloading a file\<close>

text \<open>The content of the block, or \<open>None\<close> when the request was refused.\<close>

definition getBlockFetch ::
  "'w client \<Rightarrow> string \<Rightarrow> 'w \<Rightarrow> py \<Rightarrow> string \<Rightarrow> ('w \<times> string option) exec" where
  "getBlockFetch E cache_host w block_hash user =
     bind_exec (send_request E w ''POST'' (''http://'' @ cache_host @ ''/cache_block_fetch'')
                  [(''hash'', block_hash), (''user'', PStr user)] []) (\<lambda>(w, r).
     if \<not> requestOK r then Inr (w, None)
     else case p_origin r of
         None \<Rightarrow> Inl (Raised ''KeyError'')
       | Some _ \<Rightarrow> Inr (w, Some (p_content r)))"

text \<open>
  \<open>downFile\<close> saves the blocks as \<open>fi_00001\<close>, \<open>fi_00002\<close> and so on and joins these files in the
  order of their names. \<open>number_name\<close>: \<open>%05i\<close>.
\<close>

definition number_name :: "nat \<Rightarrow> string" where
  "number_name i = replicate (5 - length (show_nat i)) (CHR ''0'') @ show_nat i"

fun down_blocks ::
  "'w client \<Rightarrow> string \<Rightarrow> string \<Rightarrow> 'w \<Rightarrow> nat \<Rightarrow> py list \<Rightarrow> ('w \<times> (string \<times> string) list option) exec" where
  "down_blocks E host user w i [] = Inr (w, Some [])"
| "down_blocks E host user w i (block # bs) =
     bind_exec (getBlockFetch E host w block user) (\<lambda>(w, fetched).
     case fetched of
       None \<Rightarrow> Inr (w, None)
     | Some content \<Rightarrow>
         bind_exec (down_blocks E host user w (Suc i) bs) (\<lambda>(w, saved).
         Inr (w, map_option (Cons (number_name i, content)) saved)))"

definition downFile ::
  "'w client \<Rightarrow> string \<Rightarrow> string \<Rightarrow> 'w \<Rightarrow> py \<Rightarrow> ('w \<times> string option) exec" where
  "downFile E cache_host user w block_list =
     bind_exec (elements block_list) (\<lambda>blocks.
     bind_exec (down_blocks E cache_host user w 1 blocks) (\<lambda>(w, saved).
     Inr (w, map_option (\<lambda>saved. concat (map snd (sort_key fst saved))) saved)))"

text \<open>Up to 99999 the names sort like the numbers, so the blocks keep the order of the list.\<close>

lemma int_of_char: "(of_char x :: int) = int (of_char x)"
  by (rule of_nat_of_char [symmetric])

lemma dec_value_Cons: "dec_value (x # xs) = (of_char x - 48) * 10 ^ length xs + dec_value xs"
proof (induction xs rule: rev_induct)
  case (snoc y ys)
  have "dec_value (x # ys @ [y]) = 10 * dec_value (x # ys) + (of_char y - 48)"
    using dec_value_append [of "x # ys" y] unfolding append_Cons .
  also have "dec_value (x # ys) = (of_char x - 48) * 10 ^ length ys + dec_value ys" by (rule snoc)
  finally have "dec_value (x # ys @ [y]) = (of_char x - 48) * 10 ^ length (ys @ [y]) + dec_value (ys @ [y])"
    unfolding dec_value_append length_append_singleton power_Suc by (simp add: algebra_simps)
  then show ?case .
qed (simp add: dec_value_def)

lemma dec_value_bounds:
  assumes "\<forall>c \<in> set xs. is_digit c"
  shows "0 \<le> dec_value xs" "dec_value xs < 10 ^ length xs"
proof -
  have "0 \<le> dec_value xs \<and> dec_value xs < 10 ^ length xs"
    using assms
  proof (induction xs)
    case (Cons x xs)
    have x: "48 \<le> (of_char x :: int)" "(of_char x :: int) \<le> 57"
      using Cons.prems unfolding int_of_char by (simp_all add: is_digit_def del: of_nat_of_char)
    have "(of_char x - 48 :: int) * 10 ^ length xs \<le> 9 * 10 ^ length xs"
      using x(2) by (intro mult_right_mono) simp_all
    moreover have "0 \<le> (of_char x - 48 :: int) * 10 ^ length xs" using x(1) by simp
    moreover have "0 \<le> dec_value xs \<and> dec_value xs < 10 ^ length xs" using Cons by simp
    ultimately show ?case unfolding dec_value_Cons by (simp only: length_Cons power_Suc) linarith
  qed (simp add: dec_value_def)
  then show "0 \<le> dec_value xs" "dec_value xs < 10 ^ length xs" by simp_all
qed

lemma dec_value_less:
  assumes "length xs = length ys" "\<forall>c \<in> set xs. is_digit c" "\<forall>c \<in> set ys. is_digit c"
    and "dec_value xs < dec_value ys"
  shows "xs < ys"
  using assms
proof (induction xs ys rule: list_induct2)
  case (Cons x xs y ys)
  show ?case
  proof (cases "x = y")
    case True
    with Cons show ?thesis by (simp add: dec_value_Cons)
  next
    case False
    have "\<not> of_char y < (of_char x :: int)"
    proof
      assume "of_char y < (of_char x :: int)"
      then have "(of_char y + 1 - 48 :: int) * 10 ^ length ys \<le> (of_char x - 48) * 10 ^ length ys"
        by (intro mult_right_mono) simp_all
      with Cons.prems(3) Cons.hyps dec_value_bounds [of xs] dec_value_bounds [of ys] Cons.prems(1,2)
      show False by (simp add: dec_value_Cons algebra_simps)
    qed
    with False have "of_char x < (of_char y :: int)"
      by (metis linorder_neqE_linordered_idom of_char_eq_iff)
    then have "of_char x < (of_char y :: nat)" unfolding int_of_char of_nat_less_iff .
    then have "x < y" unfolding less_char_def .
    then show ?thesis by simp
  qed
qed simp

lemma length_show_nat: "n < 10 ^ k \<Longrightarrow> 0 < k \<Longrightarrow> length (show_nat n) \<le> k"
proof (induction n arbitrary: k rule: show_nat.induct)
  case (1 n)
  show ?case
  proof (cases "n < 10")
    case False
    with 1(2) obtain j where k: "k = Suc j" "0 < j" by (cases k; cases "k - 1") auto
    with 1(2) have "n div 10 < 10 ^ j" by (simp add: less_mult_imp_div_less mult.commute)
    with 1(1) [OF False _ k(2)] k(1) False show ?thesis by (subst show_nat.simps) simp
  qed (use 1(3) in \<open>subst show_nat.simps, simp\<close>)
qed

lemma number_name_facts:
  assumes "i \<le> 99999"
  shows "length (number_name i) = 5" "\<forall>c \<in> set (number_name i). is_digit c" "dec_value (number_name i) = int i"
proof -
  have "length (show_nat i) \<le> 5" using length_show_nat [of i 5] assms by simp
  then show "length (number_name i) = 5" by (simp add: number_name_def)
  show "\<forall>c \<in> set (number_name i). is_digit c"
    by (auto simp: number_name_def show_nat_digits) (simp add: is_digit_def)
  have "dec_value (replicate k (CHR ''0'') @ ds) = dec_value ds" for k ds
    by (induction k) (simp_all add: dec_value_Cons)
  then show "dec_value (number_name i) = int i" by (simp add: number_name_def)
qed

lemma number_name_less: "i < j \<Longrightarrow> j \<le> 99999 \<Longrightarrow> number_name i < number_name j"
  using number_name_facts [of i] number_name_facts [of j] by (intro dec_value_less) simp_all

lemma numbered_sorted:
  "i + length vs \<le> 100000 \<Longrightarrow> sorted (map number_name [i..<i + length vs])"
  by (auto simp: sorted_wrt_iff_nth_less sorted_iff_nth_mono_less less_imp_le number_name_less)

lemma joined_in_order:
  assumes "length vs \<le> 99999"
  shows "concat (map snd (sort_key fst (zip (map number_name [1..<1 + length vs]) vs))) = concat vs"
proof -
  let ?z = "zip (map number_name [1..<1 + length vs]) vs"
  have "map fst ?z = map number_name [1..<1 + length vs]" by simp
  then have "sorted (map fst ?z)" using numbered_sorted [of 1 vs] assms by simp
  then have "sort_key fst ?z = ?z" by (rule sort_key_id_if_sorted)
  then show ?thesis by (simp del: upt_Suc)
qed

end
