(* ===== verification/Jsoncpp.thy ===== *)
theory Jsoncpp
  imports Cstring
begin

text \<open>
  The interface of the jsoncpp library, which is not part of the repository: the
  calls the system makes, as the fields of a record that every definition using JSON
  takes as an argument. The type of \<open>Json::Value\<close> is the type variable \<open>'j\<close>; an
  accessor that fails an assertion or throws on a value of the wrong kind returns
  \<open>None\<close>.
\<close>

record 'j jsoncpp =
  j_parse :: "string \<Rightarrow> bool \<times> 'j"             \<comment> \<open>\<open>Reader::parse(doc, root, false)\<close>\<close>
  j_write :: "'j \<Rightarrow> string"                    \<comment> \<open>\<open>StyledWriter::write\<close>\<close>
  j_null :: "'j"                              \<comment> \<open>\<open>Value()\<close> and \<open>Value::null\<close>\<close>
  j_is_null :: "'j \<Rightarrow> bool"                    \<comment> \<open>\<open>v == Value::null\<close>, \<open>v.isNull()\<close>\<close>
  j_bool :: "bool \<Rightarrow> 'j"
  j_string :: "string \<Rightarrow> 'j"
  j_int :: "int \<Rightarrow> 'j"
  j_uint :: "32 word \<Rightarrow> 'j"
  j_get :: "'j \<Rightarrow> string \<Rightarrow> 'j option"          \<comment> \<open>\<open>v[key]\<close> read\<close>
  j_get_or :: "'j \<Rightarrow> string \<Rightarrow> 'j \<Rightarrow> 'j option"   \<comment> \<open>\<open>v.get(key, default)\<close>\<close>
  j_put :: "'j \<Rightarrow> string \<Rightarrow> 'j \<Rightarrow> 'j option"      \<comment> \<open>\<open>v[key] = w\<close>\<close>
  j_size :: "'j \<Rightarrow> nat"                        \<comment> \<open>\<open>v.size()\<close>\<close>
  j_at :: "'j \<Rightarrow> nat \<Rightarrow> 'j option"              \<comment> \<open>\<open>v[i]\<close> read\<close>
  j_set :: "'j \<Rightarrow> nat \<Rightarrow> 'j \<Rightarrow> 'j option"        \<comment> \<open>\<open>v[i] = w\<close>\<close>
  j_as_string :: "'j \<Rightarrow> string option"         \<comment> \<open>\<open>v.asString()\<close>\<close>

definition json_ok :: "'a option \<Rightarrow> 'a exec" where
  "json_ok r = (case r of None \<Rightarrow> Inl Json_Exception | Some a \<Rightarrow> Inr a)"

lemma json_ok_simps [simp]: "json_ok None = Inl Json_Exception" "json_ok (Some a) = Inr a"
  by (simp_all add: json_ok_def)

text \<open>
  What the system relies on, as the library documents it: a null value becomes an
  array or an object when it is assigned to, elements read back, string values keep
  their text, the null value is the only null one among those built here.
  \<open>j_elems v\<close> names the elements of an array (or of the null value, which has none),
  \<open>j_member v k\<close> the member \<open>k\<close> of an object.
\<close>

locale jsoncpp_values =
  fixes J :: "'j jsoncpp"
    and j_elems :: "'j \<Rightarrow> 'j list option"
    and j_members :: "'j \<Rightarrow> (string \<rightharpoonup> 'j) option"
  assumes elems_null: "j_elems (j_null J) = Some []"
    and members_null: "j_members (j_null J) = Some Map.empty"
    and size_elems: "j_elems v = Some vs \<Longrightarrow> j_size J v = length vs"
    and at_elems: "j_elems v = Some vs \<Longrightarrow> i < length vs \<Longrightarrow> j_at J v i = Some (vs ! i)"
    and set_elems: "j_elems v = Some vs \<Longrightarrow>
           \<exists>v'. j_set J v (length vs) w = Some v' \<and> j_elems v' = Some (vs @ [w]) \<and> \<not> j_is_null J v'"
    and put_members: "j_members v = Some m \<Longrightarrow>
           \<exists>v'. j_put J v k w = Some v' \<and> j_members v' = Some (m(k \<mapsto> w)) \<and> \<not> j_is_null J v'"
    and get_members: "j_members v = Some m \<Longrightarrow>
           j_get J v k = Some (case m k of None \<Rightarrow> j_null J | Some w \<Rightarrow> w)"
    and get_or_members: "j_members v = Some m \<Longrightarrow>
           j_get_or J v k w = Some (case m k of None \<Rightarrow> w | Some u \<Rightarrow> u)"
    and size_string: "j_size J (j_string J s) = 0"
    and not_null_string: "\<not> j_is_null J (j_string J s)"
    and as_string_string: "j_as_string J (j_string J s) = Some s"
    and is_null_null: "j_is_null J (j_null J)"

text \<open>
  A library whose reader reads what its writer wrote, as far as the programs exchange JSON: an
  object with one list of strings, and the message of two strings that
  \<open>cache_block_fetch.cpp\<close> writes by hand. \<open>sendable\<close> tells the strings that need no escape
  sequence.
\<close>

definition pair_message :: "string \<Rightarrow> string \<Rightarrow> string \<Rightarrow> string \<Rightarrow> string" where
  "pair_message a v b w =
     ''{'' @ [CHR 0x22] @ a @ [CHR 0x22] @ '': '' @ [CHR 0x22] @ v @ [CHR 0x22] @ '', '' @
     [CHR 0x22] @ b @ [CHR 0x22] @ '': '' @ [CHR 0x22] @ w @ [CHR 0x22] @ '' }''"

locale jsoncpp_text = jsoncpp_values J j_elems j_members
  for J :: "'j jsoncpp" and j_elems :: "'j \<Rightarrow> 'j list option" and j_members :: "'j \<Rightarrow> (string \<rightharpoonup> 'j) option" +
  fixes sendable :: "string \<Rightarrow> bool"
  assumes read_list: "j_members v = Some [key \<mapsto> l] \<Longrightarrow> sendable key \<Longrightarrow>
      j_elems l = Some (map (j_string J) ks) \<Longrightarrow> \<forall>k \<in> set ks. sendable k \<Longrightarrow>
      \<exists>v' l'. j_parse J (j_write J v) = (True, v') \<and> j_members v' = Some [key \<mapsto> l'] \<and>
           j_elems l' = Some (map (j_string J) ks) \<and> (j_is_null J l' \<longrightarrow> ks = [])"
    and read_pair: "sendable a \<Longrightarrow> sendable b \<Longrightarrow> a \<noteq> b \<Longrightarrow> sendable x \<Longrightarrow> sendable y \<Longrightarrow>
      \<exists>root. j_parse J (pair_message a x b y) = (True, root) \<and>
           j_members root = Some [a \<mapsto> j_string J x, b \<mapsto> j_string J y]"

end
