(* ===== verification/Query_String.thy ===== *)
theory Query_String
  imports Cstring
begin

text \<open>
  The three query-string parsers of the system: \<open>getQueryParam\<close> of the metadata
  workers (\<open>metadata/src/fcgi_util.cc\<close>), \<open>HttpHelper::getQueryParam\<close> of the
  cache server (\<open>blockcache/http_helper.cpp\<close>) and \<open>getBlockHash\<close> of the block
  server (\<open>blockcache/block_fetch.cc\<close>, repeated in \<open>block_store.cc\<close>). Positions are
  held in \<open>int\<close> variables, so every position passes through \<open>to_int\<close>, and
  comparing with \<open>string::npos\<close> converts back with \<open>to_size\<close>.
\<close>

section \<open>The parsers\<close>

text \<open>
  The common tail of the two \<open>getQueryParam\<close> functions: the value starts after the
  first \<open>=\<close> at or after \<open>paramPos\<close> and runs to the next \<open>&\<close> or the end.
\<close>

definition param_value :: "string \<Rightarrow> int \<Rightarrow> (int \<times> string) exec" where
  "param_value query_string paramPos =
     (let valuePos = to_int (int (str_find query_string ''='' (to_size paramPos)) + 1);
          nextParam = to_int (int (str_find query_string ''&'' (to_size valuePos)))
      in if to_size nextParam = npos
         then bind_exec (str_substr query_string (to_size valuePos) npos) (\<lambda>v. Inr (0, v))
         else bind_exec (str_substr query_string (to_size valuePos)
                           (to_size (nextParam - valuePos))) (\<lambda>v. Inr (0, v)))"

text \<open>
  Each parser returns its result code with the new value of the out-parameter
  \<open>value\<close>, which it leaves alone when the parameter is missing.
\<close>

definition getQueryParam :: "string \<Rightarrow> string \<Rightarrow> string \<Rightarrow> (int \<times> string) exec" where
  "getQueryParam query_string param value =
     (let paramPos = to_int (int (str_find query_string (param @ ''='') 0))
      in if to_size paramPos = npos then Inr (1, value)
         else param_value query_string paramPos)"

definition HttpHelper_getQueryParam :: "string \<Rightarrow> string \<Rightarrow> string \<Rightarrow> (int \<times> string) exec" where
  "HttpHelper_getQueryParam query_string param value =
     (let paramPos = to_int (int (str_find query_string param 0))
      in if to_size paramPos = npos then Inr (1, value)
         else param_value query_string paramPos)"

definition getBlockHash :: "string \<Rightarrow> string \<Rightarrow> (int \<times> string) exec" where
  "getBlockHash param blockHash =
     (let hashPos = to_int (int (str_find param ''hash'' 0))
      in if to_size hashPos = npos then Inr (1, blockHash)
         else
           let equPos = to_int (int (str_find param ''='' 0))
           in bind_exec (str_substr param (to_size (equPos + 1)) npos) (\<lambda>v. Inr (0, v)))"

section \<open>What they compute\<close>

text \<open>
  Strings shorter than \<open>2 ^ 31\<close> bytes keep their positions in an \<open>int\<close>. Below that
  bound, \<open>param_value\<close> never throws and its value is read off with \<open>takeWhile\<close>.
\<close>

abbreviation short :: "string \<Rightarrow> bool" where
  "short s \<equiv> length s < 2 ^ 31 - 1"

definition upto_amp :: "string \<Rightarrow> string" where
  "upto_amp s = takeWhile (\<lambda>c. c \<noteq> CHR ''&'') s"

lemma str_find_to_int:
  assumes "short s"
  shows "to_size (to_int (int (str_find s p k))) = npos \<longleftrightarrow> str_find s p k = npos"
    and "str_find s p k \<noteq> npos \<Longrightarrow> to_int (int (str_find s p k)) = int (str_find s p k)"
    and "str_find s p k \<noteq> npos \<Longrightarrow> str_find s p k \<le> length s"
proof -
  have np: "length s < npos" using assms by (simp add: npos_def)
  show le: "str_find s p k \<le> length s" if "str_find s p k \<noteq> npos"
    using str_find_le [OF np that] .
  show id: "to_int (int (str_find s p k)) = int (str_find s p k)" if "str_find s p k \<noteq> npos"
    using le [OF that] assms by simp
  show "to_size (to_int (int (str_find s p k))) = npos \<longleftrightarrow> str_find s p k = npos"
  proof (cases "str_find s p k = npos")
    case False
    then show ?thesis using id le assms by (simp add: npos_def)
  qed simp
qed

lemma str_find_char:
  "k \<le> length s \<Longrightarrow> str_find s [c] k =
     (if c \<in> set (drop k s) then k + length (takeWhile (\<lambda>x. x \<noteq> c) (drop k s)) else npos)"
proof -
  assume k: "k \<le> length s"
  show ?thesis
  proof (cases "c \<in> set (drop k s)")
    case True
    then obtain a b where ab: "drop k s = a @ c # b" "c \<notin> set a"
      by (meson split_list_first)
    then have "takeWhile (\<lambda>x. x \<noteq> c) (drop k s) = a"
      by (auto intro: takeWhile_append_stop)
    with ab k True show ?thesis by (simp add: str_find_def find_sub_char)
  next
    case False
    then have "find_sub [c] (drop k s) = None" by simp
    with False k show ?thesis by (simp add: str_find_def)
  qed
qed

lemma take_length_takeWhile: "take (length (takeWhile P xs)) xs = takeWhile P xs"
  by (metis takeWhile_eq_take)

lemma param_value_at:
  assumes "short s" "pos + n < length s" "s ! (pos + n) = CHR ''=''"
    and "CHR ''='' \<notin> set (take n (drop pos s))"
  shows "param_value s (int pos) = Inr (0, upto_amp (drop (pos + n + 1) s))"
proof -
  let ?v = "pos + n + 1"
  have split: "drop pos s = take n (drop pos s) @ CHR ''='' # drop ?v s"
  proof -
    have n: "n < length (drop pos s)" using assms(2) by simp
    have "drop pos s ! n = CHR ''=''" "drop (Suc n) (drop pos s) = drop ?v s"
      using assms(2,3) by (simp_all add: ac_simps)
    then show ?thesis using id_take_nth_drop [OF n] by simp
  qed
  have "takeWhile (\<lambda>x. x \<noteq> CHR ''='') (drop pos s) = take n (drop pos s)"
    by (subst split, rule takeWhile_append_stop) (use assms(4) in auto)
  moreover have "CHR ''='' \<in> set (drop pos s)" by (subst split) simp
  ultimately have eq: "str_find s ''='' pos = pos + n"
    using assms(2) by (simp add: str_find_char)
  have sz: "to_size (int pos) = pos" using assms(1,2) by simp
  have vp: "to_int (int (pos + n) + 1) = int ?v"
    using assms(1,2) to_int_nat_small [of ?v] by (simp add: ac_simps)
  have vs: "to_size (int ?v) = ?v" using assms(1,2) by (intro to_size_nat_small) simp
  show ?thesis
  proof (cases "CHR ''&'' \<in> set (drop ?v s)")
    case True
    define m where "m = length (upto_amp (drop ?v s))"
    have nx: "str_find s ''&'' ?v = ?v + m"
      using True assms(2) by (simp add: str_find_char m_def upto_amp_def)
    have tk: "take m (drop ?v s) = upto_amp (drop ?v s)"
      by (simp add: m_def upto_amp_def take_length_takeWhile)
    have "m \<le> length s - ?v"
      unfolding m_def upto_amp_def by (metis length_drop length_takeWhile_le)
    then have b: "?v + m < 2 ^ 31" using assms(1,2) by simp
    then have "to_int (int (?v + m)) = int (?v + m)" "?v + m \<noteq> npos"
      by (simp_all only: to_int_nat_small) (simp add: npos_def)
    moreover have "to_size (int (?v + m)) = ?v + m"
      by (rule to_size_nat_small) (use b in simp)
    moreover have "to_size (int (?v + m) - int ?v) = m"
      using b to_size_nat_small [of m] by simp
    ultimately show ?thesis
      using eq sz vp vs nx tk assms(2)
      by (simp only: param_value_def Let_def str_substr_def) simp
  next
    case False
    then have "upto_amp (drop ?v s) = drop ?v s"
      unfolding upto_amp_def by (auto intro: takeWhile_all)
    moreover have "str_find s ''&'' ?v = npos"
      using False assms(2) by (simp add: str_find_char)
    moreover have "take npos (drop ?v s) = drop ?v s"
      using assms(1) by (simp add: npos_def)
    ultimately show ?thesis
      using eq sz vp vs assms(2)
      by (simp only: param_value_def Let_def str_substr_def to_int_npos to_size_minus_one) simp
  qed
qed

text \<open>
  The metadata parser finds the first \<open>param=\<close>. \<open>query_value\<close> is its result on
  strings that fit, as a function of the text alone; it satisfies a simple recursion over
  the \<open>=\<close> signs of the string.
\<close>

definition query_value :: "string \<Rightarrow> string \<Rightarrow> string option" where
  "query_value p s =
     map_option (\<lambda>i. upto_amp (drop (i + length p + 1) s)) (find_sub (p @ ''='') s)"

lemma getQueryParam_query_value:
  assumes "short s" "CHR ''='' \<notin> set p"
  shows "getQueryParam s p v =
    Inr (case query_value p s of None \<Rightarrow> (1, v) | Some w \<Rightarrow> (0, w))"
proof (cases "find_sub (p @ ''='') s")
  case None
  then have "str_find s (p @ ''='') 0 = npos" by (simp add: str_find_def)
  with None show ?thesis by (simp add: getQueryParam_def query_value_def)
next
  case (Some i)
  then have f: "str_find s (p @ ''='') 0 = i" by (simp add: str_find_def)
  from find_sub_Some [OF Some] obtain zs where
    b: "i + length p + 1 \<le> length s" and pz: "drop i s = p @ CHR ''='' # zs"
    by (auto simp: prefix_def)
  have eq: "s ! (i + length p) = CHR ''=''"
    using b arg_cong [OF pz, of "\<lambda>xs. xs ! length p"] by simp
  have i: "to_int (int i) = int i" "to_size (int i) = i" "i \<noteq> npos"
    using b assms(1) to_int_nat_small [of i] to_size_nat_small [of i] by (auto simp: npos_def)
  have "param_value s (int i) = Inr (0, upto_amp (drop (i + length p + 1) s))"
    by (rule param_value_at) (use assms b eq pz in auto)
  with f i Some show ?thesis by (simp add: getQueryParam_def query_value_def)
qed

lemma find_sub_at_stop:
  assumes "c \<notin> set a" "c \<notin> set p"
  shows "find_sub (p @ [c]) (a @ c # b) =
    (if suffix p a then Some (length a - length p)
     else map_option (\<lambda>i. length a + 1 + i) (find_sub (p @ [c]) b))"
  using assms(1)
proof (induction a)
  case Nil
  show ?case
  proof (cases p)
    case (Cons d ds)
    with assms(2) have "\<not> prefix (p @ [c]) (c # b)" by auto
    with Cons show ?thesis by (cases "find_sub (p @ [c]) b") auto
  qed simp
next
  case (Cons x xs)
  have pre: "prefix (p @ [c]) ((x # xs) @ c # b) \<longleftrightarrow> p = x # xs"
  proof
    assume "prefix (p @ [c]) ((x # xs) @ c # b)"
    then obtain zs where z: "(x # xs) @ c # b = p @ c # zs" by (auto simp: prefix_def)
    have "takeWhile (\<lambda>y. y \<noteq> c) ((x # xs) @ c # b) = x # xs"
      by (rule takeWhile_append_stop) (use Cons.prems in auto)
    moreover have "takeWhile (\<lambda>y. y \<noteq> c) (p @ c # zs) = p"
      by (rule takeWhile_append_stop) (use assms(2) in auto)
    ultimately show "p = x # xs" using z by (simp only: z)
  qed auto
  show ?case
  proof (cases "p = x # xs")
    case True
    with pre show ?thesis by simp
  next
    case False
    then have sfx: "suffix p (x # xs) \<longleftrightarrow> suffix p xs" by (auto simp: suffix_Cons)
    have "suffix p xs \<Longrightarrow> length p \<le> length xs" by (rule suffix_length_le)
    with False pre sfx Cons show ?thesis
      by (cases "find_sub (p @ [c]) b") (auto simp: Suc_diff_le)
  qed
qed

lemma query_value_step:
  assumes "CHR ''='' \<notin> set a" "CHR ''='' \<notin> set p"
  shows "query_value p (a @ CHR ''='' # b) =
    (if suffix p a then Some (upto_amp b) else query_value p b)"
proof -
  have "suffix p a \<Longrightarrow> length p \<le> length a" by (rule suffix_length_le)
  then show ?thesis
    by (auto simp: query_value_def find_sub_at_stop [OF assms] option.map_comp comp_def ac_simps)
qed

lemma query_value_no_eq: "CHR ''='' \<notin> set b \<Longrightarrow> query_value p b = None"
proof -
  assume no: "CHR ''='' \<notin> set b"
  have "\<not> prefix (p @ ''='') (drop j b)" for j
  proof
    assume "prefix (p @ ''='') (drop j b)"
    then have "CHR ''='' \<in> set (drop j b)" by (auto dest: set_mono_prefix)
    with no show False by (auto dest: in_set_dropD)
  qed
  then show ?thesis by (simp add: query_value_def find_sub_None)
qed

text \<open>
  A query string as the clients build it: pairs \<open>key=value\<close> joined by \<open>&\<close>,
  where neither keys nor values contain \<open>=\<close> or \<open>&\<close>.
\<close>

definition plain :: "string \<Rightarrow> bool" where
  "plain s \<longleftrightarrow> CHR ''='' \<notin> set s \<and> CHR ''&'' \<notin> set s"

fun render_query :: "(string \<times> string) list \<Rightarrow> string" where
  "render_query [] = []"
| "render_query [(k, v)] = k @ ''='' @ v"
| "render_query ((k, v) # kv # kvs) = k @ ''='' @ v @ ''&'' @ render_query (kv # kvs)"

definition plain_params :: "(string \<times> string) list \<Rightarrow> bool" where
  "plain_params kvs \<longleftrightarrow> (\<forall>(k, v) \<in> set kvs. plain k \<and> plain v)"

lemma upto_amp_plain:
  "plain v \<Longrightarrow> upto_amp v = v"
  "plain v \<Longrightarrow> upto_amp (v @ CHR ''&'' # r) = v"
  by (auto simp: plain_def upto_amp_def intro: takeWhile_all takeWhile_append_stop)

lemma suffix_after_amp:
  assumes "plain p"
  shows "suffix p (v @ CHR ''&'' # k) \<longleftrightarrow> suffix p k"
proof
  assume "suffix p (v @ CHR ''&'' # k)"
  then have "suffix p (CHR ''&'' # k) \<or> suffix (CHR ''&'' # k) p"
    by (meson suffix_appendI suffix_order.refl suffix_same_cases)
  with assms show "suffix p k"
    by (auto simp: suffix_Cons plain_def dest: set_mono_suffix)
qed (auto simp: suffix_Cons intro: suffix_appendI)

lemma query_value_after:
  assumes "plain p" "plain v" "plain_params kvs" "kvs \<noteq> []"
  shows "query_value p (v @ CHR ''&'' # render_query kvs) = query_value p (render_query kvs)"
proof -
  obtain k w r where kvs: "kvs = (k, w) # r" using assms(4) by (cases kvs) auto
  obtain rest where rest: "render_query kvs = k @ CHR ''='' # rest"
    using kvs by (cases r) auto
  have pl: "plain k" using assms(3) kvs by (auto simp: plain_params_def)
  have "query_value p ((v @ CHR ''&'' # k) @ CHR ''='' # rest) =
      (if suffix p k then Some (upto_amp rest) else query_value p rest)"
    using assms(1,2) pl suffix_after_amp [OF assms(1), of v k]
      query_value_step [of "v @ CHR ''&'' # k" p rest] by (simp add: plain_def)
  moreover have "query_value p (k @ CHR ''='' # rest) =
      (if suffix p k then Some (upto_amp rest) else query_value p rest)"
    using assms(1) pl query_value_step [of k p rest] by (simp add: plain_def)
  ultimately show ?thesis by (simp add: rest)
qed

lemma query_value_render:
  assumes "plain p" "plain_params kvs"
  shows "query_value p (render_query kvs) = map_option snd (find (\<lambda>(k, v). suffix p k) kvs)"
  using assms(2)
proof (induction kvs rule: render_query.induct)
  case 1
  show ?case by (simp add: query_value_no_eq)
next
  case (2 k v)
  then have kv: "plain k" "plain v" by (auto simp: plain_params_def)
  then have "query_value p v = None" by (intro query_value_no_eq) (simp add: plain_def)
  then show ?case
    using kv assms(1) query_value_step [of k p v] upto_amp_plain(1) [OF kv(2)]
    by (simp add: plain_def)
next
  case (3 k v kv kvs)
  have kv: "plain k" "plain v" and rest: "plain_params (kv # kvs)"
    using "3.prems" by (auto simp: plain_params_def)
  have "query_value p (render_query ((k, v) # kv # kvs)) =
      (if suffix p k then Some v else query_value p (render_query (kv # kvs)))"
    using kv assms(1) query_value_step [of k p "v @ CHR ''&'' # render_query (kv # kvs)"]
      query_value_after [OF assms(1) kv(2) rest]
    by (simp add: plain_def upto_amp_plain)
  with "3.IH" [OF rest] show ?case by simp
qed

section \<open>The parser of the cache machines\<close>

text \<open>
  \<open>HttpHelper::getQueryParam\<close> looks for the name anywhere in the string and then for the next
  \<open>=\<close>. \<open>value_after s i\<close>: the value that follows position \<open>i\<close>, if there is an \<open>=\<close>; when there is
  none the search wraps around to the start of the string.
\<close>

definition value_after :: "string \<Rightarrow> nat \<Rightarrow> string option" where
  "value_after s i =
     (if CHR ''='' \<in> set (drop i s)
      then Some (upto_amp (drop 1 (dropWhile (\<lambda>c. c \<noteq> CHR ''='') (drop i s)))) else None)"

definition text_value :: "string \<Rightarrow> string \<Rightarrow> string option option" where
  "text_value p s = map_option (value_after s) (find_sub p s)"

definition occurs :: "string \<Rightarrow> string \<Rightarrow> bool" where
  "occurs p s \<longleftrightarrow> find_sub p s \<noteq> None"

lemma split_at_char:
  assumes "c \<notin> set a"
  shows "takeWhile (\<lambda>x. x \<noteq> c) (a @ c # b) = a" "dropWhile (\<lambda>x. x \<noteq> c) (a @ c # b) = c # b"
  using assms by (auto intro: takeWhile_append_stop dropWhile_append_stop)

lemma param_value_wrap:
  assumes "short s" "i \<le> length s" "CHR ''='' \<notin> set (drop i s)"
  shows "param_value s (int i) = Inr (0, upto_amp s)"
proof -
  have "to_size (int i) = i" using assms(1,2) by simp
  then have eq: "str_find s ''='' (to_size (int i)) = npos" using assms(2,3) by (simp add: str_find_char)
  have vp: "to_int (int npos + 1) = 0" "to_size 0 = 0" by (simp_all add: npos_def to_int_def to_size_def)
  have amp: "str_find s ''&'' 0 = (if CHR ''&'' \<in> set s then length (upto_amp s) else npos)"
    by (simp add: str_find_char upto_amp_def)
  show ?thesis
  proof (cases "CHR ''&'' \<in> set s")
    case True
    have "length (upto_amp s) \<le> length s" by (simp add: upto_amp_def length_takeWhile_le)
    then have n: "to_int (int (length (upto_amp s))) = int (length (upto_amp s))"
      "to_size (int (length (upto_amp s))) = length (upto_amp s)" "length (upto_amp s) \<noteq> npos"
      using assms(1) to_int_nat_small [of "length (upto_amp s)"] to_size_nat_small [of "length (upto_amp s)"]
      by (auto simp: npos_def)
    have "take (length (upto_amp s)) s = upto_amp s" by (simp add: upto_amp_def take_length_takeWhile)
    with True eq vp amp n show ?thesis
      by (simp only: param_value_def Let_def str_substr_def) simp
  next
    case False
    then have "upto_amp s = s" unfolding upto_amp_def by (auto intro: takeWhile_all)
    moreover have "take npos s = s" using assms(1) by (simp add: npos_def)
    ultimately show ?thesis using False eq vp amp
      by (simp only: param_value_def Let_def str_substr_def to_int_npos to_size_minus_one) simp
  qed
qed

lemma param_value_text:
  assumes "short s" "i \<le> length s"
  shows "param_value s (int i) = Inr (0, case value_after s i of None \<Rightarrow> upto_amp s | Some w \<Rightarrow> w)"
proof (cases "CHR ''='' \<in> set (drop i s)")
  case True
  then obtain a b where ab: "drop i s = a @ CHR ''='' # b" "CHR ''='' \<notin> set a"
    by (meson split_list_first)
  have i: "i < length s" using True by (cases "i < length s") auto
  have len: "i + length a < length s" using arg_cong [OF ab(1), of length] i by simp
  have eq: "s ! (i + length a) = CHR ''=''"
    using i len arg_cong [OF ab(1), of "\<lambda>xs. xs ! length a"] by simp
  have b: "drop (i + length a + 1) s = b"
    using arg_cong [OF ab(1), of "drop (length a + 1)"] by (simp add: ac_simps)
  have "param_value s (int i) = Inr (0, upto_amp (drop (i + length a + 1) s))"
    by (rule param_value_at [OF assms(1) len eq]) (use ab in simp)
  with b True ab split_at_char(2) [OF ab(2), of b] show ?thesis by (simp add: value_after_def)
next
  case False
  then show ?thesis using param_value_wrap [OF assms False] by (simp add: value_after_def)
qed

lemma HttpHelper_text:
  assumes "short s"
  shows "HttpHelper_getQueryParam s p v =
    Inr (case text_value p s of None \<Rightarrow> (1, v) | Some None \<Rightarrow> (0, upto_amp s) | Some (Some w) \<Rightarrow> (0, w))"
proof (cases "find_sub p s")
  case None
  then show ?thesis by (simp add: HttpHelper_getQueryParam_def text_value_def str_find_def)
next
  case (Some i)
  have i: "i \<le> length s" using find_sub_Some [OF Some] by simp
  then have "to_int (int i) = int i" "to_size (int i) = i" "i \<noteq> npos"
    using assms to_int_nat_small [of i] to_size_nat_small [of i] by (auto simp: npos_def)
  with Some param_value_text [OF assms i] show ?thesis
    by (simp add: HttpHelper_getQueryParam_def text_value_def str_find_def split: option.splits)
qed

lemma find_sub_before_stop:
  assumes "c \<notin> set p" "p \<noteq> []"
  shows "find_sub p (a @ c # b) =
    (case find_sub p a of Some i \<Rightarrow> Some i | None \<Rightarrow> map_option (\<lambda>i. length a + 1 + i) (find_sub p b))"
proof (induction a)
  case Nil
  have "\<not> prefix p (c # b)" using assms by (cases p) auto
  then show ?case using assms(2) by (cases "find_sub p b") simp_all
next
  case (Cons x a)
  have "prefix p (x # a @ c # b) \<longleftrightarrow> prefix p (x # a)"
  proof
    assume "prefix p (x # a @ c # b)"
    then have "prefix p ((x # a) @ [c] @ b)" by simp
    then show "prefix p (x # a)"
      using assms(1) by (auto simp: prefix_append prefix_Cons dest: set_mono_prefix split: list.splits)
  next
    assume "prefix p (x # a)"
    then show "prefix p (x # a @ c # b)" using prefix_prefix [of p "x # a" "c # b"] by simp
  qed
  with Cons show ?case
    by (cases "find_sub p a"; cases "find_sub p b") auto
qed

lemma text_value_stop:
  assumes "c \<notin> set p" "p \<noteq> []"
  shows "text_value p (a @ c # b) =
    (if occurs p a then Some (value_after (a @ c # b) (the (find_sub p a))) else text_value p b)"
proof -
  have "drop (Suc (length a + i)) (a @ c # b) = drop i b" for i by (simp add: drop_Cons')
  then have "value_after (a @ c # b) (Suc (length a + i)) = value_after b i" for i
    by (simp only: value_after_def)
  then show ?thesis
    using find_sub_before_stop [OF assms, of a b]
    by (cases "find_sub p a"; cases "find_sub p b") (auto simp: text_value_def occurs_def)
qed

lemma find_sub_bound: "find_sub p a = Some i \<Longrightarrow> i \<le> length a"
  using find_sub_Some [of p a i] by simp

lemma value_after_name:
  assumes "CHR ''='' \<notin> set a" "i \<le> length a"
  shows "value_after (a @ CHR ''='' # b) i = Some (upto_amp b)"
proof -
  have "CHR ''='' \<notin> set (drop i a)" using assms(1) by (auto dest: in_set_dropD)
  from split_at_char(2) [OF this, of b] assms(2) show ?thesis by (simp add: value_after_def)
qed

text \<open>The reference: a scan over the parameters.\<close>

fun http_lookup :: "string \<Rightarrow> (string \<times> string) list \<Rightarrow> string option option" where
  "http_lookup p [] = None"
| "http_lookup p ((k, v) # kvs) =
     (if occurs p k then Some (Some v)
      else if occurs p v then Some (case kvs of [] \<Rightarrow> None | (_, w) # _ \<Rightarrow> Some w)
      else http_lookup p kvs)"

lemma text_value_last:
  assumes "CHR ''='' \<notin> set v"
  shows "text_value p v = (if occurs p v then Some None else None)"
proof -
  have "CHR ''='' \<notin> set (drop i v)" for i using assms by (auto dest: in_set_dropD)
  then show ?thesis by (cases "find_sub p v") (simp_all add: text_value_def occurs_def value_after_def)
qed

lemma text_value_render:
  assumes "plain p" "p \<noteq> []" "plain_params kvs"
  shows "text_value p (render_query kvs) = http_lookup p kvs"
  using assms(3)
proof (induction kvs rule: render_query.induct)
  case 1
  then show ?case using assms(2) by (simp add: text_value_def)
next
  case (2 k v)
  then have kv: "plain k" "plain v" by (auto simp: plain_params_def)
  then have "value_after (k @ CHR ''='' # v) i = Some v" if "i \<le> length k" for i
    using value_after_name [of k i v] that by (simp add: plain_def upto_amp_plain)
  then show ?case
    using assms(1,2) kv text_value_stop [of "CHR ''=''" p k v] text_value_last [of v p] find_sub_bound [of p k]
    by (auto simp: plain_def occurs_def)
next
  case (3 k v kv kvs)
  have kv: "plain k" "plain v" and rest: "plain_params (kv # kvs)"
    using "3.prems" by (auto simp: plain_params_def)
  obtain k2 w r where r: "kv = (k2, w)" "render_query (kv # kvs) = k2 @ CHR ''='' # r" "upto_amp r = w"
    using rest by (cases kv; cases kvs) (auto simp: plain_params_def upto_amp_plain)
  have name: "value_after (k @ CHR ''='' # v @ CHR ''&'' # render_query (kv # kvs)) i = Some v"
    if "i \<le> length k" for i
    using value_after_name [of k i "v @ CHR ''&'' # render_query (kv # kvs)"] that kv
    by (simp add: plain_def upto_amp_plain)
  have val: "value_after (v @ CHR ''&'' # render_query (kv # kvs)) i = Some w" if "i \<le> length v" for i
  proof -
    have "CHR ''='' \<notin> set (v @ CHR ''&'' # k2)" using kv rest r(1) by (auto simp: plain_def plain_params_def)
    from value_after_name [OF this, of i r] that r(2,3) show ?thesis by simp
  qed
  have "text_value p (render_query ((k, v) # kv # kvs)) =
      (if occurs p k then Some (Some v)
       else if occurs p v then Some (Some w) else text_value p (render_query (kv # kvs)))"
    using assms(1,2) name val find_sub_bound [of p k] find_sub_bound [of p v]
      text_value_stop [of "CHR ''=''" p k] text_value_stop [of "CHR ''&''" p v]
    by (auto simp: plain_def occurs_def)
  with "3.IH" [OF rest] r(1) show ?case by simp
qed

section \<open>Properties\<close>

text \<open>
  C22. on a query string built from parameters without \<open>=\<close> and \<open>&\<close>, the metadata
  server's parser finds the value of the first parameter whose name ends with the name
  asked for, reports 1 and leaves the out-parameter alone when there is none, and never
  throws.
\<close>

theorem getQueryParam_render:
  assumes "plain p" and "plain_params kvs" and "short (render_query kvs)"
  shows "getQueryParam (render_query kvs) p v =
    Inr (case find (\<lambda>(k, w). suffix p k) kvs of None \<Rightarrow> (1, v) | Some (k, w) \<Rightarrow> (0, w))"
proof -
  have "CHR ''='' \<notin> set p" using assms(1) by (simp add: plain_def)
  then show ?thesis
    using getQueryParam_query_value [OF assms(3)] query_value_render [OF assms(1,2)]
    by (simp split: option.splits)
qed

theorem getQueryParam_render_witness:
  "getQueryParam ''user_id=bob&max_hashes=7'' ''max_hashes'' [] = Inr (0, ''7'')"
  using getQueryParam_render [of "''max_hashes''" "[(''user_id'', ''bob''), (''max_hashes'', ''7'')]" "[]"]
  by (simp add: plain_def plain_params_def suffix_def)

text \<open>
  C21. On a query string built from plain parameters, \<open>HttpHelper::getQueryParam\<close> scans the
  parameters in order: it delivers the value of the first one whose name contains the name asked
  for, but when an earlier value contains it, the value of the parameter after that one, or the
  start of the string when there is none; it never throws.
\<close>

theorem HttpHelper_getQueryParam_render:
  assumes "plain p" "p \<noteq> []" "plain_params kvs" "short (render_query kvs)"
  shows "HttpHelper_getQueryParam (render_query kvs) p v =
    Inr (case http_lookup p kvs of
           None \<Rightarrow> (1, v)
         | Some None \<Rightarrow> (0, upto_amp (render_query kvs))
         | Some (Some w) \<Rightarrow> (0, w))"
  using HttpHelper_text [OF assms(4)] text_value_render [OF assms(1-3)] by simp

theorem HttpHelper_getQueryParam_render_witness:
  "HttpHelper_getQueryParam ''hash=ab&superuser=eve&user=bob'' ''user'' [] = Inr (0, ''eve'')"
  using HttpHelper_getQueryParam_render
    [of "''user''" "[(''hash'', ''ab''), (''superuser'', ''eve''), (''user'', ''bob'')]" "[]"]
  by (simp add: plain_def plain_params_def occurs_def)

end
