(* ===== verification/Fcgi_Util.thy ===== *)
theory Fcgi_Util
  imports Jsoncpp Query_String
begin

text \<open>
  \<open>metadata/src/fcgi_util.hpp\<close> and \<open>fcgi_util.cc\<close>: the canned responses, the
  conversions between string vectors and JSON arrays, and \<open>intToStr\<close>. The query-string
  parser of the same file is in \<open>Query_String\<close>, \<open>gstdin\<close>, which the workers repeat, in
  \<open>Fcgi_Worker\<close>.
\<close>

section \<open>Responses\<close>

definition crlf :: string where
  "crlf = [CHR 0x0D, CHR 0x0A]"

definition STDIN_MAX :: nat where
  "STDIN_MAX = 10000000"

definition outputErrorMessage :: string where
  "outputErrorMessage =
     ''Status: 400'' @ crlf @ ''Content-type: text/html'' @ crlf @ crlf @
     ''<html><p>400 INVALID INPUT</p></html>'' @ crlf"

definition outputNoEntryMessage :: string where
  "outputNoEntryMessage =
     ''Status: 400'' @ crlf @ ''Content-type: text/html'' @ crlf @ crlf @
     ''<html><p>400 NO ENTRY FOR USER</p></html>'' @ crlf"

definition outputNormalMessage :: string where
  "outputNormalMessage = ''Content-type: application/json'' @ crlf @ crlf"

section \<open>Vectors and JSON arrays\<close>

text \<open>\<open>for (i = 0; i < size; i++) jsonVals[i] = stringVals[i];\<close>\<close>

fun stringToJson_from :: "'j jsoncpp \<Rightarrow> nat \<Rightarrow> string list \<Rightarrow> 'j \<Rightarrow> 'j exec" where
  "stringToJson_from J i [] v = Inr v"
| "stringToJson_from J i (s # ss) v =
     bind_exec (json_ok (j_set J v i (j_string J s))) (stringToJson_from J (Suc i) ss)"

definition stringToJson :: "'j jsoncpp \<Rightarrow> string list \<Rightarrow> 'j \<Rightarrow> 'j exec" where
  "stringToJson J ss v = stringToJson_from J 0 ss v"

text \<open>\<open>for (i = 0; i < jsonVals.size(); i++) stringVals.push_back(jsonVals[i].asString());\<close>\<close>

fun jsonToString_from :: "'j jsoncpp \<Rightarrow> 'j \<Rightarrow> nat list \<Rightarrow> string list \<Rightarrow> string list exec" where
  "jsonToString_from J v [] acc = Inr acc"
| "jsonToString_from J v (i # is) acc =
     bind_exec (json_ok (j_at J v i)) (\<lambda>w.
     bind_exec (json_ok (j_as_string J w)) (\<lambda>s.
     jsonToString_from J v is (acc @ [s])))"

definition jsonToString :: "'j jsoncpp \<Rightarrow> 'j \<Rightarrow> string list \<Rightarrow> string list exec" where
  "jsonToString J v acc = jsonToString_from J v [0..<j_size J v] acc"

definition intToStr :: "int \<Rightarrow> string" where
  "intToStr i = show_int i"

end
