(* ===== verification/Fcgi_Worker.thy ===== *)
theory Fcgi_Worker
  imports Fcgi_Util
begin

text \<open>
  The skeleton every FastCGI worker of the metadata server repeats in its own file: the
  function \<open>gstdin\<close>, which reads the request body, and the accept loop of \<open>main\<close>.
  The FastCGI library is not part of the repository; a request is the data it hands over.
\<close>

section \<open>Requests\<close>

text \<open>
  \<open>content_length\<close> and \<open>query_string\<close> are the environment variables of the request
  (null when unset), \<open>stdin_bytes\<close> the bytes its input stream delivers, and
  \<open>memory_after\<close> the bytes of memory that happen to follow the bytes read into the
  buffer: \<open>gstdin\<close> does not write a terminating NUL.
\<close>

record request =
  content_length :: "string option"
  query_string :: "string option"
  stdin_bytes :: string
  memory_after :: string

text \<open>
  \<open>gstdin\<close> returns the content pointer (null, or the bytes read) and the number of bytes.
  The \<open>long\<close> that \<open>strtol\<close> delivers becomes an \<open>unsigned long\<close>; an unparsable length
  counts as the maximum, and the maximum caps it.
\<close>

definition gstdin :: "nat \<Rightarrow> request \<Rightarrow> string option \<times> nat" where
  "gstdin stdin_max r =
     (case content_length r of
        None \<Rightarrow> (None, 0)
      | Some clenstr \<Rightarrow>
          (case strtol clenstr of (value, rest) \<Rightarrow>
             let clen = to_size value;
                 clen = (if rest \<noteq> [] then stdin_max else clen);
                 clen = (if stdin_max < clen then stdin_max else clen);
                 content = take clen (stdin_bytes r)
             in (Some content, length content)))"

section \<open>The accept loop\<close>

text \<open>
  \<open>serve handler s rs\<close>: the worker accepts the requests \<open>rs\<close> one after the other; the
  result is the responses it gave and the state after the last one, or the reason it died.
\<close>

fun serve :: "('s \<Rightarrow> 'r \<Rightarrow> ('s \<times> string) exec) \<Rightarrow> 's \<Rightarrow> 'r list \<Rightarrow> string list \<times> 's exec" where
  "serve handler s [] = ([], Inr s)"
| "serve handler s (r # rs) =
     (case handler s r of
        Inl e \<Rightarrow> ([], Inl e)
      | Inr (s', out) \<Rightarrow> (case serve handler s' rs of (outs, res) \<Rightarrow> (out # outs, res)))"

section \<open>Facts about them\<close>

lemma gstdin_missing_length: "content_length r = None \<Longrightarrow> gstdin n r = (None, 0)"
  by (simp add: gstdin_def)

lemma gstdin_bounds:
  "gstdin n r = (p, l) \<Longrightarrow> l \<le> n \<and> l \<le> length (stdin_bytes r) \<and> (p = None \<longrightarrow> l = 0) \<and>
    (\<forall>b. p = Some b \<longrightarrow> l = length b \<and> prefix b (stdin_bytes r))"
  by (auto simp: gstdin_def Let_def take_is_prefix split: option.splits prod.splits if_splits)

lemma gstdin_exact:
  assumes "content_length r = Some (show_int (int l))" "l \<le> n" "l < 2 ^ 63"
  shows "gstdin n r = (Some (take l (stdin_bytes r)), min l (length (stdin_bytes r)))"
proof -
  have "int l < 2 ^ 63" using assms(3) by (metis of_nat_less_iff of_nat_numeral of_nat_power)
  then have "strtol (show_int (int l)) = (int l, [])" by (intro strtol_show_int) auto
  moreover have "to_size (int l) = l" using assms(3) by (intro to_size_nat_small) simp
  ultimately show ?thesis using assms(1,2) by (simp add: gstdin_def Let_def min.commute)
qed

lemma serve_append:
  "serve h s (rs @ qs) =
    (case serve h s rs of
       (outs, Inl e) \<Rightarrow> (outs, Inl e)
     | (outs, Inr s') \<Rightarrow> (case serve h s' qs of (outs', res) \<Rightarrow> (outs @ outs', res)))"
  by (induction rs arbitrary: s) (auto split: sum.splits prod.splits)

text \<open>An invariant of the handler is an invariant of the worker.\<close>

lemma serve_invariant:
  assumes "\<And>s r s' out. P s \<Longrightarrow> h s r = Inr (s', out) \<Longrightarrow> P s'" "P s"
    and "serve h s rs = (outs, Inr s')"
  shows "P s'"
  using assms(2,3)
proof (induction rs arbitrary: s outs)
  case (Cons r rs)
  then obtain s1 out outs' where "h s r = Inr (s1, out)" "serve h s1 rs = (outs', Inr s')"
    by (auto split: sum.splits prod.splits)
  with Cons.IH [of s1] assms(1) Cons.prems(1) show ?case by blast
qed simp

lemma serve_answers: "serve h s rs = (outs, Inr s') \<Longrightarrow> length outs = length rs"
  by (induction rs arbitrary: s outs) (auto split: sum.splits prod.splits)

end
