(* ===== verification/Local_Message.thy ===== *)
theory Local_Message
  imports Cstring
begin

text \<open>
  The message transport of \<open>blockcache/http_helper.cpp\<close>: a message is a buffer of
  \<open>MSG_SIZE\<close> bytes that starts with the length of the data as a 4-byte integer. The
  buffer is sent in pieces of \<open>PACKET_SIZE\<close> bytes and received in whatever pieces the
  network delivers. The sockets are an interface; the locales \<open>sending\<close> and
  \<open>receiving\<close> state what the two ends of a blocking stream socket promise.
\<close>

section \<open>Buffers\<close>

definition MSG_SIZE :: nat where "MSG_SIZE = 5000000"
definition PACKET_SIZE :: nat where "PACKET_SIZE = 60000"

text \<open>The 4 bytes of an \<open>int\<close> in memory, least significant first.\<close>

definition int_bytes :: "32 word \<Rightarrow> string" where
  "int_bytes n = map (\<lambda>i. char_of (drop_bit (8 * i) (unat n) :: nat)) [0, 1, 2, 3]"

fun bytes_nat :: "string \<Rightarrow> nat" where
  "bytes_nat [] = 0"
| "bytes_nat (c # cs) = of_char c + 256 * bytes_nat cs"

definition bytes_int :: "string \<Rightarrow> int" where
  "bytes_int b = sint (word_of_nat (bytes_nat (take 4 b)) :: 32 word)"

text \<open>
  \<open>createBuffer\<close> and \<open>extractBuffer\<close> trust the length: \<open>memcpy\<close> runs past the
  buffer of \<open>MSG_SIZE\<close> bytes when it is negative (a huge \<open>size_t\<close>) or too large.
\<close>

definition createBuffer :: "string \<Rightarrow> int \<Rightarrow> string exec" where
  "createBuffer data dataSize =
     (if dataSize < 0 \<or> int MSG_SIZE < 4 + dataSize then Inl Buffer_Overflow
      else Inr (int_bytes (word_of_int dataSize) @ take (nat dataSize) data @
                replicate (MSG_SIZE - 4 - nat dataSize) nul))"

definition extractBuffer :: "string \<Rightarrow> (string \<times> int) exec" where
  "extractBuffer buffer =
     (let dataSize = bytes_int buffer
      in if dataSize < 0 \<or> int MSG_SIZE < 4 + dataSize then Inl Buffer_Overflow
         else Inr (take (nat dataSize) (drop 4 buffer), dataSize))"

lemma sizes [simp]:
  "0 < PACKET_SIZE" "0 < MSG_SIZE" "4 \<le> MSG_SIZE" "MSG_SIZE < 2 ^ 31" "PACKET_SIZE \<le> MSG_SIZE"
  by (simp_all add: MSG_SIZE_def PACKET_SIZE_def)

lemma length_int_bytes [simp]: "length (int_bytes n) = 4"
  by (simp add: int_bytes_def)

lemma base_256: "(m :: nat) mod 256 + 256 * (m div 256) = m"
  by simp

lemma bytes_nat_int_bytes: "bytes_nat (int_bytes n) = unat n"
proof -
  let ?m = "unat n"
  have "?m < 2 ^ 32" using unsigned_less [of n] by simp
  then have "?m div 2 ^ 24 mod 256 = ?m div 2 ^ 24" by simp
  then have top: "?m div 2 ^ 24 mod 256 = ?m div 2 ^ 16 div 256"
    by (simp add: div_mult2_eq [symmetric])
  have mid: "?m div 2 ^ 16 = ?m div 2 ^ 8 div 256"
    by (simp add: div_mult2_eq [symmetric])
  have "bytes_nat (int_bytes n) = ?m mod 256 + 256 * (?m div 2 ^ 8 mod 256 +
      256 * (?m div 2 ^ 16 mod 256 + 256 * (?m div 2 ^ 24 mod 256)))"
    by (simp add: int_bytes_def drop_bit_eq_div of_char_of)
  also have "\<dots> = ?m mod 256 + 256 * (?m div 2 ^ 8 mod 256 + 256 * (?m div 2 ^ 16))"
    by (simp only: top base_256)
  also have "\<dots> = ?m"
    by (simp only: mid base_256) (simp add: base_256)
  finally show ?thesis .
qed

lemma bytes_int_int_bytes: "bytes_int (int_bytes n @ r) = sint n"
  by (simp add: bytes_int_def bytes_nat_int_bytes)

section \<open>Sockets\<close>

text \<open>
  The calls the system makes on a socket. \<open>s_recv\<close> delivers the bytes received (none when
  the peer has closed the connection), or \<open>None\<close> on an error.
\<close>

record 'n sockets =
  s_socket :: "'n \<Rightarrow> 'n \<times> bool"
  s_resolve :: "'n \<Rightarrow> bool"                       \<comment> \<open>is \<open>gethostbyname\<close> non-null?\<close>
  s_connect :: "'n \<Rightarrow> 32 word \<Rightarrow> nat \<Rightarrow> 'n \<times> bool"
  s_send :: "'n \<Rightarrow> string \<Rightarrow> 'n \<times> int"
  s_recv :: "'n \<Rightarrow> nat \<Rightarrow> 'n \<times> string option"
  s_close :: "'n \<Rightarrow> 'n"

text \<open>
  The sending loop of \<open>sendLocalMsg\<close>, which stops at an error, and the one of
  \<open>leveldb_server.cpp\<close>, which carries on. Both take the next piece after sending one,
  whatever the number of bytes \<open>send\<close> accepted.
\<close>

function send_loop :: "'n sockets \<Rightarrow> bool \<Rightarrow> 'n \<Rightarrow> string \<Rightarrow> int \<Rightarrow> 'n \<times> bool" where
  "send_loop N stop s bufferPtr bytesLeft =
     (if bytesLeft \<le> 0 then (s, True)
      else
        let sendSize = (if bytesLeft < int PACKET_SIZE then bytesLeft else int PACKET_SIZE)
        in case s_send N s (take (nat sendSize) bufferPtr) of (s', k) \<Rightarrow>
             if k < 0 \<and> stop then (s', False)
             else send_loop N stop s' (drop PACKET_SIZE bufferPtr) (bytesLeft - int PACKET_SIZE))"
  by pat_completeness auto
termination
  by (relation "measure (\<lambda>(N, stop, s, p, b). nat b)") (auto simp: PACKET_SIZE_def)

text \<open>
  The receiving loops: every call may deliver up to \<open>PACKET_SIZE\<close> bytes, also when less
  room is left in the buffer.
\<close>

function recv_loop :: "'n sockets \<Rightarrow> 'n \<Rightarrow> string \<Rightarrow> ('n \<times> string) exec" where
  "recv_loop N s rcvd =
     (if MSG_SIZE \<le> length rcvd then Inr (s, rcvd)
      else case s_recv N s PACKET_SIZE of
          (s', None) \<Rightarrow> Inr (s', rcvd)
        | (s', Some b) \<Rightarrow>
            if b = [] then Inr (s', rcvd)
            else if MSG_SIZE < length rcvd + length b then Inl Buffer_Overflow
            else recv_loop N s' (rcvd @ b))"
  by pat_completeness auto
termination
  by (relation "measure (\<lambda>(N, s, rcvd). MSG_SIZE - length rcvd)") (auto simp flip: length_greater_0_conv)

declare send_loop.simps [simp del] recv_loop.simps [simp del]

text \<open>The receive buffer: what arrived, in a buffer that was zeroed before.\<close>

definition receive_buffer :: "string \<Rightarrow> string" where
  "receive_buffer rcvd = rcvd @ replicate (MSG_SIZE - length rcvd) nul"

text \<open>
  \<open>inet_pton\<close> is handed the four raw bytes of the address instead of its text; it refuses
  them, so the address stays the zeroed one, \<open>0.0.0.0\<close>.
\<close>

definition local_address :: "32 word" where
  "local_address = 0"

definition sendLocalMsg ::
  "'n sockets \<Rightarrow> 'n \<Rightarrow> string \<Rightarrow> string \<Rightarrow> nat \<Rightarrow> bool \<Rightarrow> ('n \<times> int \<times> string) exec" where
  "sendLocalMsg N s msg resp portno getResp =
     (case s_socket N s of (s, sock) \<Rightarrow>
      if \<not> sock then Inl Exit_Called
      else if \<not> s_resolve N s then Inl Exit_Called
      else case s_connect N s local_address portno of (s, connected) \<Rightarrow>
      if \<not> connected then Inl Exit_Called
      else
        bind_exec (createBuffer msg (to_int (int (length msg)))) (\<lambda>buffer.
        case send_loop N True s buffer (int MSG_SIZE) of (s, sent) \<Rightarrow>
        if \<not> sent then Inr (s, 1, resp)
        else if \<not> getResp then Inr (s_close N s, 0, resp)
        else
          bind_exec (recv_loop N s []) (\<lambda>(s, rcvd).
          bind_exec (extractBuffer (receive_buffer rcvd)) (\<lambda>(data, _).
          Inr (s_close N s, 0, data)))))"

section \<open>Framing\<close>

text \<open>A message that fits is framed as exactly \<open>MSG_SIZE\<close> bytes, from which it is read back.\<close>

definition fits :: "string \<Rightarrow> bool" where
  "fits msg \<longleftrightarrow> length msg + 4 \<le> MSG_SIZE"

definition framed :: "string \<Rightarrow> string" where
  "framed msg = int_bytes (word_of_nat (length msg)) @ msg @ replicate (MSG_SIZE - 4 - length msg) nul"

lemma fits_small: "fits msg \<Longrightarrow> to_int (int (length msg)) = int (length msg)"
  by (simp add: fits_def MSG_SIZE_def)

lemma length_framed [simp]: "fits msg \<Longrightarrow> length (framed msg) = MSG_SIZE"
  by (simp add: framed_def fits_def)

lemma createBuffer_fits: "fits msg \<Longrightarrow> createBuffer msg (to_int (int (length msg))) = Inr (framed msg)"
  unfolding fits_small by (simp add: createBuffer_def framed_def fits_def)

lemma createBuffer_too_long:
  assumes "\<not> fits msg" "length msg < 2 ^ 31"
  shows "createBuffer msg (to_int (int (length msg))) = Inl Buffer_Overflow"
  using assms by (simp add: createBuffer_def fits_def)

lemma extractBuffer_framed:
  assumes "fits msg"
  shows "extractBuffer (framed msg) = Inr (msg, int (length msg))"
proof -
  have "bytes_int (framed msg) = sint (word_of_nat (length msg) :: 32 word)"
    by (simp add: framed_def bytes_int_int_bytes)
  also have "\<dots> = int (length msg)"
    using assms by (simp add: fits_def MSG_SIZE_def signed_of_nat signed_take_bit_int_eq_self)
  finally show ?thesis
    using assms by (simp add: extractBuffer_def framed_def fits_def)
qed

lemma receive_buffer_full [simp]: "length b = MSG_SIZE \<Longrightarrow> receive_buffer b = b"
  by (simp add: receive_buffer_def)

section \<open>What a blocking stream socket promises\<close>

text \<open>
  \<open>sending\<close>: on a connection that stays up \<open>send\<close> accepts all bytes; \<open>push s b\<close> is the
  state after sending \<open>b\<close>. \<open>receiving\<close>: \<open>recv\<close> delivers some non-empty piece of the bytes
  under way, \<open>inq s\<close>, or nothing when the peer has closed and all are read; it leaves the
  rest of the world, \<open>rest s\<close>, alone.
\<close>

locale sending =
  fixes N :: "'n sockets"
    and push :: "'n \<Rightarrow> string \<Rightarrow> 'n"
  assumes send_all: "s_send N s b = (push s b, int (length b))"
    and push_append: "push (push s a) b = push s (a @ b)"
    and push_nil: "push s [] = s"
begin

lemma send_loop_all: "length p = n \<Longrightarrow> send_loop N stop s p (int n) = (push s p, True)"
proof (induction n arbitrary: s p rule: less_induct)
  case (less n)
  show ?case
  proof (cases "p = []")
    case True
    with less.prems show ?thesis by (simp add: send_loop.simps push_nil)
  next
    case False
    let ?a = "take PACKET_SIZE p" and ?r = "drop PACKET_SIZE p"
    have a: "take (nat (if int n < int PACKET_SIZE then int n else int PACKET_SIZE)) p = ?a"
      using less.prems by simp
    have step: "send_loop N stop s p (int n) = send_loop N stop (push s ?a) ?r (int n - int PACKET_SIZE)"
      unfolding send_loop.simps [of N stop s p "int n"]
      using False less.prems a by (auto simp: send_all Let_def)
    show ?thesis
    proof (cases "n \<le> PACKET_SIZE")
      case True
      then have "send_loop N stop (push s ?a) ?r (int n - int PACKET_SIZE) = (push s ?a, True)"
        by (subst send_loop.simps) simp
      with True less.prems step show ?thesis by simp
    next
      case big: False
      then have "int n - int PACKET_SIZE = int (n - PACKET_SIZE)" by (simp add: of_nat_diff)
      moreover have "send_loop N stop (push s ?a) ?r (int (n - PACKET_SIZE)) = (push (push s ?a) ?r, True)"
        by (rule less.IH) (use big less.prems in auto)
      ultimately show ?thesis unfolding step by (simp only: push_append append_take_drop_id)
    qed
  qed
qed

end

locale receiving =
  fixes N :: "'n sockets"
    and inq :: "'n \<Rightarrow> string"
    and rest :: "'n \<Rightarrow> 'w"
  assumes recv_some: "0 < n \<Longrightarrow> \<exists>s' b. s_recv N s n = (s', Some b) \<and> length b \<le> n \<and>
      inq s = b @ inq s' \<and> (inq s = [] \<or> b \<noteq> []) \<and> rest s' = rest s"
begin

text \<open>
  However the network cuts the stream into pieces, a stream that fits the buffer is
  received whole.
\<close>

lemma recv_loop_all:
  assumes "length rcvd + length (inq s) \<le> MSG_SIZE"
  shows "\<exists>s'. recv_loop N s rcvd = Inr (s', rcvd @ inq s) \<and> inq s' = [] \<and> rest s' = rest s"
  using assms
proof (induction "length (inq s)" arbitrary: s rcvd rule: less_induct)
  case less
  show ?case
  proof (cases "MSG_SIZE \<le> length rcvd")
    case True
    moreover from this less.prems have "length (inq s) = 0" by linarith
    ultimately show ?thesis by (simp add: recv_loop.simps)
  next
    case False
    obtain s1 b where r: "s_recv N s PACKET_SIZE = (s1, Some b)" "inq s = b @ inq s1"
      "inq s = [] \<or> b \<noteq> []" "rest s1 = rest s"
      using recv_some [of PACKET_SIZE s] by auto
    show ?thesis
    proof (cases "b = []")
      case True
      with r False show ?thesis by (simp add: recv_loop.simps)
    next
      case b: False
      then have "length (inq s1) < length (inq s)" "length (rcvd @ b) + length (inq s1) \<le> MSG_SIZE"
        using r(2) less.prems by auto
      from less.hyps [OF this] r b False less.prems show ?thesis
        by (subst recv_loop.simps) (auto simp: r(2))
    qed
  qed
qed

lemma receives_framed:
  assumes "fits msg" "inq s = framed msg"
  shows "\<exists>s'. recv_loop N s [] = Inr (s', framed msg) \<and> rest s' = rest s \<and>
    extractBuffer (receive_buffer (framed msg)) = Inr (msg, int (length msg))"
  using recv_loop_all [of "[]" s] assms by (auto simp: extractBuffer_framed)

end

section \<open>A pipe\<close>

text \<open>
  The two directions of a connection as seen by one end, with the sizes of the pieces in
  which the bytes will arrive.
\<close>

record pipe =
  p_in :: string
  p_out :: string
  p_pieces :: "nat list"

definition pipe_recv :: "pipe \<Rightarrow> nat \<Rightarrow> pipe \<times> string option" where
  "pipe_recv s n =
     (let k = (case p_pieces s of [] \<Rightarrow> n | m # _ \<Rightarrow> min n (Suc m))
      in (s\<lparr>p_in := drop k (p_in s), p_pieces := tl (p_pieces s)\<rparr>, Some (take k (p_in s))))"

definition pipe_push :: "pipe \<Rightarrow> string \<Rightarrow> pipe" where
  "pipe_push s b = s\<lparr>p_out := p_out s @ b\<rparr>"

definition pipe_sockets :: "pipe sockets" where
  "pipe_sockets = \<lparr>
     s_socket = (\<lambda>s. (s, True)), s_resolve = (\<lambda>s. True), s_connect = (\<lambda>s a p. (s, True)),
     s_send = (\<lambda>s b. (pipe_push s b, int (length b))), s_recv = pipe_recv, s_close = (\<lambda>s. s)\<rparr>"

interpretation pipe_out: sending pipe_sockets pipe_push
  by unfold_locales (auto simp: pipe_sockets_def pipe_push_def)

interpretation pipe_in: receiving pipe_sockets p_in p_out
proof
  fix n :: nat and s
  assume "0 < n"
  then show "\<exists>s' b. s_recv pipe_sockets s n = (s', Some b) \<and> length b \<le> n \<and>
      p_in s = b @ p_in s' \<and> (p_in s = [] \<or> b \<noteq> []) \<and> p_out s' = p_out s"
    by (auto simp: pipe_sockets_def pipe_recv_def Let_def split: list.splits)
qed

end
