(* ===== verification/Leveldb.thy ===== *)
theory Leveldb
  imports Cstring "HOL-Library.List_Lexorder" "HOL-Library.Char_ord"
begin

text \<open>
  LevelDB, the key-value library under the block store and the cache, which is not part
  of the repository: the calls the system makes are the fields of a record, the
  documented behaviour is the locale \<open>leveldb\<close>.
\<close>

text \<open>
  \<open>l_open\<close>: \<open>DB::Open\<close> with the flag \<open>create_if_missing\<close>. \<open>l_get\<close> delivers \<open>None\<close> for any status
  that is not ok. \<open>l_seek d k\<close>: the entries a new iterator walks through from the first
  key that is not before \<open>k\<close>.
\<close>

record 'd leveldb =
  l_open :: "'d \<Rightarrow> bool \<Rightarrow> 'd \<times> bool"
  l_put :: "'d \<Rightarrow> string \<Rightarrow> string \<Rightarrow> 'd \<times> bool"
  l_get :: "'d \<Rightarrow> string \<Rightarrow> 'd \<times> string option"
  l_seek :: "'d \<Rightarrow> string \<Rightarrow> (string \<times> string) list"
  l_close :: "'d \<Rightarrow> 'd"

locale leveldb =
  fixes L :: "'d leveldb"
    and store :: "'d \<Rightarrow> string \<rightharpoonup> string"
    and usable :: "'d \<Rightarrow> bool"
  assumes open_store: "l_open L d create = (d', ok) \<Longrightarrow> store d' = store d \<and> (ok \<longrightarrow> usable d')"
    and put_ok: "l_put L d k v = (d', True) \<Longrightarrow> store d' = (store d)(k \<mapsto> v)"
    and put_failed: "l_put L d k v = (d', False) \<Longrightarrow> store d' = store d"
    and get_store: "l_get L d k = (d', r) \<Longrightarrow> store d' = store d"
    and get_found: "l_get L d k = (d', Some v) \<Longrightarrow> store d k = Some v"
    and close_store: "store (l_close L d) = store d"
    and usable_put: "usable d \<Longrightarrow> usable (fst (l_put L d k v))"
    and usable_get: "usable d \<Longrightarrow> usable (fst (l_get L d k))"
    and seek_first: "usable d \<Longrightarrow> store d k = Some v \<Longrightarrow>
           \<exists>es. l_seek L d k = (k, v) # es \<and> (\<forall>e \<in> set es. fst e \<noteq> k)"
    and seek_absent: "usable d \<Longrightarrow> store d k = None \<Longrightarrow> \<forall>e \<in> set (l_seek L d k). fst e \<noteq> k"

text \<open>A database without input/output errors.\<close>

locale healthy_leveldb = leveldb +
  assumes put_succeeds: "usable d \<Longrightarrow> snd (l_put L d k v)"
    and get_succeeds: "usable d \<Longrightarrow> snd (l_get L d k) = store d k"
begin

lemma put_step: "usable d \<Longrightarrow> \<exists>d'. l_put L d k v = (d', True) \<and> usable d' \<and> store d' = (store d)(k \<mapsto> v)"
  using put_succeeds [of d k v] usable_put [of d k v] put_ok [of d k v]
  by (cases "l_put L d k v") auto

lemma get_step: "usable d \<Longrightarrow> \<exists>d'. l_get L d k = (d', store d k) \<and> usable d' \<and> store d' = store d"
  using get_succeeds [of d k] usable_get [of d k] get_store [of d k]
  by (cases "l_get L d k") auto

end

text \<open>
  A database whose lock another process holds only for a while: \<open>tries d\<close> bounds the number
  of attempts to open it that still fail.
\<close>

locale lockable_leveldb = healthy_leveldb +
  fixes tries :: "'a \<Rightarrow> nat"
  assumes open_progress: "l_open L d create = (d', False) \<Longrightarrow> tries d' < tries d"

section \<open>A database in memory\<close>

text \<open>
  The log of the entries written, latest first, and the number of times opening will still
  fail, as it does while another process holds the lock.
\<close>

record ref_db =
  entries :: "(string \<times> string) list"
  busy :: nat
  opened :: bool

definition ref_store :: "ref_db \<Rightarrow> string \<rightharpoonup> string" where
  "ref_store d = map_of (entries d)"

definition ref_seek :: "ref_db \<Rightarrow> string \<Rightarrow> (string \<times> string) list" where
  "ref_seek d k = map (\<lambda>k'. (k', the (ref_store d k')))
     (filter (\<lambda>k'. k \<le> k') (sort (remdups (map fst (entries d)))))"

definition ref_leveldb :: "ref_db leveldb" where
  "ref_leveldb = \<lparr>
     l_open = (\<lambda>d create. case busy d of
         0 \<Rightarrow> (d\<lparr>opened := True\<rparr>, True)
       | Suc n \<Rightarrow> (d\<lparr>busy := n\<rparr>, False)),
     l_put = (\<lambda>d k v. (d\<lparr>entries := (k, v) # entries d\<rparr>, True)),
     l_get = (\<lambda>d k. (d, ref_store d k)),
     l_seek = ref_seek,
     l_close = (\<lambda>d. d\<lparr>opened := False\<rparr>)\<rparr>"

lemma ref_seek_least:
  assumes "ref_store d k = Some v"
  shows "\<exists>es. ref_seek d k = (k, v) # es \<and> (\<forall>e \<in> set es. fst e \<noteq> k)"
proof -
  let ?ks = "filter (\<lambda>k'. k \<le> k') (sort (remdups (map fst (entries d))))"
  have "k \<in> set ?ks"
    using assms by (force simp: ref_store_def dest: map_of_SomeD)
  then obtain x xs where ks: "?ks = x # xs" by (cases ?ks) auto
  have "sorted ?ks" "distinct ?ks" by (simp_all add: sorted_wrt_filter)
  then have "\<forall>y \<in> set xs. x \<le> y" "x \<notin> set xs" unfolding ks by auto
  moreover have "x \<in> set ?ks" unfolding ks by simp
  then have "k \<le> x" by simp
  ultimately have "x = k" "k \<notin> set xs" using \<open>k \<in> set ?ks\<close> unfolding ks by auto
  then show ?thesis using ks assms by (auto simp: ref_seek_def)
qed

interpretation ref_kv: lockable_leveldb ref_leveldb ref_store opened busy
  by unfold_locales
    (auto simp: ref_leveldb_def ref_store_def ref_seek_least split: nat.splits if_splits
      simp flip: ref_store_def, auto simp: ref_seek_def ref_store_def image_iff map_of_eq_None_iff)

end
