(* ===== verification/Leveldb_Server.thy ===== *)
theory Leveldb_Server
  imports Local_Message Leveldb
begin

text \<open>
  \<open>blockcache/leveldb_server.cpp\<close>, the process of a cache machine that owns the LevelDB
  database: it parses a textual command out of every connection, carries it out and
  answers. The state is the database \<open>d\<close> and the flag \<open>h\<close>: is the global pointer \<open>db\<close>
  non-null?
\<close>

section \<open>The database calls\<close>

definition create_db :: "'d leveldb \<Rightarrow> 'd \<Rightarrow> 'd \<times> bool" where
  "create_db D d = l_open D d True"

definition db_put :: "'d leveldb \<Rightarrow> bool \<Rightarrow> 'd \<Rightarrow> string \<Rightarrow> string \<Rightarrow> ('d \<times> bool) exec" where
  "db_put D h d key value = (if \<not> h then Inl Null_Pointer else Inr (l_put D d key value))"

definition db_get :: "'d leveldb \<Rightarrow> bool \<Rightarrow> 'd \<Rightarrow> string \<Rightarrow> string \<Rightarrow> ('d \<times> bool \<times> string) exec" where
  "db_get D h d key value =
     (if \<not> h then Inl Null_Pointer
      else case l_get D d key of
          (d', None) \<Rightarrow> Inr (d', False, value)
        | (d', Some v) \<Rightarrow> Inr (d', True, v))"

text \<open>The loop of \<open>multi_get\<close> assigns the value of each entry of the key over the one before.\<close>

fun multi_get_loop :: "(string \<times> string) list \<Rightarrow> string \<Rightarrow> string \<Rightarrow> string" where
  "multi_get_loop ((k, v) # es) key value =
     (if k = key then multi_get_loop es key (v @ '':'') else value)"
| "multi_get_loop [] key value = value"

definition multi_get :: "'d leveldb \<Rightarrow> bool \<Rightarrow> 'd \<Rightarrow> string \<Rightarrow> string \<Rightarrow> ('d \<times> bool \<times> string) exec" where
  "multi_get D h d key value =
     (if \<not> h then Inl Null_Pointer
      else if l_seek D d key = [] then Inr (d, False, value)
      else Inr (d, True, multi_get_loop (l_seek D d key) key value))"

section \<open>Commands\<close>

datatype operation_type = OP_ERROR | OP_GET | OP_PUT | OP_MGET

record operation =
  op_type :: operation_type
  op_status :: bool
  op_key :: string
  op_value :: string

text \<open>
  \<open>std::getline\<close> with a comma: it fails on a stream that has nothing left, and leaves the
  rest after the comma.
\<close>

definition getline :: "string \<Rightarrow> (string \<times> string) option" where
  "getline s =
     (if s = [] then None
      else Some (takeWhile (\<lambda>c. c \<noteq> CHR '','') s, drop 1 (dropWhile (\<lambda>c. c \<noteq> CHR '','') s)))"

definition getline_or_empty :: "string \<Rightarrow> string" where
  "getline_or_empty s = (case getline s of None \<Rightarrow> [] | Some (t, _) \<Rightarrow> t)"

definition do_operation ::
  "'d leveldb \<Rightarrow> bool \<Rightarrow> 'd \<Rightarrow> string \<Rightarrow> operation \<Rightarrow> ('d \<times> bool \<times> operation) exec" where
  "do_operation D h d command operation =
     (case getline command of
        None \<Rightarrow> Inr (d, False, operation)
      | Some (action, ss) \<Rightarrow>
          let key = getline_or_empty ss in
          if action = ''put'' then
            let index = to_int (int (length action) + int (length key) + 2) in
            bind_exec (str_substr command (to_size index) npos) (\<lambda>value.
            bind_exec (db_put D h d key value) (\<lambda>(d', s).
            Inr (d', s, \<lparr>op_type = OP_PUT, op_status = s, op_key = key, op_value = value\<rparr>)))
          else if action = ''get'' then
            bind_exec (db_get D h d key []) (\<lambda>(d', s, value).
            Inr (d', s, \<lparr>op_type = OP_GET, op_status = s, op_key = key, op_value = value\<rparr>))
          else if action = ''mget'' then
            bind_exec (multi_get D h d key []) (\<lambda>(d', s, value).
            Inr (d', s, \<lparr>op_type = OP_MGET, op_status = s, op_key = key, op_value = value\<rparr>))
          else Inr (d, False, operation))"

section \<open>Connections\<close>

definition sendLevelDBMsg :: "'n sockets \<Rightarrow> 'n \<Rightarrow> string \<Rightarrow> 'n exec" where
  "sendLevelDBMsg N s msg =
     bind_exec (createBuffer msg (to_int (int (length msg)))) (\<lambda>buffer.
     Inr (fst (send_loop N False s buffer (int MSG_SIZE))))"

definition reply_text :: "bool \<Rightarrow> operation \<Rightarrow> string" where
  "reply_text success operation =
     (if success then
        (case op_type operation of
           OP_GET \<Rightarrow> op_value operation
         | OP_PUT \<Rightarrow> ''OK''
         | _ \<Rightarrow> ''Wrong action'')
      else ''Operation failed'')"

text \<open>
  The body of the server's loop for the connection \<open>s\<close> that was accepted; the fields of
  \<open>operation\<close> are whatever the stack held before.
\<close>

definition serve_connection ::
  "'n sockets \<Rightarrow> 'd leveldb \<Rightarrow> bool \<Rightarrow> operation \<Rightarrow> 'd \<Rightarrow> 'n \<Rightarrow> ('n \<times> 'd) exec" where
  "serve_connection N D h junk d s =
     bind_exec (recv_loop N s []) (\<lambda>(s, rcvd).
     bind_exec (extractBuffer (receive_buffer rcvd)) (\<lambda>(request, _).
     bind_exec (do_operation D h d request junk) (\<lambda>(d, success, operation).
     bind_exec (sendLevelDBMsg N s (reply_text success operation)) (\<lambda>s.
     Inr (s_close N s, d)))))"

fun serve_connections ::
  "'n sockets \<Rightarrow> 'd leveldb \<Rightarrow> bool \<Rightarrow> operation \<Rightarrow> 'd \<Rightarrow> 'n list \<Rightarrow> 'n list \<times> 'd exec" where
  "serve_connections N D h junk d [] = ([], Inr d)"
| "serve_connections N D h junk d (s # ss) =
     (case serve_connection N D h junk d s of
        Inl e \<Rightarrow> ([], Inl e)
      | Inr (s', d') \<Rightarrow> (case serve_connections N D h junk d' ss of (ts, r) \<Rightarrow> (s' # ts, r)))"

text \<open>
  \<open>run_mono_thread\<close>: open the database, listen (\<open>listening\<close>: did \<open>socket\<close>, \<open>bind\<close> and
  \<open>listen\<close> succeed?), then serve the connections \<open>ss\<close> as they are accepted.
\<close>

definition run_mono_thread ::
  "'n sockets \<Rightarrow> 'd leveldb \<Rightarrow> operation \<Rightarrow> bool \<Rightarrow> 'd \<Rightarrow> 'n list \<Rightarrow> 'n list \<times> 'd exec" where
  "run_mono_thread N D junk listening d ss =
     (case create_db D d of (d, h) \<Rightarrow>
        if \<not> listening then ([], Inl Exit_Called)
        else serve_connections N D h junk d ss)"

text \<open>\<open>main\<close>: the folder of the database is the first argument; without it the program returns -1.\<close>

definition leveldb_server_main ::
  "'n sockets \<Rightarrow> (string \<Rightarrow> 'd leveldb) \<Rightarrow> operation \<Rightarrow> bool \<Rightarrow> string list \<Rightarrow> 'd \<Rightarrow> 'n list \<Rightarrow>
   int + 'n list \<times> 'd exec" where
  "leveldb_server_main N DB junk listening args d ss =
     (case args of
        [] \<Rightarrow> Inl (- 1)
      | folder # _ \<Rightarrow> Inr (run_mono_thread N (DB folder) junk listening d ss))"

section \<open>What the commands do\<close>

text \<open>The commands as the client writes them.\<close>

definition put_command :: "string \<Rightarrow> string \<Rightarrow> string" where
  "put_command k v = ''put,'' @ k @ '','' @ v"

definition get_command :: "string \<Rightarrow> string" where
  "get_command k = ''get,'' @ k"

definition key_ok :: "string \<Rightarrow> bool" where
  "key_ok k \<longleftrightarrow> CHR '','' \<notin> set k"

lemma getline_field [simp]:
  assumes "CHR '','' \<notin> set a"
  shows "getline (a @ CHR '','' # r) = Some (a, r)"
proof -
  have a: "x \<noteq> CHR '',''" if "x \<in> set a" for x using assms that by blast
  have "takeWhile (\<lambda>c. c \<noteq> CHR '','') (a @ CHR '','' # r) = a"
    using a by (rule takeWhile_append_stop) simp_all
  moreover have "dropWhile (\<lambda>c. c \<noteq> CHR '','') (a @ CHR '','' # r) = CHR '','' # r"
    using a by (rule dropWhile_append_stop) simp_all
  ultimately show ?thesis by (simp add: getline_def)
qed

lemma getline_last:
  assumes "CHR '','' \<notin> set a" "a \<noteq> []"
  shows "getline a = Some (a, [])"
proof -
  have a: "x \<noteq> CHR '',''" if "x \<in> set a" for x using assms that by blast
  have "takeWhile (\<lambda>c. c \<noteq> CHR '','') a = a" by (rule takeWhile_all) (rule a)
  moreover have "dropWhile (\<lambda>c. c \<noteq> CHR '','') a = []" by (rule dropWhile_all) (rule a)
  ultimately show ?thesis using assms(2) by (simp only: getline_def) simp
qed

lemma getline_or_empty_field [simp]:
  "key_ok k \<Longrightarrow> getline_or_empty (k @ CHR '','' # r) = k"
  by (simp add: getline_or_empty_def key_ok_def)

lemma getline_or_empty_last [simp]: "key_ok k \<Longrightarrow> getline_or_empty k = k"
  using getline_last [of k] by (cases "k = []") (auto simp only: getline_or_empty_def key_ok_def getline_def
      option.case prod.case if_True not_False_eq_True refl)

lemma getline_commands [simp]:
  "getline (put_command k v) = Some (''put'', k @ CHR '','' # v)"
  "getline (get_command k) = Some (''get'', k)"
  using getline_field [of "''put''" "k @ CHR '','' # v"] getline_field [of "''get''" k]
  by (simp_all add: put_command_def get_command_def)

lemma do_operation_put:
  assumes "key_ok k" "length (put_command k v) < 2 ^ 31"
  shows "do_operation D True d (put_command k v) junk =
    (case l_put D d k v of (d', s) \<Rightarrow>
      Inr (d', s, \<lparr>op_type = OP_PUT, op_status = s, op_key = k, op_value = v\<rparr>))"
proof -
  have n: "to_int (5 + int (length k)) = int (5 + length k)"
    using assms(2) to_int_nat_small [of "5 + length k"] by (simp add: put_command_def)
  have "to_size (int (5 + length k)) = 5 + length k"
    using assms(2) by (intro to_size_nat_small) (simp add: put_command_def)
  moreover have "str_substr (put_command k v) (5 + length k) npos = Inr v"
  proof -
    have "put_command k v = (''put,'' @ k @ '','') @ v" "length (''put,'' @ k @ '','') = 5 + length k"
      by (simp_all add: put_command_def)
    then have "drop (5 + length k) (put_command k v) = v" by (metis append_eq_conv_conj)
    moreover have "length v \<le> npos" using assms(2) by (simp add: put_command_def npos_def)
    ultimately show ?thesis by (simp add: str_substr_def put_command_def)
  qed
  ultimately show ?thesis
    using assms(1) n by (simp add: do_operation_def db_put_def split: prod.splits)
qed

lemma do_operation_get:
  assumes "key_ok k"
  shows "do_operation D True d (get_command k) junk =
    (case l_get D d k of (d', r) \<Rightarrow>
      Inr (d', r \<noteq> None, \<lparr>op_type = OP_GET, op_status = (r \<noteq> None), op_key = k,
                            op_value = (case r of None \<Rightarrow> [] | Some v \<Rightarrow> v)\<rparr>))"
  using assms by (simp add: do_operation_def db_get_def split: prod.splits option.splits)

text \<open>A \<open>put\<close> with fewer than two commas kills the server.\<close>

lemma do_operation_put_malformed:
  assumes "key_ok k" "length k < 2 ^ 30"
  shows "do_operation D h d (''put,'' @ k) junk = Inl Out_Of_Range"
proof -
  have g: "getline (''put,'' @ k) = Some (''put'', k)"
    using getline_field [of "''put''" k] by simp
  have n: "to_int (5 + int (length k)) = int (5 + length k)"
    using assms(2) to_int_nat_small [of "5 + length k"] by simp
  have "to_size (int (5 + length k)) = 5 + length k"
    using assms(2) by (intro to_size_nat_small) simp
  then show ?thesis
    using assms(1) g n by (simp add: do_operation_def str_substr_def)
qed

end
