(* ===== verification/Leveldb_Helper.thy ===== *)
theory Leveldb_Helper
  imports Leveldb_Server
begin

text \<open>
  The class \<open>LevelDBHelper\<close> of \<open>blockcache/leveldb_helper.cc\<close>, the client of the
  LevelDB server: one message per operation. First what one connection does to the server,
  in the locale \<open>service\<close> over the laws of the sockets and of the database; then the
  helper, the contract \<open>block_cache\<close> its users rely on, and both processes on one machine.
\<close>

section \<open>One connection of the server\<close>

locale service =
  kv: healthy_leveldb L store usable +
  snd: sending N push +
  rcv: receiving N inq rest
  for L :: "'d leveldb" and store :: "'d \<Rightarrow> string \<rightharpoonup> string" and usable :: "'d \<Rightarrow> bool"
    and N :: "'n sockets" and push :: "'n \<Rightarrow> string \<Rightarrow> 'n"
    and inq :: "'n \<Rightarrow> string" and rest :: "'n \<Rightarrow> 'w"
begin

lemma sendLevelDBMsg_fits:
  assumes "fits msg"
  shows "sendLevelDBMsg N s msg = Inr (push s (framed msg))"
proof -
  have "send_loop N False s (framed msg) (int MSG_SIZE) = (push s (framed msg), True)"
    by (rule snd.send_loop_all) (simp add: assms)
  then show ?thesis using assms by (simp add: sendLevelDBMsg_def createBuffer_fits)
qed

lemma serve_message:
  assumes "fits msg" "inq s = framed msg"
    and "do_operation L h d msg junk = Inr (d', success, op)" "fits (reply_text success op)"
  shows "\<exists>s'. serve_connection N L h junk d s =
      Inr (s_close N (push s' (framed (reply_text success op))), d') \<and> rest s' = rest s"
  using rcv.receives_framed [OF assms(1,2)] assms
  by (auto simp: serve_connection_def sendLevelDBMsg_fits)

lemma serve_put:
  assumes "usable d" "key_ok k" "fits (put_command k v)" "inq s = framed (put_command k v)"
  shows "\<exists>s' d'. serve_connection N L True junk d s = Inr (s_close N (push s' (framed ''OK'')), d') \<and>
    rest s' = rest s \<and> usable d' \<and> store d' = (store d)(k \<mapsto> v)"
proof -
  obtain d' where d': "l_put L d k v = (d', True)" "usable d'" "store d' = (store d)(k \<mapsto> v)"
    using kv.put_step [OF assms(1)] by blast
  have "length (put_command k v) < 2 ^ 31"
    using assms(3) by (simp add: fits_def MSG_SIZE_def)
  then have op: "do_operation L True d (put_command k v) junk =
      Inr (d', True, \<lparr>op_type = OP_PUT, op_status = True, op_key = k, op_value = v\<rparr>)"
    using d'(1) by (simp add: do_operation_put [OF assms(2)])
  have "fits ''OK''" by (simp add: fits_def MSG_SIZE_def)
  with serve_message [OF assms(3,4) op] d'(2,3) show ?thesis by (auto simp: reply_text_def)
qed

lemma serve_get:
  assumes "usable d" "key_ok k" "fits (get_command k)" "inq s = framed (get_command k)"
    and "\<And>v. store d k = Some v \<Longrightarrow> fits v"
  shows "\<exists>s' d'. serve_connection N L True junk d s =
      Inr (s_close N (push s' (framed (case store d k of None \<Rightarrow> ''Operation failed'' | Some v \<Rightarrow> v))), d') \<and>
    rest s' = rest s \<and> usable d' \<and> store d' = store d"
proof -
  obtain d' where d': "l_get L d k = (d', store d k)" "usable d'" "store d' = store d"
    using kv.get_step [OF assms(1)] by blast
  have f: "fits ''Operation failed''" by (simp add: fits_def MSG_SIZE_def)
  have op: "do_operation L True d (get_command k) junk =
      Inr (d', store d k \<noteq> None, \<lparr>op_type = OP_GET, op_status = (store d k \<noteq> None), op_key = k,
            op_value = (case store d k of None \<Rightarrow> [] | Some v \<Rightarrow> v)\<rparr>)"
    using d'(1) by (simp add: do_operation_get [OF assms(2)])
  show ?thesis
  proof (cases "store d k")
    case None
    with serve_message [OF assms(3,4) op] f d'(2,3) show ?thesis by (auto simp: reply_text_def)
  next
    case (Some v)
    with serve_message [OF assms(3,4) op] assms(5) d'(2,3) show ?thesis by (auto simp: reply_text_def)
  qed
qed

end

interpretation ref_service:
  service ref_leveldb ref_store opened pipe_sockets pipe_push p_in p_out ..

section \<open>The helper\<close>

definition leveldb_portno :: nat where
  "leveldb_portno = 8889"

definition LevelDBHelper_get ::
  "'n sockets \<Rightarrow> 'n \<Rightarrow> string \<Rightarrow> string \<Rightarrow> ('n \<times> int \<times> string) exec" where
  "LevelDBHelper_get N s block_hash data =
     bind_exec (sendLocalMsg N s (''get,'' @ block_hash) [] leveldb_portno True)
       (\<lambda>(s, _, response_data).
          if response_data = ''Operation failed'' then Inr (s, 1, data)
          else Inr (s, 0, response_data))"

definition LevelDBHelper_put ::
  "'n sockets \<Rightarrow> 'n \<Rightarrow> string \<Rightarrow> string \<Rightarrow> ('n \<times> int) exec" where
  "LevelDBHelper_put N s block_hash data =
     bind_exec (sendLocalMsg N s (''put,'' @ block_hash @ '','' @ data) [] leveldb_portno True)
       (\<lambda>(s, _, response_data).
          if response_data = ''Operation failed'' then Inr (s, 1) else Inr (s, 0))"

text \<open>
  The object: its methods, as the users of the class get them. \<open>alreadyExists\<close> is written
  in terms of \<open>get\<close>.
\<close>

record 's leveldb_helper =
  lh_get :: "'s \<Rightarrow> string \<Rightarrow> string \<Rightarrow> ('s \<times> int \<times> string) exec"
  lh_put :: "'s \<Rightarrow> string \<Rightarrow> string \<Rightarrow> ('s \<times> int) exec"

definition LevelDBHelper :: "'n sockets \<Rightarrow> 'n leveldb_helper" where
  "LevelDBHelper N = \<lparr>lh_get = LevelDBHelper_get N, lh_put = LevelDBHelper_put N\<rparr>"

definition alreadyExists :: "'s leveldb_helper \<Rightarrow> 's \<Rightarrow> string \<Rightarrow> ('s \<times> bool) exec" where
  "alreadyExists H s block_hash =
     bind_exec (lh_get H s block_hash []) (\<lambda>(s, r, _). Inr (s, r = 0))"

text \<open>\<open>blockcache/test.cpp\<close> and \<open>blockcache/leveldb_helper_test.cc\<close>: a failed \<open>assert\<close> aborts.\<close>

definition test_main :: "'n sockets \<Rightarrow> 'n \<Rightarrow> ('n \<times> string) exec" where
  "test_main N s =
     bind_exec (sendLocalMsg N s ''hello'' [] 8889 True) (\<lambda>(s, _, resp). Inr (s, resp))"

definition assert_that :: "bool \<Rightarrow> 'a exec \<Rightarrow> 'a exec" where
  "assert_that b m = (if b then m else Inl Exit_Called)"

definition leveldb_helper_test_main :: "'s leveldb_helper \<Rightarrow> 's \<Rightarrow> ('s \<times> string) exec" where
  "leveldb_helper_test_main H s =
     bind_exec (lh_put H s ''bala'' ''box'') (\<lambda>(s, status).
     assert_that (status = 0)
       (bind_exec (lh_get H s ''bala'' []) (\<lambda>(s, status, value).
        assert_that (status = 0) (assert_that (value = ''box'')
          (bind_exec (lh_get H s ''box'' value) (\<lambda>(s, status, value).
           assert_that (status = 1) (assert_that (value = ''box'')
             (Inr (s, ''All tests passed!''))))))))) "

section \<open>The contract\<close>

text \<open>
  What a user of the helper may rely on: \<open>contents s\<close> is the map the cache holds; a key or
  an entry is admitted when the protocol can carry it.
\<close>

definition key_admitted :: "string \<Rightarrow> bool" where
  "key_admitted k \<longleftrightarrow> key_ok k \<and> fits (get_command k)"

definition entry_admitted :: "string \<Rightarrow> string \<Rightarrow> bool" where
  "entry_admitted k v \<longleftrightarrow> key_ok k \<and> fits (put_command k v) \<and> v \<noteq> ''Operation failed''"

definition map_admitted :: "(string \<rightharpoonup> string) \<Rightarrow> bool" where
  "map_admitted m \<longleftrightarrow> (\<forall>k v. m k = Some v \<longrightarrow> entry_admitted k v)"

lemma entry_key: "entry_admitted k v \<Longrightarrow> key_admitted k"
  by (simp add: entry_admitted_def key_admitted_def fits_def put_command_def get_command_def)

lemma entry_fits: "entry_admitted k v \<Longrightarrow> fits v"
  by (simp add: entry_admitted_def fits_def put_command_def)

lemma map_admitted_upd: "map_admitted m \<Longrightarrow> entry_admitted k v \<Longrightarrow> map_admitted (m(k \<mapsto> v))"
  by (auto simp: map_admitted_def)

locale block_cache =
  fixes H :: "'s leveldb_helper"
    and contents :: "'s \<Rightarrow> string \<rightharpoonup> string"
    and ready :: "'s \<Rightarrow> bool"
  assumes get_contents: "ready s \<Longrightarrow> map_admitted (contents s) \<Longrightarrow> key_admitted k \<Longrightarrow>
      \<exists>s'. lh_get H s k data = Inr (s', case contents s k of None \<Rightarrow> (1, data) | Some v \<Rightarrow> (0, v)) \<and>
           ready s' \<and> contents s' = contents s"
    and put_contents: "ready s \<Longrightarrow> entry_admitted k v \<Longrightarrow>
      \<exists>s'. lh_put H s k v = Inr (s', 0) \<and> ready s' \<and> contents s' = (contents s)(k \<mapsto> v)"
begin

lemma alreadyExists_contents:
  assumes "ready s" "map_admitted (contents s)" "key_admitted k"
  shows "\<exists>s'. alreadyExists H s k = Inr (s', contents s k \<noteq> None) \<and> ready s' \<and> contents s' = contents s"
  using get_contents [OF assms, of "[]"] by (auto simp: alreadyExists_def split: option.splits)

lemma get_after_put:
  assumes "ready s" "map_admitted (contents s)" "entry_admitted k v"
  shows "\<exists>s1 s2. lh_put H s k v = Inr (s1, 0) \<and> lh_get H s1 k data = Inr (s2, 0, v) \<and>
    contents s2 = (contents s)(k \<mapsto> v) \<and> ready s2"
proof -
  obtain s1 where s1: "lh_put H s k v = Inr (s1, 0)" "ready s1" "contents s1 = (contents s)(k \<mapsto> v)"
    using put_contents [OF assms(1,3)] by blast
  with get_contents [OF s1(2), of k data] assms(2,3) show ?thesis
    by (auto simp: map_admitted_upd entry_key)
qed

lemma test_passes:
  assumes "ready s" "map_admitted (contents s)" "contents s ''box'' = None"
  shows "\<exists>s'. leveldb_helper_test_main H s = Inr (s', ''All tests passed!'') \<and>
    contents s' = (contents s)(''bala'' \<mapsto> ''box'')"
proof -
  have adm: "entry_admitted ''bala'' ''box''" "key_admitted ''bala''" "key_admitted ''box''"
    by (simp_all add: entry_admitted_def key_admitted_def key_ok_def fits_def put_command_def
        get_command_def MSG_SIZE_def)
  obtain s1 s2 where s12: "lh_put H s ''bala'' ''box'' = Inr (s1, 0)"
    "lh_get H s1 ''bala'' [] = Inr (s2, 0, ''box'')"
    "contents s2 = (contents s)(''bala'' \<mapsto> ''box'')" "ready s2"
    using get_after_put [OF assms(1,2) adm(1)] by blast
  obtain s3 where "lh_get H s2 ''box'' ''box'' = Inr (s3, 1, ''box'')" "contents s3 = contents s2"
    using get_contents [OF s12(4), of "''box''" "''box''"] assms(2,3) s12(3) adm
    by (auto simp: map_admitted_upd)
  with s12 show ?thesis by (simp add: leveldb_helper_test_main_def assert_that_def)
qed

end

end
