(* ===== verification/Http_Client.thy ===== *)
theory Http_Client
  imports Query_String
begin

text \<open>
  The HTTP client side of \<open>blockcache/http_helper.cpp\<close>, over the neon library, which is not
  part of the repository: a request is one call that delivers a result.
\<close>

section \<open>The library\<close>

text \<open>
  \<open>r_ok\<close>: did \<open>ne_request_dispatch\<close> return 0? \<open>r_type\<close>: the header \<open>Content-Type\<close>, null when the
  response has none. \<open>r_pieces\<close>: the pieces of the body handed to the reader, also those that
  came before a failure.
\<close>

record http_result =
  r_ok :: bool
  r_code :: int
  r_type :: "string option"
  r_pieces :: "string list"

text \<open>\<open>n_dispatch h host method path body\<close>; an empty \<open>body\<close> is a request without one.\<close>

record 'h neon =
  n_dispatch :: "'h \<Rightarrow> string \<Rightarrow> string \<Rightarrow> string \<Rightarrow> string \<Rightarrow> 'h \<times> http_result"

section \<open>The helper\<close>

definition metadata_ip :: string where "metadata_ip = ''162.243.132.35''"
definition block_ip :: string where "block_ip = ''104.236.143.21''"

definition httpResponseReader :: "string \<Rightarrow> string \<Rightarrow> string" where
  "httpResponseReader str buf = str @ buf"

definition sendHttpRequest ::
  "'h neon \<Rightarrow> 'h \<Rightarrow> string \<Rightarrow> string \<Rightarrow> string \<Rightarrow> string \<Rightarrow> string \<Rightarrow> string \<Rightarrow> string \<Rightarrow>
   ('h \<times> int \<times> string \<times> string \<times> string) exec" where
  "sendHttpRequest X h host_ip path reqType reqBody responseContentType response responseCode =
     (case n_dispatch X h (c_str host_ip) (c_str reqType) (c_str path) reqBody of (h, r) \<Rightarrow>
        let response = foldl httpResponseReader response (r_pieces r) in
        if \<not> r_ok r then Inr (h, - 1, responseContentType, response, responseCode)
        else
          let responseCode = show_int (r_code r) in
          (case r_type r of
             None \<Rightarrow> Inl Null_String
           | Some t \<Rightarrow> Inr (h, 0, t, response, responseCode)))"

definition requestFromBlockServer ::
  "'h neon \<Rightarrow> 'h \<Rightarrow> string \<Rightarrow> string \<Rightarrow> string \<Rightarrow> string \<Rightarrow>
   ('h \<times> int \<times> string \<times> string \<times> string) exec" where
  "requestFromBlockServer X h hash responseContentType response responseCode =
     (let path = ''/block_fetch?hash='' @ hash in
      bind_exec (sendHttpRequest X h block_ip path ''GET'' [] responseContentType response responseCode)
        (\<lambda>(h, _, t, r, code). Inr (h, 0, t, r, code)))"

lemma foldl_reader [simp]: "foldl httpResponseReader s ps = s @ concat ps"
  by (induction ps arbitrary: s) (simp_all add: httpResponseReader_def)

text \<open>
  What the callers rely on: the block server answers a request for a block it holds with
  the block and a content type on one line, others with another status. \<open>blocks h\<close> are the
  blocks it holds; requests for blocks do not change them.
\<close>

locale block_service =
  fixes X :: "'h neon"
    and blocks :: "'h \<Rightarrow> string \<rightharpoonup> string"
    and served :: "string \<Rightarrow> bool"
  assumes fetch_held: "served k \<Longrightarrow> blocks h k = Some b \<Longrightarrow>
      \<exists>h' t ps. n_dispatch X h (c_str block_ip) (c_str ''GET'') (c_str (''/block_fetch?hash='' @ k)) [] =
             (h', \<lparr>r_ok = True, r_code = 200, r_type = Some t, r_pieces = ps\<rparr>) \<and>
           CHR 0x0D \<notin> set t \<and> concat ps = b \<and> blocks h' = blocks h"
    and fetch_not_held: "served k \<Longrightarrow> blocks h k = None \<Longrightarrow>
      \<exists>h' c t ps. n_dispatch X h (c_str block_ip) (c_str ''GET'') (c_str (''/block_fetch?hash='' @ k)) [] =
             (h', \<lparr>r_ok = True, r_code = c, r_type = Some t, r_pieces = ps\<rparr>) \<and>
           c \<noteq> 200 \<and> 0 \<le> c \<and> blocks h' = blocks h"
begin

lemma request_held:
  assumes "served k" "blocks h k = Some b"
  shows "\<exists>h' t. requestFromBlockServer X h k ct [] code = Inr (h', 0, t, b, ''200'') \<and>
    CHR 0x0D \<notin> set t \<and> blocks h' = blocks h"
proof -
  have "show_int 200 = ''200''" by code_simp
  with fetch_held [OF assms] show ?thesis
    by (auto simp: requestFromBlockServer_def sendHttpRequest_def Let_def)
qed

end

end
