(* ===== verification/Cache_Workers.thy ===== *)
theory Cache_Workers
  imports Fcgi_Worker Leveldb_Helper Http_Client
begin

text \<open>
  The programs of a cache machine that use the cache: the FastCGI workers
  \<open>blockcache/cache_block_fetch.cpp\<close> and \<open>blockcache/cache_block_store.cpp\<close>, and the
  prefetcher \<open>blockcache/prefetch.cpp\<close>. The state of a program is the state \<open>s\<close> behind its
  \<open>LevelDBHelper\<close> object \<open>H\<close>, the world \<open>h\<close> the HTTP library talks to, and, for the fetch
  worker, the socket state \<open>q\<close> of the messages to the prefetcher.
\<close>

section \<open>Fetching a block through the cache\<close>

definition prefetch_portno :: nat where "prefetch_portno = 8888"
definition PREFETCH_MSG_SIZE :: nat where "PREFETCH_MSG_SIZE = 1000"
definition cache_ip :: string where "cache_ip = ''1.2.3.4''"
definition loopback_address :: "32 word" where "loopback_address = 0x7F000001"

definition cacheErrorMessage :: "string \<Rightarrow> string" where
  "cacheErrorMessage error =
     ''Status: 400'' @ crlf @ ''Content-type: text/html'' @ crlf @ crlf @
     ''<html><p>400 '' @ error @ ''</p></html>'' @ [CHR 0x0A]"

definition addUserCache :: "'h neon \<Rightarrow> 'h \<Rightarrow> string \<Rightarrow> ('h \<times> int) exec" where
  "addUserCache X h user_id =
     (let path = ''/user_cache_add?user_id='' @ user_id;
          path = path @ ''&cache_ip='' @ cache_ip
      in bind_exec (sendHttpRequest X h metadata_ip path ''POST'' [] [] [] []) (\<lambda>(h, _). Inr (h, 0)))"

text \<open>
  \<open>sendMsg\<close> copies the whole message into a buffer of \<open>PREFETCH_MSG_SIZE\<close> bytes. A failed
  \<open>connect\<close> closes the socket and goes on to \<open>send\<close>.
\<close>

definition sendMsg :: "'n sockets \<Rightarrow> 'n \<Rightarrow> string \<Rightarrow> ('n \<times> int) exec" where
  "sendMsg N q msg =
     (case s_socket N q of (q, sock) \<Rightarrow>
      if \<not> sock then Inl Exit_Called
      else if \<not> s_resolve N q then Inl Exit_Called
      else case s_connect N q loopback_address prefetch_portno of (q, connected) \<Rightarrow>
      let q = (if connected then q else s_close N q) in
      if PREFETCH_MSG_SIZE < length msg then Inl Buffer_Overflow
      else case s_send N q (msg @ replicate (PREFETCH_MSG_SIZE - length msg) nul) of (q, k) \<Rightarrow>
        if k < 0 then Inr (q, 1) else Inr (s_close N q, 0))"

definition prefetch_message :: "string \<Rightarrow> string \<Rightarrow> string" where
  "prefetch_message userId hash =
     ''{'' @ [CHR 0x22] @ ''userID'' @ [CHR 0x22] @ '': '' @ [CHR 0x22] @ userId @ [CHR 0x22] @ '', '' @
     [CHR 0x22] @ ''hash'' @ [CHR 0x22] @ '': '' @ [CHR 0x22] @ hash @ [CHR 0x22] @ '' }''"

definition cached_reply :: "string \<Rightarrow> string" where
  "cached_reply data =
     ''Status: 200'' @ crlf @ ''Origin: Cache Server'' @ crlf @
     ''Content-Type: application/binary'' @ crlf @ crlf @ data"

definition forwarded_reply :: "string \<Rightarrow> string \<Rightarrow> string \<Rightarrow> string" where
  "forwarded_reply responseCode responseContentType response =
     ''Status: '' @ responseCode @ crlf @ ''Origin: Block Server'' @ crlf @
     ''Content-Type: '' @ responseContentType @ crlf @ crlf @ response"

text \<open>Look the block up; on a miss forward the request and save whatever came back.\<close>

definition answer_block ::
  "'s leveldb_helper \<Rightarrow> 'h neon \<Rightarrow> 's \<Rightarrow> 'h \<Rightarrow> string \<Rightarrow> ('s \<times> 'h \<times> string) exec" where
  "answer_block H X s h hash =
     bind_exec (alreadyExists H s hash) (\<lambda>(s, exists).
     if exists then
       bind_exec (lh_get H s hash []) (\<lambda>(s, _, data). Inr (s, h, cached_reply data))
     else
       bind_exec (requestFromBlockServer X h hash [] [] []) (\<lambda>(h, _, responseContentType, response, responseCode).
       bind_exec (lh_put H s hash response) (\<lambda>(s, _).
       Inr (s, h, forwarded_reply responseCode responseContentType response))))"

definition cache_block_fetch_request ::
  "'s leveldb_helper \<Rightarrow> 'h neon \<Rightarrow> 'n sockets \<Rightarrow> 's \<times> 'h \<times> 'n \<Rightarrow> request \<Rightarrow>
   (('s \<times> 'h \<times> 'n) \<times> string) exec" where
  "cache_block_fetch_request H X N st r =
     (case st of (s, h, q) \<Rightarrow>
      case query_string r of
        None \<Rightarrow> Inr (st, cacheErrorMessage ''No parameters'')
      | Some param \<Rightarrow>
          bind_exec (HttpHelper_getQueryParam param ''hash'' []) (\<lambda>(_, hash).
          bind_exec (HttpHelper_getQueryParam param ''user'' []) (\<lambda>(_, userId).
          bind_exec (answer_block H X s h hash) (\<lambda>(s, h, out).
          bind_exec (sendMsg N q (prefetch_message userId hash)) (\<lambda>(q, _).
          Inr ((s, h, q), out))))))"

definition cache_block_fetch_main ::
  "'s leveldb_helper \<Rightarrow> 'h neon \<Rightarrow> 'n sockets \<Rightarrow> 's \<times> 'h \<times> 'n \<Rightarrow> request list \<Rightarrow>
   string list \<times> ('s \<times> 'h \<times> 'n) exec" where
  "cache_block_fetch_main H X N = serve (cache_block_fetch_request H X N)"

section \<open>Storing a block through the cache machine\<close>

definition BLOCK_SIZE :: nat where "BLOCK_SIZE = 512"

text \<open>
  \<open>while (!feof(stdin)) { bytes = fread(...); append }\<close>: the end of the file is seen by a
  read that delivers fewer bytes than asked for.
\<close>

function read_stdin :: "string \<Rightarrow> string \<Rightarrow> string" where
  "read_stdin input body =
     (let bytes = take BLOCK_SIZE input
      in if length bytes < BLOCK_SIZE then body @ bytes
         else read_stdin (drop BLOCK_SIZE input) (body @ bytes))"
  by pat_completeness auto
termination
  by (relation "measure (\<lambda>(input, body). length input)") (auto simp: BLOCK_SIZE_def)

declare read_stdin.simps [simp del]

lemma read_stdin_all: "read_stdin input body = body @ input"
proof (induction input body rule: read_stdin.induct)
  case (1 input body)
  show ?case
  proof (cases "length (take BLOCK_SIZE input) < BLOCK_SIZE")
    case True
    then have "take BLOCK_SIZE input = input" by (auto simp: min_def split: if_splits)
    with True show ?thesis by (subst read_stdin.simps) (simp add: Let_def)
  next
    case False
    from 1 [OF refl False] False show ?thesis
      by (subst read_stdin.simps) (simp add: Let_def)
  qed
qed

definition storeToBlockServer :: "'h neon \<Rightarrow> 'h \<Rightarrow> string \<Rightarrow> string \<Rightarrow> ('h \<times> string) exec" where
  "storeToBlockServer X h hash block =
     (let path = ''/block_store?hash='' @ hash in
      bind_exec (sendHttpRequest X h block_ip path ''POST'' block [] [] [])
        (\<lambda>(h, _, responseContentType, response, responseCode).
           Inr (h, ''Status: '' @ c_str responseCode @ crlf @
                   ''Content-Type:  '' @ c_str responseContentType @ crlf @ crlf @ c_str response)))"

definition cache_block_store_request :: "'h neon \<Rightarrow> 'h \<Rightarrow> request \<Rightarrow> ('h \<times> string) exec" where
  "cache_block_store_request X h r =
     (let response_body = read_stdin (stdin_bytes r) [] in
      case query_string r of
        None \<Rightarrow> Inl Null_String
      | Some qs \<Rightarrow>
          bind_exec (HttpHelper_getQueryParam qs ''hash'' []) (\<lambda>(_, hash).
          storeToBlockServer X h hash response_body))"

definition cache_block_store_main :: "'h neon \<Rightarrow> 'h \<Rightarrow> request list \<Rightarrow> string list \<times> 'h exec" where
  "cache_block_store_main X = serve (cache_block_store_request X)"

section \<open>Prefetching\<close>

definition maxHashes :: string where "maxHashes = ''10''"

definition lookUpRecentHashes :: "'h neon \<Rightarrow> 'h \<Rightarrow> string \<Rightarrow> 'h \<times> string" where
  "lookUpRecentHashes X h userID =
     (let query = ''/recent_hashes?user_id='' @ userID;
          query = query @ ''&max_hashes='' @ maxHashes
      in case n_dispatch X h (c_str metadata_ip) (c_str ''GET'') (c_str query) [] of (h, r) \<Rightarrow>
           (h, foldl httpResponseReader [] (r_pieces r)))"

text \<open>
  \<open>pickHashes\<close> is called with a null \<open>LevelDBHelper\<close> pointer; \<open>alreadyExists\<close> and \<open>get\<close> use no
  member of the object, so the call reaches the server like any other.
\<close>

fun pickHashes_from ::
  "'j jsoncpp \<Rightarrow> 's leveldb_helper \<Rightarrow> 's \<Rightarrow> 'j \<Rightarrow> nat list \<Rightarrow> string list \<Rightarrow> ('s \<times> string list) exec" where
  "pickHashes_from J H s v [] hashes = Inr (s, hashes)"
| "pickHashes_from J H s v (i # is) hashes =
     bind_exec (json_ok (j_at J v i)) (\<lambda>w.
     bind_exec (json_ok (j_as_string J w)) (\<lambda>curHash.
     bind_exec (alreadyExists H s curHash) (\<lambda>(s, exists).
     pickHashes_from J H s v is (if exists then hashes else hashes @ [curHash]))))"

definition pickHashes ::
  "'j jsoncpp \<Rightarrow> 's leveldb_helper \<Rightarrow> 's \<Rightarrow> 'j \<Rightarrow> ('s \<times> string list) exec" where
  "pickHashes J H s recent_hashes = pickHashes_from J H s recent_hashes [0..<j_size J recent_hashes] []"

fun retrieve ::
  "'s leveldb_helper \<Rightarrow> 'h neon \<Rightarrow> 's \<Rightarrow> 'h \<Rightarrow> string list \<Rightarrow> ('s \<times> 'h) exec" where
  "retrieve H X s h [] = Inr (s, h)"
| "retrieve H X s h (curHash # hs) =
     bind_exec (requestFromBlockServer X h curHash [] [] []) (\<lambda>(h, _, _, block, responseCode).
     if responseCode = ''200'' then
       bind_exec (lh_put H s curHash block) (\<lambda>(s, _). retrieve H X s h hs)
     else retrieve H X s h hs)"

text \<open>
  A connection: the bytes of the one \<open>recv\<close> call, and the stack memory after the buffer.
\<close>

record prefetch_connection =
  pc_bytes :: string
  pc_after :: string

definition prefetch_request ::
  "'j jsoncpp \<Rightarrow> 's leveldb_helper \<Rightarrow> 'h neon \<Rightarrow> 's \<times> 'h \<Rightarrow> prefetch_connection \<Rightarrow> ('s \<times> 'h) exec" where
  "prefetch_request J H X st c =
     (case st of (s, h) \<Rightarrow>
      let received = take PREFETCH_MSG_SIZE (pc_bytes c);
          buffer = received @ replicate (PREFETCH_MSG_SIZE - length received) nul
      in
      bind_exec (string_of_ptr (Some buffer) (pc_after c)) (\<lambda>msg.
      case j_parse J msg of (parsedSuccess, msg_root) \<Rightarrow>
      if \<not> parsedSuccess then Inr (s, h)
      else
        bind_exec (json_ok (j_get_or J msg_root ''userID'' (j_string J ''-1''))) (\<lambda>v.
        bind_exec (json_ok (j_as_string J v)) (\<lambda>userID.
        bind_exec (json_ok (j_get_or J msg_root ''hash'' (j_string J ''-1''))) (\<lambda>v.
        bind_exec (json_ok (j_as_string J v)) (\<lambda>_.
        case lookUpRecentHashes X h userID of (h, recent_hashes_json) \<Rightarrow>
        case j_parse J recent_hashes_json of (parsedSuccess, recent_hashes_root) \<Rightarrow>
        if \<not> parsedSuccess then Inr (s, h)
        else
          bind_exec (json_ok (j_get_or J recent_hashes_root ''block_list'' (j_string J []))) (\<lambda>block_list.
          if j_is_null J block_list then Inr (s, h)
          else
            bind_exec (pickHashes J H s block_list) (\<lambda>(s, hashesToRetrieve).
            retrieve H X s h hashesToRetrieve))))))))"

fun prefetch_connections ::
  "'j jsoncpp \<Rightarrow> 's leveldb_helper \<Rightarrow> 'h neon \<Rightarrow> 's \<times> 'h \<Rightarrow> prefetch_connection list \<Rightarrow> ('s \<times> 'h) exec" where
  "prefetch_connections J H X st [] = Inr st"
| "prefetch_connections J H X st (c # cs) =
     bind_exec (prefetch_request J H X st c) (\<lambda>st. prefetch_connections J H X st cs)"

definition prefetch_main ::
  "'j jsoncpp \<Rightarrow> 's leveldb_helper \<Rightarrow> 'h neon \<Rightarrow> bool \<Rightarrow> 's \<times> 'h \<Rightarrow> prefetch_connection list \<Rightarrow> ('s \<times> 'h) exec" where
  "prefetch_main J H X listening st cs =
     (if \<not> listening then Inl Exit_Called else prefetch_connections J H X st cs)"

end
