(* ===== verification/Cache_Machine.thy ===== *)
theory Cache_Machine
  imports Leveldb_Helper
begin

text \<open>
  A cache machine: the helper in one process and \<open>leveldb_server\<close> in another, joined by a
  connection on the loopback interface. The helper's contract \<open>block_cache\<close> is proved of the
  two together, over any database that satisfies \<open>healthy_leveldb\<close>.
\<close>

section \<open>The two processes\<close>

text \<open>
  \<open>lp_up\<close>: the server is alive, with its database open. \<open>lp_request\<close> and \<open>lp_reply\<close>: the
  bytes under way in each direction of the connection; \<open>lp_pieces\<close>: the sizes of the pieces
  the server receives.
\<close>

record 'd loop =
  lp_db :: 'd
  lp_up :: bool
  lp_request :: string
  lp_reply :: string
  lp_pieces :: "nat list"

text \<open>
  The server works on the connection while the client waits for the answer. When it dies
  the system closes the connection, and the client receives nothing.
\<close>

definition settle :: "'d leveldb \<Rightarrow> operation \<Rightarrow> 'd loop \<Rightarrow> 'd loop" where
  "settle D junk s =
     (if lp_request s = [] then s
      else case serve_connection pipe_sockets D True junk (lp_db s)
                  \<lparr>p_in = lp_request s, p_out = [], p_pieces = lp_pieces s\<rparr> of
          Inl e \<Rightarrow> s\<lparr>lp_up := False, lp_request := [], lp_reply := []\<rparr>
        | Inr (p, d) \<Rightarrow> s\<lparr>lp_db := d, lp_request := [], lp_reply := p_out p\<rparr>)"

definition loop_recv :: "'d leveldb \<Rightarrow> operation \<Rightarrow> 'd loop \<Rightarrow> nat \<Rightarrow> 'd loop \<times> string option" where
  "loop_recv D junk s n =
     (let t = settle D junk s in (t\<lparr>lp_reply := drop n (lp_reply t)\<rparr>, Some (take n (lp_reply t))))"

definition loop_push :: "'d loop \<Rightarrow> string \<Rightarrow> 'd loop" where
  "loop_push s b = s\<lparr>lp_request := lp_request s @ b\<rparr>"

definition loop_sockets :: "'d leveldb \<Rightarrow> operation \<Rightarrow> 'd loop sockets" where
  "loop_sockets D junk = \<lparr>
     s_socket = (\<lambda>s. (s\<lparr>lp_request := [], lp_reply := []\<rparr>, True)),
     s_resolve = (\<lambda>s. True),
     s_connect = (\<lambda>s addr portno. (s, lp_up s \<and> portno = leveldb_portno)),
     s_send = (\<lambda>s b. (loop_push s b, int (length b))),
     s_recv = loop_recv D junk,
     s_close = (\<lambda>s. s\<lparr>lp_request := [], lp_reply := []\<rparr>)\<rparr>"

lemma loop_sockets_simps [simp]:
  "s_socket (loop_sockets D junk) s = (s\<lparr>lp_request := [], lp_reply := []\<rparr>, True)"
  "s_resolve (loop_sockets D junk) s"
  "s_connect (loop_sockets D junk) s a leveldb_portno = (s, lp_up s)"
  "s_recv (loop_sockets D junk) s n = loop_recv D junk s n"
  "s_close (loop_sockets D junk) s = s\<lparr>lp_request := [], lp_reply := []\<rparr>"
  by (simp_all add: loop_sockets_def)

lemma settle_settled [simp]: "lp_request (settle D junk s) = []"
  by (auto simp: settle_def split: sum.splits)

lemma settle_idem: "lp_request s = [] \<Longrightarrow> settle D junk s = s"
  by (simp add: settle_def)

interpretation loop_out: sending "loop_sockets D junk" loop_push for D junk
  by unfold_locales (auto simp: loop_sockets_def loop_push_def)

interpretation loop_in: receiving "loop_sockets D junk" "\<lambda>s. lp_reply (settle D junk s)"
    "\<lambda>s. (lp_db (settle D junk s), lp_up (settle D junk s))" for D junk
proof
  fix n :: nat and s :: "'a loop"
  assume "0 < n"
  then show "\<exists>s' b. s_recv (loop_sockets D junk) s n = (s', Some b) \<and> length b \<le> n \<and>
      lp_reply (settle D junk s) = b @ lp_reply (settle D junk s') \<and>
      (lp_reply (settle D junk s) = [] \<or> b \<noteq> []) \<and>
      (lp_db (settle D junk s'), lp_up (settle D junk s')) =
      (lp_db (settle D junk s), lp_up (settle D junk s))"
    by (auto simp: loop_sockets_def loop_recv_def Let_def settle_idem)
qed

section \<open>A message and its answer\<close>

lemma recv_loop_last:
  assumes "recv_loop N s rcvd = Inr (s', r)" "length rcvd < MSG_SIZE"
  shows "\<exists>s1. s' = fst (s_recv N s1 PACKET_SIZE)"
  using assms
proof (induction N s rcvd rule: recv_loop.induct)
  case (1 N s rcvd)
  obtain s1 q where q: "s_recv N s PACKET_SIZE = (s1, q)" by fastforce
  show ?case
  proof (cases "\<exists>b. q = Some b \<and> b \<noteq> [] \<and> length rcvd + length b < MSG_SIZE")
    case True
    then obtain b where b: "q = Some b" "b \<noteq> []" "length rcvd + length b < MSG_SIZE" by blast
    then have "recv_loop N s1 (rcvd @ b) = Inr (s', r)"
      using 1(2,3) q by (subst (asm) recv_loop.simps) simp
    with 1(1) [OF _ q [symmetric] b(1) b(2)] 1(3) b show ?thesis by simp
  next
    case False
    have "s' = s1"
      using 1(2,3) q False
      by (subst (asm) recv_loop.simps) (auto split: option.splits if_splits simp: recv_loop.simps [of _ s1])
    with q show ?thesis by (metis fst_conv)
  qed
qed

lemma sendLocalMsg_answered:
  fixes s :: "'d loop"
  assumes "lp_up s" "fits msg" "fits answer"
    and "serve_connection pipe_sockets D True junk (lp_db s)
           \<lparr>p_in = framed msg, p_out = [], p_pieces = lp_pieces s\<rparr> = Inr (p, d)"
    and "p_out p = framed answer"
  shows "\<exists>s'. sendLocalMsg (loop_sockets D junk) s msg [] leveldb_portno True = Inr (s', 0, answer) \<and>
    lp_db s' = d \<and> lp_up s'"
proof -
  let ?N = "loop_sockets D junk"
  let ?s = "s\<lparr>lp_request := [], lp_reply := []\<rparr>"
  let ?t = "loop_push ?s (framed msg)"
  have ne: "framed msg \<noteq> []" using length_framed [OF assms(2)] sizes(2) by (metis length_0_conv less_numeral_extra(3))
  have settled: "settle D junk ?t = ?s\<lparr>lp_db := d, lp_request := [], lp_reply := framed answer\<rparr>"
    using assms(4,5) ne by (simp add: settle_def loop_push_def)
  have snd: "send_loop ?N True ?s (framed msg) (int MSG_SIZE) = (?t, True)"
    by (rule loop_out.send_loop_all) (simp add: assms(2))
  obtain s' where rcv: "recv_loop ?N ?t [] = Inr (s', framed answer)"
    "lp_db (settle D junk s') = d \<and> lp_up (settle D junk s')"
    using loop_in.receives_framed [OF assms(3), where s = ?t and D = D and junk = junk] settled assms(1) by auto
  obtain s1 where "s' = fst (s_recv ?N s1 PACKET_SIZE)"
    using recv_loop_last [OF rcv(1)] by auto
  then have "lp_request s' = []" by (simp add: loop_recv_def Let_def)
  then have "lp_db s' = d" "lp_up s'" using rcv(2) by (simp_all add: settle_idem)
  with snd rcv(1) assms(1-3) show ?thesis
    by (simp add: sendLocalMsg_def createBuffer_fits extractBuffer_framed)
qed

section \<open>The contract holds\<close>

sublocale healthy_leveldb \<subseteq> piped: service L store usable pipe_sockets pipe_push p_in p_out ..

definition machine_ready :: "('d \<Rightarrow> bool) \<Rightarrow> 'd loop \<Rightarrow> bool" where
  "machine_ready usable s \<longleftrightarrow> lp_up s \<and> usable (lp_db s)"

definition machine_contents :: "('d \<Rightarrow> string \<rightharpoonup> string) \<Rightarrow> 'd loop \<Rightarrow> string \<rightharpoonup> string" where
  "machine_contents store s = store (lp_db s)"

definition machine :: "'d leveldb \<Rightarrow> operation \<Rightarrow> 'd loop leveldb_helper" where
  "machine D junk = LevelDBHelper (loop_sockets D junk)"

lemma pipe_close_push [simp]: "p_out (s_close pipe_sockets (pipe_push p b)) = p_out p @ b"
  by (simp add: pipe_sockets_def pipe_push_def)

context healthy_leveldb
begin

lemma machine_get_raw:
  assumes "machine_ready usable s" "key_admitted k"
    and "\<And>v. machine_contents store s k = Some v \<Longrightarrow> fits v"
  shows "\<exists>s'. lh_get (machine L junk) s k data =
      Inr (s', case machine_contents store s k of
                 None \<Rightarrow> (1, data)
               | Some v \<Rightarrow> (if v = ''Operation failed'' then (1, data) else (0, v))) \<and>
    machine_ready usable s' \<and> machine_contents store s' = machine_contents store s"
proof -
  let ?answer = "case store (lp_db s) k of None \<Rightarrow> ''Operation failed'' | Some v \<Rightarrow> v"
  let ?p = "\<lparr>p_in = framed (get_command k), p_out = [], p_pieces = lp_pieces s\<rparr>"
  have f: "fits ''Operation failed''" by (simp add: fits_def MSG_SIZE_def)
  obtain p d where pd: "serve_connection pipe_sockets L True junk (lp_db s) ?p = Inr (p, d)"
    "p_out p = framed ?answer" "usable d" "store d = store (lp_db s)"
    using piped.serve_get [of "lp_db s" k ?p junk] assms
    by (fastforce simp: machine_ready_def machine_contents_def key_admitted_def)
  have "fits ?answer" using assms(3) f by (auto simp: machine_contents_def split: option.split)
  from sendLocalMsg_answered [OF _ _ this pd(1,2)] assms(1,2) obtain s' where
    "sendLocalMsg (loop_sockets L junk) s (get_command k) [] leveldb_portno True = Inr (s', 0, ?answer)"
    "lp_db s' = d" "lp_up s'"
    by (auto simp: machine_ready_def key_admitted_def)
  then show ?thesis using pd(3,4)
    by (auto simp: machine_def LevelDBHelper_def LevelDBHelper_get_def machine_ready_def
        machine_contents_def get_command_def split: option.splits)
qed

lemma machine_get:
  assumes "machine_ready usable s" "map_admitted (machine_contents store s)" "key_admitted k"
  shows "\<exists>s'. lh_get (machine L junk) s k data =
      Inr (s', case machine_contents store s k of None \<Rightarrow> (1, data) | Some v \<Rightarrow> (0, v)) \<and>
    machine_ready usable s' \<and> machine_contents store s' = machine_contents store s"
proof -
  have adm: "fits v \<and> v \<noteq> ''Operation failed''" if "machine_contents store s k = Some v" for v
    using assms(2) that entry_fits by (auto simp: map_admitted_def entry_admitted_def)
  then show ?thesis
    using machine_get_raw [OF assms(1,3), of junk data] by (auto split: option.splits if_splits)
qed

lemma machine_put:
  assumes "machine_ready usable s" "entry_admitted k v"
  shows "\<exists>s'. lh_put (machine L junk) s k v = Inr (s', 0) \<and> machine_ready usable s' \<and>
    machine_contents store s' = (machine_contents store s)(k \<mapsto> v)"
proof -
  let ?p = "\<lparr>p_in = framed (put_command k v), p_out = [], p_pieces = lp_pieces s\<rparr>"
  obtain p d where pd: "serve_connection pipe_sockets L True junk (lp_db s) ?p = Inr (p, d)"
    "p_out p = framed ''OK''" "usable d" "store d = (store (lp_db s))(k \<mapsto> v)"
    using piped.serve_put [of "lp_db s" k v ?p junk] assms
    by (fastforce simp: machine_ready_def entry_admitted_def)
  have "fits ''OK''" by (simp add: fits_def MSG_SIZE_def)
  from sendLocalMsg_answered [OF _ _ this pd(1,2)] assms obtain s' where
    "sendLocalMsg (loop_sockets L junk) s (put_command k v) [] leveldb_portno True = Inr (s', 0, ''OK'')"
    "lp_db s' = d" "lp_up s'"
    by (auto simp: machine_ready_def entry_admitted_def)
  then show ?thesis using pd(3,4)
    by (auto simp: machine_def LevelDBHelper_def LevelDBHelper_put_def machine_ready_def
        machine_contents_def put_command_def)
qed

end

sublocale healthy_leveldb \<subseteq> machine: block_cache "machine L junk"
    "machine_contents store" "machine_ready usable" for junk
  by unfold_locales (rule machine_get machine_put; assumption)+

context healthy_leveldb
begin

lemmas machine_get_after_put = machine.get_after_put
lemmas machine_test_passes = machine.test_passes

end

end
