(* ===== verification/Block_Server.thy ===== *)
theory Block_Server
  imports Fcgi_Worker Leveldb Http_Client
begin

text \<open>
  The two FastCGI workers of the block server, \<open>blockcache/block_store.cc\<close> and
  \<open>blockcache/block_fetch.cc\<close>. Both open the database for every request and try again until
  it opens, so a request may never be answered: a handler returns \<open>None\<close> then.
\<close>

section \<open>Pieces both workers have\<close>

definition STORE_STDIN_MAX :: nat where "STORE_STDIN_MAX = 100000000"
definition FETCH_STDIN_MAX :: nat where "FETCH_STDIN_MAX = 1000000"

definition errorPage :: "string \<Rightarrow> string" where
  "errorPage error =
     ''Status: 400'' @ crlf @ ''Content-type: text/html'' @ crlf @ crlf @
     ''<html><p>400 '' @ error @ ''</p></html>''"

definition outputErrorLine :: "string \<Rightarrow> string" where
  "outputErrorLine error = errorPage error @ [CHR 0x0A]"

text \<open>
  \<open>do { status = DB::Open(...); sleep(1); } while (!status.ok());\<close> and the same around
  \<open>Put\<close>.
\<close>

partial_function (option) open_until :: "'d leveldb \<Rightarrow> bool \<Rightarrow> 'd \<Rightarrow> 'd option" where
  "open_until D create d =
     (if snd (l_open D d create) then Some (fst (l_open D d create))
      else open_until D create (fst (l_open D d create)))"

partial_function (option) put_until :: "'d leveldb \<Rightarrow> string \<Rightarrow> string \<Rightarrow> 'd \<Rightarrow> 'd option" where
  "put_until D k v d =
     (if snd (l_put D d k v) then Some (fst (l_put D d k v))
      else put_until D k v (fst (l_put D d k v)))"

text \<open>The accept loop of a worker whose handler may not return.\<close>

fun serve_partial ::
  "('s \<Rightarrow> 'r \<Rightarrow> ('s \<times> string) exec option) \<Rightarrow> 's \<Rightarrow> 'r list \<Rightarrow> (string list \<times> 's exec) option" where
  "serve_partial handler s [] = Some ([], Inr s)"
| "serve_partial handler s (r # rs) =
     Option.bind (handler s r) (\<lambda>res.
       case res of
         Inl e \<Rightarrow> Some ([], Inl e)
       | Inr (s', out) \<Rightarrow>
           map_option (\<lambda>(outs, final). (out # outs, final)) (serve_partial handler s' rs))"

section \<open>Storing a block\<close>

text \<open>
  \<open>getRequestBody\<close> reads exactly the announced number of bytes; at the end of the input
  \<open>FCGX_GetChar\<close> returns -1, which becomes the byte 255.
\<close>

definition getRequestBody :: "request \<Rightarrow> string" where
  "getRequestBody r =
     (case content_length r of
        None \<Rightarrow> []
      | Some clenstr \<Rightarrow>
          (case strtoul clenstr of (value, rest) \<Rightarrow>
             let clen = (if rest \<noteq> [] then STORE_STDIN_MAX else value);
                 clen = (if STORE_STDIN_MAX < clen then STORE_STDIN_MAX else clen)
             in take clen (stdin_bytes r) @ replicate (clen - length (stdin_bytes r)) (CHR 0xFF)))"

definition outputSuccessMessage :: "string \<Rightarrow> string \<Rightarrow> string" where
  "outputSuccessMessage hash ip =
     ''Status: 200'' @ crlf @ ''Origin: Block Server'' @ crlf @ ''Content-type: text/html'' @ crlf @ crlf @
     ''<html><p> 200 OK </p>'' @ [CHR 0x0A] @
     ''<p> Hash: '' @ hash @ ''</p>'' @ [CHR 0x0A] @
     ''<p> IP: '' @ ip @ ''</p>'' @ [CHR 0x0A] @
     ''</html>'' @ [CHR 0x0A]"

text \<open>\<open>ifconfig\<close> is an input: the lines \<open>fgets\<close> reads from it.\<close>

definition getEth0Info :: "string list \<Rightarrow> string" where
  "getEth0Info pieces = foldl (\<lambda>eth0 ipBuffer. eth0 @ c_str ipBuffer) [] pieces"

definition getIPAddress :: "string list \<Rightarrow> string \<Rightarrow> (int \<times> string) exec" where
  "getIPAddress pieces ip =
     (let eth0 = getEth0Info pieces;
          start = ''inet addr'';
          beginPos = to_int (int (str_find eth0 start 0))
      in if to_size beginPos = npos then Inr (1, ip)
         else bind_exec (str_substr eth0 (to_size (beginPos + int (length start) + 1)) 13)
                (\<lambda>ip. Inr (0, ip)))"

text \<open>\<open>constructKV\<close> copies the bytes; the sizes it compares are those of one vector.\<close>

definition constructKV :: "string \<Rightarrow> string \<Rightarrow> string \<times> string" where
  "constructKV hash fileData = (hash, fileData)"

definition block_store_request ::
  "'d leveldb \<Rightarrow> string list \<Rightarrow> 'd \<Rightarrow> request \<Rightarrow> ('d \<times> string) exec option" where
  "block_store_request D eth0 d r =
     (let content = getRequestBody r in
      case query_string r of
        None \<Rightarrow> Some (Inr (d, errorPage ''No parameters''))
      | Some param \<Rightarrow>
          (case getBlockHash param [] of
             Inl e \<Rightarrow> Some (Inl e)
           | Inr (getBlockHashSuccess, blockHash) \<Rightarrow>
               if getBlockHashSuccess \<noteq> 0 then Some (Inr (d, errorPage ''Invalid Input''))
               else
                 Option.bind (open_until D True d) (\<lambda>d.
                 case constructKV blockHash content of (key, value) \<Rightarrow>
                 Option.bind (put_until D key value d) (\<lambda>d.
                 (case getIPAddress eth0 [] of
                    Inl e \<Rightarrow> Some (Inl e)
                  | Inr (getIPSuccess, ip) \<Rightarrow>
                      if getIPSuccess \<noteq> 0
                      then Some (Inr (l_close D d, errorPage ''Unable to retrieve IP address''))
                      else Some (Inr (l_close D d, outputSuccessMessage key ip)))))))"

definition block_store_main ::
  "'d leveldb \<Rightarrow> string list \<Rightarrow> 'd \<Rightarrow> request list \<Rightarrow> (string list \<times> 'd exec) option" where
  "block_store_main D eth0 = serve_partial (block_store_request D eth0)"

section \<open>Fetching a block\<close>

definition fetch_header :: "nat \<Rightarrow> string" where
  "fetch_header n =
     ''Status: 200'' @ crlf @ ''Origin: Block Server'' @ crlf @
     ''Content-Type: application/binary'' @ crlf @
     ''Content-Length: '' @ show_nat n @ crlf @ crlf"

text \<open>
  The worker has its own copies of \<open>getEth0Info\<close>, \<open>getIPAddress\<close>, which it never
  calls, and \<open>getBlockHash\<close>. They do what those of \<open>block_store.cc\<close> do.
\<close>

definition fetch_getEth0Info :: "string list \<Rightarrow> string" where
  "fetch_getEth0Info pieces = foldl (\<lambda>eth0 ipBuffer. eth0 @ c_str ipBuffer) [] pieces"

definition fetch_getIPAddress :: "string list \<Rightarrow> string \<Rightarrow> (int \<times> string) exec" where
  "fetch_getIPAddress pieces ip =
     (let eth0 = fetch_getEth0Info pieces;
          start = ''inet addr'';
          beginPos = to_int (int (str_find eth0 start 0))
      in if to_size beginPos = npos then Inr (1, ip)
         else bind_exec (str_substr eth0 (to_size (beginPos + int (length start) + 1)) 13)
                (\<lambda>ip. Inr (0, ip)))"

definition fetch_getBlockHash :: "string \<Rightarrow> string \<Rightarrow> (int \<times> string) exec" where
  "fetch_getBlockHash param blockHash =
     (let hashPos = to_int (int (str_find param ''hash'' 0))
      in if to_size hashPos = npos then Inr (1, blockHash)
         else
           let equPos = to_int (int (str_find param ''='' 0))
           in bind_exec (str_substr param (to_size (equPos + 1)) npos) (\<lambda>v. Inr (0, v)))"

lemma fetch_copies [simp]:
  "fetch_getEth0Info = getEth0Info"
  "fetch_getIPAddress = getIPAddress"
  "fetch_getBlockHash = getBlockHash"
  by (simp_all add: fun_eq_iff fetch_getEth0Info_def getEth0Info_def fetch_getIPAddress_def
      getIPAddress_def fetch_getBlockHash_def getBlockHash_def)

text \<open>\<open>gstdin\<close> of this worker is the one of the metadata workers, with its own limit.\<close>

definition fetch_gstdin :: "request \<Rightarrow> string option \<times> nat" where
  [simp]: "fetch_gstdin r = gstdin FETCH_STDIN_MAX r"

definition block_fetch_request ::
  "'d leveldb \<Rightarrow> 'd \<Rightarrow> request \<Rightarrow> ('d \<times> string) exec option" where
  "block_fetch_request D d r =
     (case string_of_ptr (fst (fetch_gstdin r)) (memory_after r) of
        Inl e \<Rightarrow> Some (Inl e)
      | Inr response_body \<Rightarrow>
          (case query_string r of
             None \<Rightarrow> Some (Inr (d, outputErrorLine ''No parameters''))
           | Some param \<Rightarrow>
               (case fetch_getBlockHash param [] of
                  Inl e \<Rightarrow> Some (Inl e)
                | Inr (getBlockHashSuccess, blockHash) \<Rightarrow>
                    if getBlockHashSuccess \<noteq> 0 then Some (Inr (d, outputErrorLine ''Invalid Input''))
                    else
                      Option.bind (open_until D False d) (\<lambda>d.
                      (case l_get D d blockHash of
                         (d, None) \<Rightarrow> Some (Inr (l_close D d, outputErrorLine ''Key does not exist''))
                       | (d, Some binaryData) \<Rightarrow>
                           Some (Inr (l_close D d, fetch_header (length binaryData) @ binaryData)))))))"

definition block_fetch_main ::
  "'d leveldb \<Rightarrow> 'd \<Rightarrow> request list \<Rightarrow> (string list \<times> 'd exec) option" where
  "block_fetch_main D = serve_partial (block_fetch_request D)"

end
