(* ===== verification/Block_Contract.thy ===== *)
theory Block_Contract
  imports Block_Server
begin

text \<open>
  What the workers of the block server do to the database, proved in the locale
  \<open>lockable_leveldb\<close>: the retry loops end, a stored block is the announced part of the
  request body, a fetched block comes back byte for byte.
\<close>

section \<open>Requests\<close>

lemma getBlockHash_hash:
  assumes "length h + 5 < 2 ^ 31"
  shows "getBlockHash (''hash='' @ h) [] = Inr (0, h)"
proof -
  have f: "str_find (''hash='' @ h) ''hash'' 0 = 0"
    using find_sub_prefix [of "''hash''" "CHR ''='' # h"] by (simp add: str_find_def)
  have e: "str_find (''hash='' @ h) ''='' 0 = 4"
    using find_sub_char [of "CHR ''=''" "''hash''" h] by (simp add: str_find_def)
  have n: "npos \<noteq> 0" "to_int 0 = 0" "to_int 4 = 4" "to_size 5 = 5" "to_size 0 = 0"
    by (simp_all add: npos_def to_int_def to_size_def)
  have "str_substr (''hash='' @ h) 5 npos = Inr h"
    using assms by (simp add: str_substr_def npos_def)
  with f e n show ?thesis by (simp add: getBlockHash_def)
qed

lemma strtoul_show_nat: "n < 2 ^ 64 \<Longrightarrow> strtoul (show_nat n) = (n, [])"
  using read_int_digits [OF show_nat_nonempty show_nat_digits, where rest = "[]"]
  by (simp add: strtoul_def)

lemma getRequestBody_announced:
  assumes "content_length r = Some (show_nat n)" "n \<le> STORE_STDIN_MAX"
  shows "getRequestBody r =
    take n (stdin_bytes r) @ replicate (n - length (stdin_bytes r)) (CHR 0xFF)"
proof -
  have "strtoul (show_nat n) = (n, [])"
    using assms(2) by (intro strtoul_show_nat) (simp add: STORE_STDIN_MAX_def)
  with assms show ?thesis by (simp add: getRequestBody_def Let_def)
qed

text \<open>A loop whose every attempt fails never returns.\<close>

lemma open_until_Some:
  assumes "open_until D create d = Some d'"
  shows "\<exists>d0. l_open D d0 create = (d', True)"
  using assms
proof (induction D create d d' rule: open_until.raw_induct)
  case (1 f D create d d')
  then show ?case
    by (cases "l_open D d create") (auto simp: open_until.simps [of D create d] split: if_splits)
qed (rule assms)

lemma open_until_never: "(\<And>d. \<not> snd (l_open D d create)) \<Longrightarrow> open_until D create d = None"
  using open_until_Some [of D create d] by (cases "open_until D create d") (auto, metis snd_conv)

section \<open>The workers\<close>

text \<open>What a sequence of requests to store puts into the map: the key is what follows \<open>hash=\<close>.\<close>

fun stored_blocks :: "(string \<rightharpoonup> string) \<Rightarrow> request list \<Rightarrow> string \<rightharpoonup> string" where
  "stored_blocks m [] = m"
| "stored_blocks m (r # rs) = stored_blocks (m(drop 5 (the (query_string r)) \<mapsto> getRequestBody r)) rs"

context lockable_leveldb
begin

lemma open_until_total:
  "\<exists>d'. open_until L create d = Some d' \<and> usable d' \<and> store d' = store d"
proof (induction "tries d" arbitrary: d rule: less_induct)
  case less
  obtain d1 ok where o: "l_open L d create = (d1, ok)" by fastforce
  show ?case
  proof (cases ok)
    case True
    with o open_store [OF o] show ?thesis by (simp add: open_until.simps)
  next
    case False
    with o open_progress have "tries d1 < tries d" by simp
    from less [OF this] o False open_store [OF o] show ?thesis
      by (simp add: open_until.simps [of L create d])
  qed
qed

lemma put_until_total:
  assumes "usable d"
  shows "\<exists>d'. put_until L k v d = Some d' \<and> usable d' \<and> store d' = (store d)(k \<mapsto> v)"
proof -
  obtain d1 where "l_put L d k v = (d1, True)" "usable d1" "store d1 = (store d)(k \<mapsto> v)"
    using put_step [OF assms] by blast
  then show ?thesis by (simp add: put_until.simps [of L k v d])
qed

text \<open>A request to store is carried out before the answer depends on anything else.\<close>

lemma block_store_outcome:
  assumes "query_string r = Some q" "getBlockHash q [] = Inr (0, k)"
    and "getIPAddress eth0 [] = Inr (s, ip)"
  shows "\<exists>d'. block_store_request L eth0 d r =
      Some (Inr (d', if s = 0 then outputSuccessMessage k ip
                     else errorPage ''Unable to retrieve IP address'')) \<and>
    store d' = (store d)(k \<mapsto> getRequestBody r)"
proof -
  obtain d1 where d1: "open_until L True d = Some d1" "usable d1" "store d1 = store d"
    using open_until_total by blast
  obtain d2 where "put_until L k (getRequestBody r) d1 = Some d2"
    "store d2 = (store d1)(k \<mapsto> getRequestBody r)"
    using put_until_total [OF d1(2)] by blast
  with d1 assms close_store [of d2] show ?thesis
    by (auto simp: block_store_request_def constructKV_def Let_def)
qed

lemma block_fetch_outcome:
  assumes "string_of_ptr (fst (gstdin FETCH_STDIN_MAX r)) (memory_after r) = Inr b"
    and "query_string r = Some q" "getBlockHash q [] = Inr (0, k)"
  shows "\<exists>d'. block_fetch_request L d r =
      Some (Inr (d', case store d k of
                       None \<Rightarrow> outputErrorLine ''Key does not exist''
                     | Some v \<Rightarrow> fetch_header (length v) @ v)) \<and>
    store d' = store d"
proof -
  obtain d1 where d1: "open_until L False d = Some d1" "usable d1" "store d1 = store d"
    using open_until_total by blast
  obtain d2 where d2: "l_get L d1 k = (d2, store d1 k)" "store d2 = store d1"
    using get_step [OF d1(2)] by blast
  show ?thesis
    using d1 d2 assms close_store [of d2]
    by (cases "store d k") (auto simp: block_fetch_request_def)
qed

text \<open>The worker that stores answers every request of a sequence.\<close>

lemma block_store_main_answers:
  assumes "\<forall>r \<in> set rs. \<exists>k. query_string r = Some (''hash='' @ k) \<and> length k + 5 < 2 ^ 31"
    and "getIPAddress eth0 [] = Inr (s, ip)"
  shows "\<exists>outs d'. block_store_main L eth0 d rs = Some (outs, Inr d') \<and> length outs = length rs \<and>
    store d' = stored_blocks (store d) rs"
  using assms(1)
proof (induction rs arbitrary: d)
  case (Cons r rs)
  then obtain k where k: "query_string r = Some (''hash='' @ k)" "length k + 5 < 2 ^ 31" by auto
  obtain d1 out where d1: "block_store_request L eth0 d r = Some (Inr (d1, out))"
    "store d1 = (store d)(k \<mapsto> getRequestBody r)"
    using block_store_outcome [OF k(1) getBlockHash_hash [OF k(2)] assms(2), of d] by blast
  from Cons.IH [of d1] Cons.prems obtain outs d' where "block_store_main L eth0 d1 rs = Some (outs, Inr d')"
    "length outs = length rs"
    "store d' = stored_blocks (store d1) rs" by auto
  with d1 k(1) show ?case by (simp add: block_store_main_def)
qed (simp add: block_store_main_def)

end

section \<open>The block server behind a web server\<close>

text \<open>
  The users of the block server reach it through a web server, which is not part of the
  repository. This one hands the query string and the body of a request to the worker its
  path names, and turns the answer (a CGI response: header lines, an empty line, the body) into
  an HTTP result. It shows that the workers provide what \<open>block_service\<close> asks for.
\<close>

fun header_line :: "string \<Rightarrow> string \<times> string" where
  "header_line (a # b # cs) =
     (if [a, b] = crlf then ([], cs)
      else (case header_line (b # cs) of (l, r) \<Rightarrow> (a # l, r)))"
| "header_line s = (s, [])"

lemma length_header_line: "length (snd (header_line s)) \<le> length s"
  by (induction s rule: header_line.induct) (auto split: prod.splits)

text \<open>At most \<open>n\<close> header lines, and the body.\<close>

fun header_lines :: "nat \<Rightarrow> string \<Rightarrow> string list \<times> string" where
  "header_lines 0 s = ([], s)"
| "header_lines (Suc n) s =
     (case header_line s of (l, r) \<Rightarrow>
        if l = [] then ([], r)
        else (case header_lines n r of (ls, body) \<Rightarrow> (l # ls, body)))"

definition lower :: "char \<Rightarrow> char" where
  "lower c = (if 65 \<le> (of_char c :: nat) \<and> (of_char c :: nat) \<le> 90
              then char_of ((of_char c :: nat) + 32) else c)"

definition header_field :: "string \<Rightarrow> string list \<Rightarrow> string option" where
  "header_field name ls =
     map_option (drop (length name + 2))
       (find (\<lambda>l. map lower (take (length name + 2) l) = map lower (name @ '': '')) ls)"

definition cgi_result :: "string \<Rightarrow> http_result" where
  "cgi_result out =
     (case header_lines 10 out of (ls, body) \<Rightarrow>
        \<lparr>r_ok = True,
         r_code = (case header_field ''Status'' ls of None \<Rightarrow> 200 | Some s \<Rightarrow> atoi s),
         r_type = header_field ''Content-Type'' ls,
         r_pieces = [body]\<rparr>)"

definition bad_gateway :: http_result where
  "bad_gateway = \<lparr>r_ok = True, r_code = 502, r_type = Some ''text/html'', r_pieces = []\<rparr>"

definition path_query :: "string \<Rightarrow> string option" where
  "path_query path =
     (case dropWhile (\<lambda>c. c \<noteq> CHR ''?'') path of [] \<Rightarrow> None | _ # q \<Rightarrow> Some q)"

text \<open>
  The request a worker sees. The web server is taken to set \<open>CONTENT_LENGTH\<close> always, for a \<open>GET\<close>
  without a body too, and the byte after the body in the buffer of \<open>gstdin\<close>, which the code does not
  set, is taken to be NUL. The workers rely on both; without the first they crash, without the
  second they parse what follows in memory, which are properties of their own.
\<close>

definition gateway_request :: "string \<Rightarrow> string \<Rightarrow> request" where
  "gateway_request path body =
     \<lparr>content_length = Some (show_nat (length body)), query_string = path_query path,
      stdin_bytes = body, memory_after = [nul]\<rparr>"

definition block_gateway :: "'d leveldb \<Rightarrow> string list \<Rightarrow> 'd neon" where
  "block_gateway D eth0 = \<lparr>n_dispatch = (\<lambda>d host method path body.
     case (if prefix ''/block_store'' path then block_store_request D eth0 d (gateway_request path body)
           else block_fetch_request D d (gateway_request path body)) of
       Some (Inr (d', out)) \<Rightarrow> (d', cgi_result out)
     | _ \<Rightarrow> (d, bad_gateway))\<rparr>"

definition url_key :: "string \<Rightarrow> bool" where
  "url_key k \<longleftrightarrow> length k < 1000 \<and> (\<forall>c \<in> set k. 48 \<le> (of_char c :: nat) \<and> (of_char c :: nat) < 128)"

lemma header_line_append:
  assumes "CHR 0x0D \<notin> set l"
  shows "header_line (l @ crlf @ r) = (l, r)"
  using assms
proof (induction l)
  case (Cons a l)
  then obtain b cs where "l @ crlf @ r = b # cs" by (cases l) (auto simp: crlf_def)
  with Cons show ?case by (auto simp: crlf_def)
qed (simp add: crlf_def)

lemma header_lines_line:
  assumes "CHR 0x0D \<notin> set l" "l \<noteq> []" "header_lines n r = (ls, body)"
  shows "header_lines (Suc n) (l @ crlf @ r) = (l # ls, body)"
  using assms by (simp add: header_line_append)

lemma header_lines_end: "header_lines (Suc n) (crlf @ body) = ([], body)"
  using header_line_append [of "[]" body] by simp

lemma show_nat_no_cr: "CHR 0x0D \<notin> set (show_nat n)"
  using show_nat_digits [of "CHR 0x0D" n] by (auto simp: is_digit_def)

lemma cgi_result_fetched:
  "cgi_result (fetch_header n @ v) =
    \<lparr>r_ok = True, r_code = 200, r_type = Some ''application/binary'', r_pieces = [v]\<rparr>"
proof -
  let ?l1 = "''Status: 200''" and ?l2 = "''Origin: Block Server''"
  let ?l3 = "''Content-Type: application/binary''" and ?l4 = "''Content-Length: '' @ show_nat n"
  have "header_lines (Suc (Suc (Suc (Suc (Suc 5)))))
      (?l1 @ crlf @ ?l2 @ crlf @ ?l3 @ crlf @ ?l4 @ crlf @ crlf @ v) = ([?l1, ?l2, ?l3, ?l4], v)"
    by (intro header_lines_line header_lines_end) (simp_all add: show_nat_no_cr)
  moreover have "fetch_header n @ v = ?l1 @ crlf @ ?l2 @ crlf @ ?l3 @ crlf @ ?l4 @ crlf @ crlf @ v"
    by (simp add: fetch_header_def)
  ultimately have "header_lines 10 (fetch_header n @ v) = ([?l1, ?l2, ?l3, ?l4], v)"
    by (simp only: numeral_eq_Suc pred_numeral_simps BitM.simps) 
  moreover have "header_field ''Status'' [?l1, ?l2, ?l3, ?l4] = Some ''200''"
    by (simp add: header_field_def lower_def)
  moreover have "header_field ''Content-Type'' [?l1, ?l2, ?l3, ?l4] = Some ''application/binary''"
    by (simp add: header_field_def lower_def)
  moreover have "atoi ''200'' = 200" by code_simp
  ultimately show ?thesis by (simp add: cgi_result_def)
qed

lemma cgi_result_stored:
  "\<exists>page. cgi_result (outputSuccessMessage k ip) =
    \<lparr>r_ok = True, r_code = 200, r_type = Some ''text/html'', r_pieces = [''<html><p> 200 OK'' @ page]\<rparr>"
proof -
  let ?l1 = "''Status: 200''" and ?l2 = "''Origin: Block Server''" and ?l3 = "''Content-type: text/html''"
  obtain page where out: "outputSuccessMessage k ip = ?l1 @ crlf @ ?l2 @ crlf @ ?l3 @ crlf @ crlf @ ''<html><p> 200 OK'' @ page"
    by (auto simp: outputSuccessMessage_def)
  let ?page = "''<html><p> 200 OK'' @ page"
  have "header_lines (Suc (Suc (Suc (Suc 6)))) (?l1 @ crlf @ ?l2 @ crlf @ ?l3 @ crlf @ crlf @ ?page) =
      ([?l1, ?l2, ?l3], ?page)"
    by (intro header_lines_line header_lines_end) simp_all
  then have "header_lines 10 (outputSuccessMessage k ip) = ([?l1, ?l2, ?l3], ?page)"
    unfolding out by (simp only: numeral_eq_Suc pred_numeral_simps BitM.simps)
  moreover have "header_field ''Status'' [?l1, ?l2, ?l3] = Some ''200''" by code_simp
  moreover have "header_field ''Content-Type'' [?l1, ?l2, ?l3] = Some ''text/html''" by code_simp
  moreover have "atoi ''200'' = 200" by code_simp
  ultimately show ?thesis by (auto simp: cgi_result_def)
qed

lemma cgi_result_failed:
  "cgi_result (outputErrorLine ''Key does not exist'') =
    \<lparr>r_ok = True, r_code = 400, r_type = Some ''text/html'',
     r_pieces = [''<html><p>400 Key does not exist</p></html>'' @ [CHR 0x0A]]\<rparr>"
  by code_simp

lemma cgi_result_no_address:
  "cgi_result (errorPage ''Unable to retrieve IP address'') =
    \<lparr>r_ok = True, r_code = 400, r_type = Some ''text/html'',
     r_pieces = [''<html><p>400 Unable to retrieve IP address</p></html>'']\<rparr>"
  by code_simp

lemma gateway_path:
  assumes "url_key k"
  shows "c_str (''/block_fetch?hash='' @ k) = ''/block_fetch?hash='' @ k"
    and "c_str (''/block_store?hash='' @ k) = ''/block_store?hash='' @ k"
    and "path_query (''/block_fetch?hash='' @ k) = Some (''hash='' @ k)"
    and "path_query (''/block_store?hash='' @ k) = Some (''hash='' @ k)"
    and "getBlockHash (''hash='' @ k) [] = Inr (0, k)"
proof -
  have "nul \<notin> set k" using assms by (auto simp: url_key_def nul_def)
  then show "c_str (''/block_fetch?hash='' @ k) = ''/block_fetch?hash='' @ k"
    "c_str (''/block_store?hash='' @ k) = ''/block_store?hash='' @ k"
    by (intro c_str_id; simp add: nul_def)+
  show "path_query (''/block_fetch?hash='' @ k) = Some (''hash='' @ k)"
    "path_query (''/block_store?hash='' @ k) = Some (''hash='' @ k)"
    by (simp_all add: path_query_def)
  show "getBlockHash (''hash='' @ k) [] = Inr (0, k)"
    using assms getBlockHash_hash [of k] by (simp add: url_key_def)
qed

lemma empty_request_body:
  assumes "content_length r = Some (show_nat 0)" "memory_after r = [nul]"
  shows "string_of_ptr (fst (gstdin FETCH_STDIN_MAX r)) (memory_after r) = Inr []"
proof -
  have "gstdin FETCH_STDIN_MAX r = (Some [], 0)"
    using gstdin_exact [of r 0 FETCH_STDIN_MAX] assms(1) show_int_nat [of 0] by simp
  with assms(2) show ?thesis by (simp add: string_of_ptr_def c_str_def)
qed

context lockable_leveldb
begin

lemma gateway_fetch:
  assumes "url_key k"
  shows "\<exists>d'. n_dispatch (block_gateway L eth0) d h m (c_str (''/block_fetch?hash='' @ k)) [] =
      (d', cgi_result (case store d k of None \<Rightarrow> outputErrorLine ''Key does not exist''
                                       | Some v \<Rightarrow> fetch_header (length v) @ v)) \<and> store d' = store d"
proof -
  let ?r = "gateway_request (''/block_fetch?hash='' @ k) []"
  note path = gateway_path [OF assms] gateway_path [OF assms, simplified]
  have "string_of_ptr (fst (gstdin FETCH_STDIN_MAX ?r)) (memory_after ?r) = Inr []"
    by (rule empty_request_body) (simp_all add: gateway_request_def)
  moreover have "query_string ?r = Some (''hash='' @ k)"
    by (simp add: gateway_request_def path)
  ultimately obtain d' where "block_fetch_request L d ?r = Some (Inr (d', case store d k of
      None \<Rightarrow> outputErrorLine ''Key does not exist'' | Some v \<Rightarrow> fetch_header (length v) @ v))"
    "store d' = store d"
    using block_fetch_outcome [of ?r "[]" "''hash='' @ k" k d] gateway_path(5) [OF assms] by auto
  then show ?thesis by (simp add: path block_gateway_def)
qed

text \<open>A block posted to the block server is stored, also when the answer is an error page.\<close>

lemma gateway_store:
  assumes "url_key k" "length b \<le> STORE_STDIN_MAX" "getIPAddress eth0 [] = Inr (s, ip)"
  shows "\<exists>d' c page. n_dispatch (block_gateway L eth0) d h m (c_str (''/block_store?hash='' @ k)) b =
      (d', \<lparr>r_ok = True, r_code = c, r_type = Some ''text/html'', r_pieces = [page]\<rparr>) \<and>
    (s = 0 \<longrightarrow> prefix ''<html><p> 200 OK'' page) \<and> store d' = (store d)(k \<mapsto> b)"
proof -
  let ?r = "gateway_request (''/block_store?hash='' @ k) b"
  note path = gateway_path [OF assms(1)] gateway_path [OF assms(1), simplified]
  have "getRequestBody ?r = b"
    using getRequestBody_announced [of ?r "length b"] assms(2) by (simp add: gateway_request_def)
  moreover have "query_string ?r = Some (''hash='' @ k)"
    by (simp add: gateway_request_def path)
  ultimately obtain d' where "block_store_request L eth0 d ?r = Some (Inr (d', if s = 0
      then outputSuccessMessage k ip else errorPage ''Unable to retrieve IP address''))"
    "store d' = (store d)(k \<mapsto> b)"
    using block_store_outcome [OF _ gateway_path(5) [OF assms(1)] assms(3), of ?r d] by auto
  then show ?thesis
    using cgi_result_stored [of k ip] cgi_result_no_address
    by (auto simp: path block_gateway_def)
qed

end

sublocale lockable_leveldb \<subseteq> web: block_service "block_gateway L eth0" store url_key for eth0
proof unfold_locales
  fix k d v
  assume "url_key k" "store d k = Some v"
  with gateway_fetch [of k eth0 d] show "\<exists>h' t ps. n_dispatch (block_gateway L eth0) d (c_str block_ip) (c_str ''GET'')
        (c_str (''/block_fetch?hash='' @ k)) [] =
      (h', \<lparr>r_ok = True, r_code = 200, r_type = Some t, r_pieces = ps\<rparr>) \<and> CHR 0x0D \<notin> set t \<and> concat ps = v \<and> store h' = store d"
    by (fastforce simp: cgi_result_fetched)
next
  fix k d
  assume "url_key k" "store d k = None"
  with gateway_fetch [of k eth0 d] show "\<exists>h' c t ps. n_dispatch (block_gateway L eth0) d (c_str block_ip) (c_str ''GET'')
        (c_str (''/block_fetch?hash='' @ k)) [] =
      (h', \<lparr>r_ok = True, r_code = c, r_type = Some t, r_pieces = ps\<rparr>) \<and> c \<noteq> 200 \<and> 0 \<le> c \<and> store h' = store d"
    by (fastforce simp: cgi_result_failed)
qed

end
