(* ===== verification/Cache_Contract.thy ===== *)
theory Cache_Contract
  imports Cache_Workers Cache_Machine Block_Contract
begin

text \<open>
  A cache machine in front of the block server: the locale \<open>cache_node\<close> puts the contract of
  the helper and that of the block server together; what the fetch worker and the
  prefetcher do is proved in it, then that the programs of the repository provide it.
\<close>

section \<open>The cache in front of the block server\<close>

lemma not_status_200:
  assumes "c \<noteq> 200" "0 \<le> c"
  shows "show_int c \<noteq> ''200''"
proof
  assume "show_int c = ''200''"
  then have "show_nat (nat c) = show_nat (nat 200)" using assms(2) by (simp add: show_int_def) code_simp
  then show False using assms by (metis dec_value_show_nat int_nat_eq zero_le_numeral)
qed

lemma add_restrict: "(c ++ m |` A) k = (if k \<in> A \<and> m k \<noteq> None then m k else c k)"
  by (auto simp: map_add_def restrict_map_def split: option.split)

locale cache_node =
  cache: block_cache H contents ready +
  web: block_service X blocks served
  for H :: "'s leveldb_helper" and contents :: "'s \<Rightarrow> string \<rightharpoonup> string" and ready :: "'s \<Rightarrow> bool"
    and X :: "'h neon" and blocks :: "'h \<Rightarrow> string \<rightharpoonup> string" and served :: "string \<Rightarrow> bool"
begin

lemma answer_hit:
  assumes "ready s" "map_admitted (contents s)" "contents s k = Some v"
  shows "\<exists>s'. answer_block H X s h k = Inr (s', h, cached_reply v) \<and> ready s' \<and> contents s' = contents s"
proof -
  have k: "key_admitted k"
    using assms(2,3) entry_key unfolding map_admitted_def by blast
  obtain s1 where s1: "alreadyExists H s k = Inr (s1, True)" "ready s1" "contents s1 = contents s"
    using cache.alreadyExists_contents [OF assms(1,2) k] assms(3) by auto
  obtain s2 where "lh_get H s1 k [] = Inr (s2, 0, v)" "ready s2" "contents s2 = contents s"
    using cache.get_contents [OF s1(2) _ k, of "[]"] s1(3) assms(2,3) by auto
  with s1 show ?thesis by (simp add: answer_block_def)
qed

lemma answer_miss:
  assumes "ready s" "map_admitted (contents s)" "key_admitted k" "contents s k = None"
    and "requestFromBlockServer X h k [] [] [] = Inr (h', e, t, page, code)" "entry_admitted k page"
  shows "\<exists>s'. answer_block H X s h k = Inr (s', h', forwarded_reply code t page) \<and> ready s' \<and>
    contents s' = (contents s)(k \<mapsto> page)"
proof -
  obtain s1 where s1: "alreadyExists H s k = Inr (s1, False)" "ready s1" "contents s1 = contents s"
    using cache.alreadyExists_contents [OF assms(1-3)] assms(4) by auto
  obtain s2 where "lh_put H s1 k page = Inr (s2, 0)" "ready s2" "contents s2 = (contents s1)(k \<mapsto> page)"
    using cache.put_contents [OF s1(2) assms(6)] by blast
  with s1 assms(5) show ?thesis by (simp add: answer_block_def)
qed

text \<open>
  \<open>coherent s h\<close>: the cache is usable and every entry is the block of the block server.
  \<open>requestable h k\<close>: the block server holds \<open>k\<close>, and the protocol to the cache can carry it.
\<close>

definition coherent :: "'s \<Rightarrow> 'h \<Rightarrow> bool" where
  "coherent s h \<longleftrightarrow> ready s \<and> map_admitted (contents s) \<and> contents s \<subseteq>\<^sub>m blocks h"

definition requestable :: "'h \<Rightarrow> string \<Rightarrow> bool" where
  "requestable h k \<longleftrightarrow> served k \<and> (\<exists>b. blocks h k = Some b \<and> entry_admitted k b)"

definition right_answer :: "'h \<Rightarrow> string \<Rightarrow> string \<Rightarrow> bool" where
  "right_answer h k out \<longleftrightarrow>
     (\<exists>b. blocks h k = Some b \<and>
        (out = cached_reply b \<or> (\<exists>t. CHR 0x0D \<notin> set t \<and> out = forwarded_reply ''200'' t b)))"

lemma answer_held:
  assumes "coherent s h" "requestable h k"
  shows "\<exists>s' h' out. answer_block H X s h k = Inr (s', h', out) \<and> right_answer h k out \<and>
    coherent s' h' \<and> blocks h' = blocks h \<and> contents s' = (contents s)(k := blocks h k)"
proof -
  obtain b where b: "blocks h k = Some b" "entry_admitted k b" "served k"
    using assms(2) by (auto simp: requestable_def)
  show ?thesis
  proof (cases "contents s k")
    case None
    obtain h' t where h': "requestFromBlockServer X h k [] [] [] = Inr (h', 0, t, b, ''200'')"
      "blocks h' = blocks h" "CHR 0x0D \<notin> set t"
      using web.request_held [OF b(3,1)] by blast
    obtain s' where "answer_block H X s h k = Inr (s', h', forwarded_reply ''200'' t b)" "ready s'"
      "contents s' = (contents s)(k \<mapsto> b)"
      using answer_miss [OF _ _ _ None h'(1) b(2)] assms(1) entry_key [OF b(2)]
      by (auto simp: coherent_def)
    with h' b assms(1) show ?thesis
      by (auto simp: coherent_def right_answer_def map_admitted_upd map_le_def)
  next
    case (Some v)
    then have "v = b" using assms(1) b(1) by (force simp: coherent_def map_le_def)
    with Some obtain s' where "answer_block H X s h k = Inr (s', h, cached_reply b)" "ready s'"
      "contents s' = contents s"
      using answer_hit [of s k v h] assms(1) by (auto simp: coherent_def)
    with b Some \<open>v = b\<close> assms(1) show ?thesis
      by (auto simp: coherent_def right_answer_def fun_upd_idem)
  qed
qed

text \<open>A miss for a block the server lacks: the page is cached and then served as the block.\<close>

lemma poisoned:
  assumes "ready s" "map_admitted (contents s)" "contents s k = None" "served k" "blocks h k = None"
    and "\<And>h' e t page code. requestFromBlockServer X h k [] [] [] = Inr (h', e, t, page, code) \<Longrightarrow> entry_admitted k page"
  shows "\<exists>s1 h1 t page code s2. answer_block H X s h k = Inr (s1, h1, forwarded_reply code t page) \<and>
    code \<noteq> ''200'' \<and> answer_block H X s1 h1 k = Inr (s2, h1, cached_reply page)"
proof -
  obtain h1 t p c where h1: "requestFromBlockServer X h k [] [] [] = Inr (h1, 0, t, p, show_int c)"
    "c \<noteq> 200" "0 \<le> c"
    using web.fetch_not_held [OF assms(4,5)]
    by (auto simp: requestFromBlockServer_def sendHttpRequest_def Let_def)
  have p: "entry_admitted k p" using assms(6) [OF h1(1)] .
  obtain s1 where s1: "answer_block H X s h k = Inr (s1, h1, forwarded_reply (show_int c) t p)" "ready s1"
    "contents s1 = (contents s)(k \<mapsto> p)"
    using answer_miss [OF assms(1,2) entry_key [OF p] assms(3) h1(1) p] by blast
  obtain s2 where "answer_block H X s1 h1 k = Inr (s2, h1, cached_reply p)"
    using answer_hit [OF s1(2), of k p h1] s1(3) p assms(2) by (auto simp: map_admitted_upd)
  with s1 not_status_200 [OF h1(2,3)] show ?thesis by blast
qed

text \<open>The prefetcher adds exactly the blocks the block server holds.\<close>

lemma retrieve_effect:
  assumes "ready s" "map_admitted (contents s)"
    and "\<forall>k \<in> set ks. served k \<and> (\<forall>b. blocks h k = Some b \<longrightarrow> entry_admitted k b)"
  shows "\<exists>s' h'. retrieve H X s h ks = Inr (s', h') \<and> ready s' \<and> map_admitted (contents s') \<and> blocks h' = blocks h \<and>
    contents s' = contents s ++ blocks h |` set ks"
  using assms
proof (induction ks arbitrary: s h)
  case Nil
  then show ?case by (auto simp: restrict_map_def fun_eq_iff map_add_def)
next
  case (Cons k ks)
  then have k: "served k" by simp
  show ?case
  proof (cases "blocks h k")
    case None
    obtain h1 t p c where h1: "requestFromBlockServer X h k [] [] [] = Inr (h1, 0, t, p, show_int c)"
      "blocks h1 = blocks h" "c \<noteq> 200" "0 \<le> c"
      using web.fetch_not_held [OF k None]
      by (auto simp: requestFromBlockServer_def sendHttpRequest_def Let_def)
    from not_status_200 [OF h1(3,4)] have "retrieve H X s h (k # ks) = retrieve H X s h1 ks" using h1(1) by simp
    with Cons.IH [of s h1] Cons.prems h1(2) None show ?thesis
      by (auto simp: fun_eq_iff map_add_def restrict_map_def)
  next
    case (Some b)
    obtain h1 t where h1: "requestFromBlockServer X h k [] [] [] = Inr (h1, 0, t, b, ''200'')"
      "blocks h1 = blocks h"
      using web.request_held [OF k Some] by blast
    have b: "entry_admitted k b" using Cons.prems(3) Some by simp
    from cache.put_contents [OF Cons.prems(1) b] obtain s1 where
      s1: "lh_put H s k b = Inr (s1, 0)" "ready s1" "contents s1 = (contents s)(k \<mapsto> b)" by blast
    have "map_admitted (contents s1)" using map_admitted_upd [OF Cons.prems(2) b] s1(3) by simp
    with Cons.IH [of s1 h1] Cons.prems(3) s1(2) h1(2) obtain s' h' where
      "retrieve H X s1 h1 ks = Inr (s', h')" "ready s'" "map_admitted (contents s')" "blocks h' = blocks h"
      "contents s' = contents s1 ++ blocks h |` set ks" by auto
    moreover have "(contents s)(k \<mapsto> b) ++ blocks h |` set ks = contents s ++ blocks h |` set (k # ks)"
      using Some by (auto simp: fun_eq_iff map_add_def restrict_map_def split: option.splits)
    ultimately show ?thesis using h1(1) s1(1,3) by auto
  qed
qed

lemma retrieve_held:
  assumes "coherent s h" "\<forall>k \<in> set ks. served k \<and> (\<forall>b. blocks h k = Some b \<longrightarrow> entry_admitted k b)"
  shows "\<exists>s' h'. retrieve H X s h ks = Inr (s', h') \<and> coherent s' h' \<and> blocks h' = blocks h \<and>
    contents s' = contents s ++ blocks h |` set ks"
proof -
  have "contents s ++ blocks h |` set ks \<subseteq>\<^sub>m blocks h"
    using assms(1) unfolding map_le_def add_restrict by (auto simp: coherent_def map_le_def add_restrict split: if_splits)
  with retrieve_effect [OF _ _ assms(2), of s] assms(1) show ?thesis by (auto simp: coherent_def)
qed

end

section \<open>Storing through a cache machine\<close>

lemma HttpHelper_hash:
  assumes "url_key k" "CHR ''&'' \<notin> set k"
  shows "HttpHelper_getQueryParam (''hash='' @ k) ''hash'' v = Inr (0, k)"
proof -
  have "find_sub ''hash'' (''hash='' @ k) = Some 0"
    using find_sub_prefix [of "''hash''" "CHR ''='' # k"] by simp
  moreover have "upto_amp k = k" using assms(2) unfolding upto_amp_def by (auto intro: takeWhile_all)
  then have "value_after (''hash='' @ k) 0 = Some k"
    using value_after_name [of "''hash''" 0 k] by simp
  moreover have "short (''hash='' @ k)" using assms(1) by (simp add: url_key_def)
  ultimately show ?thesis
    using HttpHelper_text [of "''hash='' @ k" "''hash''" v] by (simp add: text_value_def)
qed

lemma url_key_amp: "url_key k \<Longrightarrow> CHR ''&'' \<notin> set k"
  by (auto simp: url_key_def)

context lockable_leveldb
begin

lemma cache_store_outcome:
  assumes "url_key k" "query_string r = Some (''hash='' @ k)" "length (stdin_bytes r) \<le> STORE_STDIN_MAX"
    and "getIPAddress eth0 [] = Inr (e, ip)"
  shows "\<exists>d' out. cache_block_store_request (block_gateway L eth0) d r = Inr (d', out) \<and>
    store d' = (store d)(k \<mapsto> stdin_bytes r)"
proof -
  have "HttpHelper_getQueryParam (''hash='' @ k) ''hash'' [] = Inr (0, k)"
    by (rule HttpHelper_hash [OF assms(1) url_key_amp [OF assms(1)]])
  with gateway_store [OF assms(1,3,4), of d "c_str block_ip" "c_str ''POST''"] assms(2) show ?thesis
    by (auto simp: cache_block_store_request_def storeToBlockServer_def sendHttpRequest_def read_stdin_all Let_def)
qed

end

section \<open>Runs of a cache machine\<close>

text \<open>
  The fetch worker and the prefetcher share the cache; whichever comes next works to the end
  of its request. An event records what was asked and what was answered.
\<close>

datatype cache_event = Fetched string string | Prefetched "string list"

inductive node_run ::
  "'s leveldb_helper \<Rightarrow> 'h neon \<Rightarrow> 's \<times> 'h \<Rightarrow> cache_event list \<Rightarrow> 's \<times> 'h \<Rightarrow> bool"
  for H :: "'s leveldb_helper" and X :: "'h neon" and st :: "'s \<times> 'h" where
  node_start: "node_run H X st [] st"
| node_fetch: "node_run H X st es (s, h) \<Longrightarrow> answer_block H X s h k = Inr (s', h', out) \<Longrightarrow>
     node_run H X st (es @ [Fetched k out]) (s', h')"
| node_prefetch: "node_run H X st es (s, h) \<Longrightarrow> retrieve H X s h ks = Inr (s', h') \<Longrightarrow>
     node_run H X st (es @ [Prefetched ks]) (s', h')"

inductive_cases node_run_nil: "node_run H X st [] st'"

text \<open>
  The requests of a run stay within what the cache protocol and the block server can carry: the
  keys are ones the block server is asked for, and the blocks it holds of them fit into a message.
\<close>

fun event_asks :: "cache_event \<Rightarrow> string set" where
  "event_asks (Fetched k out) = {k}"
| "event_asks (Prefetched ks) = set ks"

definition event_requestable :: "(string \<Rightarrow> bool) \<Rightarrow> (string \<rightharpoonup> string) \<Rightarrow> cache_event \<Rightarrow> bool" where
  "event_requestable served m e \<longleftrightarrow>
     (\<forall>k \<in> event_asks e. served k \<and> (\<forall>b. m k = Some b \<longrightarrow> entry_admitted k b))"

text \<open>
  \<open>page_of page m k\<close>: what a cache gets for \<open>k\<close> from a block server with the blocks \<open>m\<close>, which
  answers with \<open>page\<close> when it does not hold a block. \<open>reflects page m c\<close>: the cache \<open>c\<close> has nothing
  else.
\<close>

definition page_of :: "string \<Rightarrow> (string \<rightharpoonup> string) \<Rightarrow> string \<Rightarrow> string" where
  "page_of page m k = (case m k of None \<Rightarrow> page | Some b \<Rightarrow> b)"

definition reflects :: "string \<Rightarrow> (string \<rightharpoonup> string) \<Rightarrow> (string \<rightharpoonup> string) \<Rightarrow> bool" where
  "reflects page m c \<longleftrightarrow> (\<forall>k v. c k = Some v \<longrightarrow> v = page_of page m k)"

text \<open>A block the server holds is answered with status 200 and its content, another one with the error page.\<close>

fun event_right :: "string \<Rightarrow> (string \<rightharpoonup> string) \<Rightarrow> cache_event \<Rightarrow> bool" where
  "event_right page m (Fetched k out) =
     (case m k of
        Some b \<Rightarrow> out = cached_reply b \<or> (\<exists>t. out = forwarded_reply ''200'' t b)
      | None \<Rightarrow> out = cached_reply page \<or> (\<exists>code t. code \<noteq> ''200'' \<and> out = forwarded_reply code t page))"
| "event_right page m (Prefetched ks) = True"

fun event_keys :: "(string \<rightharpoonup> string) \<Rightarrow> cache_event \<Rightarrow> string set" where
  "event_keys m (Fetched k out) = {k}"
| "event_keys m (Prefetched ks) = set ks \<inter> dom m"

text \<open>The worker gets to the end of a request: it neither dies nor overruns a buffer.\<close>

fun node_takes :: "'s leveldb_helper \<Rightarrow> 'h neon \<Rightarrow> 's \<Rightarrow> 'h \<Rightarrow> cache_event \<Rightarrow> bool" where
  "node_takes H X s h (Fetched k out) = (\<exists>r. answer_block H X s h k = Inr r)"
| "node_takes H X s h (Prefetched ks) = (\<exists>r. retrieve H X s h ks = Inr r)"

text \<open>A block server that answers with the same page for every block it does not hold.\<close>

locale error_pages = cache_node H contents ready X blocks served
  for H :: "'s leveldb_helper" and contents :: "'s \<Rightarrow> string \<rightharpoonup> string" and ready :: "'s \<Rightarrow> bool"
    and X :: "'h neon" and blocks :: "'h \<Rightarrow> string \<rightharpoonup> string" and served :: "string \<Rightarrow> bool" +
  fixes page :: string
  assumes request_missing: "served k \<Longrightarrow> blocks h k = None \<Longrightarrow>
      \<exists>h' t code. requestFromBlockServer X h k [] [] [] = Inr (h', 0, t, page, code) \<and> code \<noteq> ''200'' \<and> blocks h' = blocks h"
    and page_admitted: "served k \<Longrightarrow> entry_admitted k page"
begin

definition filled :: "'s \<Rightarrow> 'h \<Rightarrow> bool" where
  "filled s h \<longleftrightarrow> ready s \<and> map_admitted (contents s) \<and> reflects page (blocks h) (contents s)"

lemma answer_filled:
  assumes "filled s h" "event_requestable served (blocks h) (Fetched k out0)"
  shows "\<exists>s' h' out. answer_block H X s h k = Inr (s', h', out) \<and> event_right page (blocks h) (Fetched k out) \<and>
    filled s' h' \<and> blocks h' = blocks h \<and> contents s' = (contents s)(k \<mapsto> page_of page (blocks h) k)"
proof -
  let ?p = "page_of page (blocks h) k"
  have k: "served k" "entry_admitted k ?p"
    using assms(2) page_admitted by (auto simp: event_requestable_def page_of_def split: option.split)
  have s: "ready s" "map_admitted (contents s)" "reflects page (blocks h) (contents s)"
    using assms(1) by (simp_all add: filled_def)
  show ?thesis
  proof (cases "contents s k")
    case None
    have "\<exists>h' t code. requestFromBlockServer X h k [] [] [] = Inr (h', 0, t, ?p, code) \<and> blocks h' = blocks h \<and>
      (code = ''200'' \<longleftrightarrow> blocks h k \<noteq> None)"
    proof (cases "blocks h k")
      case None
      from request_missing [OF k(1) this] None show ?thesis by (auto simp: page_of_def)
    next
      case (Some b)
      from web.request_held [OF k(1) this, of "[]" "[]"] Some show ?thesis by (auto simp: page_of_def)
    qed
    then obtain h' t code where h': "requestFromBlockServer X h k [] [] [] = Inr (h', 0, t, ?p, code)"
      "blocks h' = blocks h" "code = ''200'' \<longleftrightarrow> blocks h k \<noteq> None" by blast
    obtain s' where "answer_block H X s h k = Inr (s', h', forwarded_reply code t ?p)" "ready s'"
      "contents s' = (contents s)(k \<mapsto> ?p)"
      using answer_miss [OF s(1,2) entry_key [OF k(2)] None h'(1) k(2)] by blast
    moreover have "event_right page (blocks h) (Fetched k (forwarded_reply code t ?p))"
      using h'(3) by (auto simp: page_of_def split: option.split)
    moreover have "reflects page (blocks h) ((contents s)(k \<mapsto> ?p))" using s(3) by (auto simp: reflects_def)
    ultimately show ?thesis
      using h'(2) map_admitted_upd [OF s(2) k(2)]
      by (intro exI [of _ s'] exI [of _ h'] exI [of _ "forwarded_reply code t ?p"]) (simp add: filled_def del: event_right.simps)
  next
    case (Some v)
    then have v: "v = ?p" using s(3) by (simp add: reflects_def)
    obtain s' where "answer_block H X s h k = Inr (s', h, cached_reply ?p)" "ready s'" "contents s' = contents s"
      using answer_hit [OF s(1,2) Some] v by blast
    moreover have "event_right page (blocks h) (Fetched k (cached_reply ?p))"
      by (auto simp: page_of_def split: option.split)
    moreover have "(contents s)(k \<mapsto> ?p) = contents s" using Some v by (simp add: fun_upd_idem)
    ultimately show ?thesis
      using s by (intro exI [of _ s'] exI [of _ h] exI [of _ "cached_reply ?p"]) (simp add: filled_def del: event_right.simps)
  qed
qed

lemma node_run_invariant:
  assumes "node_run H X (s0, h0) es (s, h)" "filled s0 h0"
    and "\<forall>e \<in> set es. event_requestable served (blocks h0) e"
  shows "filled s h \<and> blocks h = blocks h0 \<and> (\<forall>e \<in> set es. event_right page (blocks h0) e) \<and>
    dom (contents s) = dom (contents s0) \<union> (\<Union>e \<in> set es. event_keys (blocks h0) e)"
  using assms
proof (induction es "(s, h)" arbitrary: s h rule: node_run.induct)
  case node_start
  then show ?case by simp
next
  case (node_fetch es s h k s' h' out)
  then have IH: "filled s h" "blocks h = blocks h0" "\<forall>e \<in> set es. event_right page (blocks h0) e"
    "dom (contents s) = dom (contents s0) \<union> (\<Union>e \<in> set es. event_keys (blocks h0) e)"
    by auto
  have "event_requestable served (blocks h) (Fetched k out)" using node_fetch.prems(2) IH(2) by simp
  with answer_filled [OF IH(1) this] node_fetch.hyps(3) have
    "event_right page (blocks h) (Fetched k out)" "filled s' h'" "blocks h' = blocks h"
    "contents s' = (contents s)(k \<mapsto> page_of page (blocks h) k)" by auto
  with IH show ?case by (auto simp del: event_right.simps)
next
  case (node_prefetch es s h ks s' h')
  then have IH: "filled s h" "blocks h = blocks h0" "\<forall>e \<in> set es. event_right page (blocks h0) e"
    "dom (contents s) = dom (contents s0) \<union> (\<Union>e \<in> set es. event_keys (blocks h0) e)"
    by auto
  have "\<forall>k \<in> set ks. served k \<and> (\<forall>b. blocks h k = Some b \<longrightarrow> entry_admitted k b)"
    using node_prefetch.prems(2) IH(2) by (simp add: event_requestable_def)
  from retrieve_effect [OF _ _ this, of s] IH(1) node_prefetch.hyps(3) have
    a: "ready s'" "map_admitted (contents s')" "blocks h' = blocks h" "contents s' = contents s ++ blocks h |` set ks"
    by (auto simp: filled_def)
  have "reflects page (blocks h) (contents s')"
    using IH(1) unfolding a(4) reflects_def add_restrict filled_def by (auto simp: page_of_def)
  moreover have "dom (contents s') = dom (contents s) \<union> (set ks \<inter> dom (blocks h0))"
    using a(4) IH(2) by auto
  ultimately show ?case using a(1-3) IH by (auto simp: filled_def)
qed

lemma takes_next:
  assumes "filled s h" "event_requestable served (blocks h) e"
  shows "node_takes H X s h e"
proof (cases e)
  case (Fetched k out)
  with answer_filled [OF assms(1), of k out] assms(2) show ?thesis by auto
next
  case (Prefetched ks)
  have "ready s" "map_admitted (contents s)" using assms(1) by (simp_all add: filled_def)
  from retrieve_effect [OF this, of ks h] Prefetched assms(2) show ?thesis by (auto simp: event_requestable_def)
qed

end

section \<open>The programs of the repository provide it\<close>

text \<open>
  A cache machine over the database \<open>L\<close> and the block server over the database \<open>B\<close>, reached
  through the web server.
\<close>

locale deployment =
  local: healthy_leveldb L store usable +
  remote: lockable_leveldb B bstore busable tries
  for L :: "'d leveldb" and store :: "'d \<Rightarrow> string \<rightharpoonup> string" and usable :: "'d \<Rightarrow> bool"
    and B :: "'b leveldb" and bstore :: "'b \<Rightarrow> string \<rightharpoonup> string" and busable :: "'b \<Rightarrow> bool"
    and tries :: "'b \<Rightarrow> nat"

sublocale deployment \<subseteq> node: cache_node "machine L junk" "machine_contents store" "machine_ready usable"
    "block_gateway B eth0" bstore url_key for junk eth0 ..

text \<open>The page of the block server for a block it does not hold.\<close>

definition missing_page :: string where
  "missing_page = ''<html><p>400 Key does not exist</p></html>'' @ [CHR 0x0A]"

lemma missing_page_admitted: "url_key k \<Longrightarrow> entry_admitted k missing_page"
  by (auto simp: url_key_def entry_admitted_def key_ok_def fits_def put_command_def missing_page_def MSG_SIZE_def)

sublocale deployment \<subseteq> pages: error_pages "machine L junk" "machine_contents store" "machine_ready usable"
    "block_gateway B eth0" bstore url_key missing_page for junk eth0
proof unfold_locales
  fix k h
  assume k: "url_key k" "bstore h k = None"
  then obtain h' where "n_dispatch (block_gateway B eth0) h (c_str block_ip) (c_str ''GET'')
      (c_str (''/block_fetch?hash='' @ k)) [] = (h', cgi_result (outputErrorLine ''Key does not exist''))" "bstore h' = bstore h"
    using remote.gateway_fetch [OF k(1), of eth0 h "c_str block_ip" "c_str ''GET''"] by auto
  then have "requestFromBlockServer (block_gateway B eth0) h k [] [] [] = Inr (h', 0, ''text/html'', missing_page, show_int 400)"
    by (simp add: requestFromBlockServer_def sendHttpRequest_def Let_def cgi_result_failed missing_page_def)
  with not_status_200 [of 400] \<open>bstore h' = bstore h\<close> show "\<exists>h' t code.
      requestFromBlockServer (block_gateway B eth0) h k [] [] [] = Inr (h', 0, t, missing_page, code) \<and>
      code \<noteq> ''200'' \<and> bstore h' = bstore h" by auto
qed (rule missing_page_admitted)

context deployment
begin

lemma machine_run:
  assumes "node_run (machine L junk) (block_gateway B eth0) (s0, h0) es (s, h)"
    and "machine_ready usable s0" "map_admitted (machine_contents store s0)"
    and "reflects missing_page (bstore h0) (machine_contents store s0)"
    and "\<forall>e \<in> set es. event_requestable url_key (bstore h0) e"
  shows "(\<forall>e \<in> set es. event_right missing_page (bstore h0) e) \<and>
    reflects missing_page (bstore h) (machine_contents store s) \<and> bstore h = bstore h0 \<and>
    dom (machine_contents store s) = dom (machine_contents store s0) \<union> (\<Union>e \<in> set es. event_keys (bstore h0) e) \<and>
    (\<forall>e. event_requestable url_key (bstore h0) e \<longrightarrow> node_takes (machine L junk) (block_gateway B eth0) s h e)"
proof -
  have "pages.filled s0 h0" using assms(2-4) by (simp add: pages.filled_def)
  note run = pages.node_run_invariant [OF assms(1) this assms(5)]
  then have "\<forall>e. event_requestable url_key (bstore h0) e \<longrightarrow> node_takes (machine L junk) (block_gateway B eth0) s h e"
    by (simp add: pages.takes_next)
  with run show ?thesis by (auto simp: pages.filled_def)
qed

text \<open>
  A block stored through one cache machine is what another one answers with, unless that one
  already holds something else under the name.
\<close>

lemma store_then_answer:
  assumes "url_key k" "query_string r = Some (''hash='' @ k)" "length (stdin_bytes r) \<le> STORE_STDIN_MAX"
    and "getIPAddress eth0 [] = Inr (e, ip)" "entry_admitted k (stdin_bytes r)"
    and "machine_ready usable s" "map_admitted (machine_contents store s)"
    and "machine_contents store s \<subseteq>\<^sub>m (bstore h)(k \<mapsto> stdin_bytes r)"
  shows "\<exists>h1 page s2 h2 out.
    cache_block_store_request (block_gateway B eth0) h r = Inr (h1, page) \<and>
    bstore h1 = (bstore h)(k \<mapsto> stdin_bytes r) \<and>
    answer_block (machine L junk) (block_gateway B eth0) s h1 k = Inr (s2, h2, out) \<and>
    (out = cached_reply (stdin_bytes r) \<or> (\<exists>t. out = forwarded_reply ''200'' t (stdin_bytes r)))"
proof -
  obtain h1 page where h1: "cache_block_store_request (block_gateway B eth0) h r = Inr (h1, page)"
    "bstore h1 = (bstore h)(k \<mapsto> stdin_bytes r)"
    using remote.cache_store_outcome [OF assms(1-4)] by blast
  have "node.coherent s h1" "node.requestable h1 k"
    using assms(1,5-8) h1(2) by (simp_all add: node.coherent_def node.requestable_def)
  from node.answer_held [OF this, of junk eth0] h1(2)
  obtain s2 h2 out where "answer_block (machine L junk) (block_gateway B eth0) s h1 k = Inr (s2, h2, out)"
    "out = cached_reply (stdin_bytes r) \<or> (\<exists>t. out = forwarded_reply ''200'' t (stdin_bytes r))"
    by (auto simp: node.right_answer_def)
  with h1 show ?thesis by metis
qed

end

interpretation ref_deployment: deployment ref_leveldb ref_store opened ref_leveldb ref_store opened busy ..

text \<open>With it the two contracts a cache machine joins hold of the code of both sides.\<close>

interpretation ref_cache: block_cache "machine ref_leveldb junk" "machine_contents ref_store" "machine_ready opened"
  for junk
  by (rule ref_kv.machine.block_cache_axioms)

interpretation ref_web: block_service "block_gateway ref_leveldb eth0" ref_store url_key for eth0
  by (rule ref_kv.web.block_service_axioms)

interpretation ref_node: cache_node "machine ref_leveldb junk" "machine_contents ref_store" "machine_ready opened"
  "block_gateway ref_leveldb eth0" ref_store url_key for junk eth0
  by (rule ref_deployment.node.cache_node_axioms)

interpretation ref_pages: error_pages "machine ref_leveldb junk" "machine_contents ref_store" "machine_ready opened"
  "block_gateway ref_leveldb eth0" ref_store url_key missing_page for junk eth0
  by (rule ref_deployment.pages.error_pages_axioms)

end
