(* ===== verification/Mysql_Client.thy ===== *)
theory Mysql_Client
  imports Cstring
begin

text \<open>
  The MySQL server and its C client library, which are not part of the repository: the
  calls \<open>metadata/src/mysql_helper.cc\<close> makes are the fields of a record, an argument of
  every definition that uses them. What the helper relies on is stated as the locale
  \<open>mysql\<close>, over the text of the SQL statements and the tables of
  \<open>metadata/scripts/create.sql\<close>.
\<close>

section \<open>The client calls\<close>

type_synonym row = "string option list"

text \<open>
  The type variable \<open>'c\<close> is the state of the connection and of the server behind it.
  A result set is the list of its rows, a cell \<open>None\<close> for SQL \<open>NULL\<close>. The last field is no call:
  \<open>mysql_free_result\<close> of a pointer that was never assigned does nothing when the pointer happens to
  be null and is undefined otherwise.
\<close>

record 'c mysql_api =
  my_init :: "'c \<Rightarrow> 'c \<times> bool"                     \<comment> \<open>\<open>mysql_init\<close>: is the handle non-null?\<close>
  my_real_connect ::
    "'c \<Rightarrow> string \<Rightarrow> string \<Rightarrow> string \<Rightarrow> string \<Rightarrow> 32 word \<Rightarrow> 'c \<times> bool"  \<comment> \<open>is the result non-null?\<close>
  my_errno :: "bool \<Rightarrow> 'c \<Rightarrow> int"                   \<comment> \<open>\<open>mysql_errno\<close> of a non-null or null handle\<close>
  my_query :: "'c \<Rightarrow> string \<Rightarrow> 'c \<times> int"
  my_store_result :: "'c \<Rightarrow> 'c \<times> row list option"
  my_close :: "'c \<Rightarrow> 'c"
  my_unset_null :: "'c \<Rightarrow> bool"                  \<comment> \<open>is a \<open>MYSQL_RES *\<close> that was never assigned null by chance?\<close>

section \<open>The tables\<close>

text \<open>
  \<open>FileBlock\<close> and \<open>UserCache\<close>. A table is a bag of rows. \<open>version\<close> is nullable.
\<close>

record fb_row =
  fb_user :: string
  fb_file :: string
  fb_hash :: string
  fb_num :: nat
  fb_time :: nat
  fb_version :: "nat option"

record uc_row =
  uc_user :: string
  uc_cache :: string

record db =
  fileblock :: "fb_row multiset"
  usercache :: "uc_row multiset"

section \<open>The statements\<close>

text \<open>
  A condition compares a column with a string literal; a \<open>WHERE\<close> clause is a disjunction
  of conjunctions of conditions (\<open>AND\<close> binds tighter than \<open>OR\<close>).
\<close>

datatype column = User_Id | File_Name | Block_Hash | Cache_Server_Ip

fun column_name :: "column \<Rightarrow> string" where
  "column_name User_Id = ''user_id''"
| "column_name File_Name = ''file_name''"
| "column_name Block_Hash = ''block_hash''"
| "column_name Cache_Server_Ip = ''cache_server_ip''"

type_synonym condition = "column \<times> string"
type_synonym where_clause = "condition list list"

datatype stmt =
    Count_Blocks where_clause
  | Select_Version where_clause
  | Select_Blocks where_clause
  | Select_Names where_clause
  | Select_Recent where_clause int
  | Select_Caches where_clause int
  | Insert_Block string string string int int
  | Insert_Cache string string
  | Delete_Blocks where_clause
  | Delete_Caches where_clause

definition quoted :: "string \<Rightarrow> string" where
  "quoted v = CHR 0x27 # v @ [CHR 0x27]"

fun join :: "string \<Rightarrow> string list \<Rightarrow> string" where
  "join sep [] = []"
| "join sep [x] = x"
| "join sep (x # y # zs) = x @ sep @ join sep (y # zs)"

fun condition_text :: "condition \<Rightarrow> string" where
  "condition_text (c, v) = column_name c @ ''='' @ quoted v"

definition where_text :: "where_clause \<Rightarrow> string" where
  "where_text w = join '' OR '' (map (\<lambda>cs. join '' AND '' (map condition_text cs)) w)"

fun sql_text :: "stmt \<Rightarrow> string" where
  "sql_text (Count_Blocks w) = ''SELECT COUNT(*) FROM FileBlock WHERE '' @ where_text w"
| "sql_text (Select_Version w) = ''SELECT version FROM FileBlock WHERE '' @ where_text w"
| "sql_text (Select_Blocks w) =
     ''SELECT block_hash,version FROM FileBlock WHERE '' @ where_text w @
     '' ORDER BY block_number ASC''"
| "sql_text (Select_Names w) = ''SELECT DISTINCT file_name,version FROM FileBlock WHERE '' @ where_text w"
| "sql_text (Select_Recent w n) =
     ''SELECT block_hash FROM FileBlock WHERE '' @ where_text w @
     '' ORDER BY block_number ASC,time_last_accessed DESC LIMIT '' @ show_int n"
| "sql_text (Select_Caches w n) =
     ''SELECT cache_server_ip FROM UserCache WHERE '' @ where_text w @ '' LIMIT '' @ show_int n"
| "sql_text (Insert_Block u f h i v) =
     ''INSERT INTO FileBlock(user_id, file_name, block_hash, block_number, version) VALUES('' @
     quoted u @ '','' @ quoted f @ '','' @ quoted h @ '','' @ show_int i @ '','' @ show_int v @ '')''"
| "sql_text (Insert_Cache u a) =
     ''INSERT INTO UserCache(user_id, cache_server_ip) VALUES('' @ quoted u @ '','' @ quoted a @ '')''"
| "sql_text (Delete_Blocks w) = ''DELETE FROM FileBlock WHERE '' @ where_text w"
| "sql_text (Delete_Caches w) = ''DELETE FROM UserCache WHERE '' @ where_text w"

section \<open>Which statements the text denotes faithfully\<close>

text \<open>
  Inside a string literal every byte but the quote, the backslash and NUL stands for
  itself; the development stays with printable ASCII. The columns hold at most 100 (hashes
  64) characters, and \<open>CHAR\<close> values lose trailing spaces. Integer columns are 32 bits,
  unsigned.
\<close>

definition printable :: "char \<Rightarrow> bool" where
  "printable c \<longleftrightarrow> 32 \<le> (of_char c :: nat) \<and> (of_char c :: nat) < 127"

definition clean :: "string \<Rightarrow> bool" where
  "clean s \<longleftrightarrow> (\<forall>c \<in> set s. printable c \<and> c \<noteq> CHR 0x27 \<and> c \<noteq> CHR 0x5C)"

definition name_ok :: "string \<Rightarrow> bool" where
  "name_ok s \<longleftrightarrow> clean s \<and> length s \<le> 100"

definition hash_ok :: "string \<Rightarrow> bool" where
  "hash_ok s \<longleftrightarrow> clean s \<and> length s \<le> 64 \<and> (s \<noteq> [] \<longrightarrow> last s \<noteq> CHR '' '')"

definition uint_ok :: "int \<Rightarrow> bool" where
  "uint_ok i \<longleftrightarrow> 0 \<le> i \<and> i < 2 ^ 32"

definition where_ok :: "column set \<Rightarrow> where_clause \<Rightarrow> bool" where
  "where_ok C w \<longleftrightarrow> w \<noteq> [] \<and> (\<forall>cs \<in> set w. cs \<noteq> [] \<and> (\<forall>(c, v) \<in> set cs. c \<in> C \<and> clean v))"

definition fb_columns :: "column set" where
  "fb_columns = {User_Id, File_Name, Block_Hash}"

definition uc_columns :: "column set" where
  "uc_columns = {User_Id, Cache_Server_Ip}"

fun stmt_ok :: "stmt \<Rightarrow> bool" where
  "stmt_ok (Count_Blocks w) = where_ok fb_columns w"
| "stmt_ok (Select_Version w) = where_ok fb_columns w"
| "stmt_ok (Select_Blocks w) = where_ok fb_columns w"
| "stmt_ok (Select_Names w) = where_ok fb_columns w"
| "stmt_ok (Select_Recent w n) = (where_ok fb_columns w \<and> uint_ok n)"
| "stmt_ok (Select_Caches w n) = (where_ok uc_columns w \<and> uint_ok n)"
| "stmt_ok (Insert_Block u f h i v) = (name_ok u \<and> name_ok f \<and> hash_ok h \<and> uint_ok i \<and> uint_ok v)"
| "stmt_ok (Insert_Cache u a) = (name_ok u \<and> name_ok a)"
| "stmt_ok (Delete_Blocks w) = where_ok fb_columns w"
| "stmt_ok (Delete_Caches w) = where_ok uc_columns w"

fun negative_limit :: "stmt \<Rightarrow> bool" where
  "negative_limit (Select_Recent w n) = (where_ok fb_columns w \<and> n < 0)"
| "negative_limit (Select_Caches w n) = (where_ok uc_columns w \<and> n < 0)"
| "negative_limit _ = False"

fun is_select :: "stmt \<Rightarrow> bool" where
  "is_select (Insert_Block u f h i v) = False"
| "is_select (Insert_Cache u a) = False"
| "is_select (Delete_Blocks w) = False"
| "is_select (Delete_Caches w) = False"
| "is_select _ = True"

section \<open>What the statements mean\<close>

text \<open>
  Strings are compared with the collation \<open>coll\<close> of the tables, which need not be equality
  (the default one ignores case). The order of a result is fixed only by \<open>ORDER BY\<close>; rows that
  tie may come in any order.
\<close>

fun fb_cell :: "fb_row \<Rightarrow> column \<Rightarrow> string" where
  "fb_cell r User_Id = fb_user r"
| "fb_cell r File_Name = fb_file r"
| "fb_cell r Block_Hash = fb_hash r"
| "fb_cell r Cache_Server_Ip = []"

fun uc_cell :: "uc_row \<Rightarrow> column \<Rightarrow> string" where
  "uc_cell r User_Id = uc_user r"
| "uc_cell r Cache_Server_Ip = uc_cache r"
| "uc_cell r _ = []"

definition matches :: "(string \<Rightarrow> string \<Rightarrow> bool) \<Rightarrow> ('r \<Rightarrow> column \<Rightarrow> string) \<Rightarrow> where_clause \<Rightarrow> 'r \<Rightarrow> bool" where
  "matches coll cell w r \<longleftrightarrow> (\<exists>cs \<in> set w. \<forall>(c, v) \<in> set cs. coll (cell r c) v)"

definition version_cell :: "nat option \<Rightarrow> string option" where
  "version_cell v = map_option show_nat v"

definition name_row :: "fb_row \<Rightarrow> row" where
  "name_row r = [Some (fb_file r), version_cell (fb_version r)]"

definition same_name :: "(string \<Rightarrow> string \<Rightarrow> bool) \<Rightarrow> row \<Rightarrow> row \<Rightarrow> bool" where
  "same_name coll a b \<longleftrightarrow> (\<exists>f g v. a = [Some f, v] \<and> b = [Some g, v] \<and> coll f g)"

definition recent_order :: "fb_row \<Rightarrow> fb_row \<Rightarrow> bool" where
  "recent_order a b \<longleftrightarrow> fb_num a < fb_num b \<or> fb_num a = fb_num b \<and> fb_time b \<le> fb_time a"

fun sql_sem :: "(string \<Rightarrow> string \<Rightarrow> bool) \<Rightarrow> stmt \<Rightarrow> db \<Rightarrow> db \<Rightarrow> row list \<Rightarrow> bool" where
  "sql_sem coll (Count_Blocks w) d d' rs \<longleftrightarrow>
     d' = d \<and> rs = [[Some (show_nat (size (filter_mset (matches coll fb_cell w) (fileblock d))))]]"
| "sql_sem coll (Select_Version w) d d' rs \<longleftrightarrow>
     d' = d \<and> mset rs = image_mset (\<lambda>r. [version_cell (fb_version r)])
                          (filter_mset (matches coll fb_cell w) (fileblock d))"
| "sql_sem coll (Select_Blocks w) d d' rs \<longleftrightarrow>
     d' = d \<and> (\<exists>xs. mset xs = filter_mset (matches coll fb_cell w) (fileblock d) \<and>
                 sorted (map fb_num xs) \<and>
                 rs = map (\<lambda>r. [Some (fb_hash r), version_cell (fb_version r)]) xs)"
| "sql_sem coll (Select_Names w) d d' rs \<longleftrightarrow>
     d' = d \<and> (let sel = name_row ` set_mset (filter_mset (matches coll fb_cell w) (fileblock d))
               in set rs \<subseteq> sel \<and> (\<forall>a \<in> sel. \<exists>b \<in> set rs. same_name coll a b) \<and>
                  distinct rs \<and> (\<forall>a \<in> set rs. \<forall>b \<in> set rs. same_name coll a b \<longrightarrow> a = b))"
| "sql_sem coll (Select_Recent w n) d d' rs \<longleftrightarrow>
     d' = d \<and> (\<exists>xs. mset xs = filter_mset (matches coll fb_cell w) (fileblock d) \<and>
                 sorted_wrt recent_order xs \<and>
                 rs = map (\<lambda>r. [Some (fb_hash r)]) (take (nat n) xs))"
| "sql_sem coll (Select_Caches w n) d d' rs \<longleftrightarrow>
     d' = d \<and> (\<exists>xs. mset xs = filter_mset (matches coll uc_cell w) (usercache d) \<and>
                 rs = map (\<lambda>r. [Some (uc_cache r)]) (take (nat n) xs))"
| "sql_sem coll (Insert_Block u f h i v) d d' rs \<longleftrightarrow>
     rs = [] \<and> (\<exists>t. d' = d\<lparr>fileblock := add_mset
       \<lparr>fb_user = u, fb_file = f, fb_hash = h, fb_num = nat i, fb_time = t,
        fb_version = Some (nat v)\<rparr> (fileblock d)\<rparr>)"
| "sql_sem coll (Insert_Cache u a) d d' rs \<longleftrightarrow>
     rs = [] \<and> d' = d\<lparr>usercache := add_mset \<lparr>uc_user = u, uc_cache = a\<rparr> (usercache d)\<rparr>"
| "sql_sem coll (Delete_Blocks w) d d' rs \<longleftrightarrow>
     rs = [] \<and> d' = d\<lparr>fileblock := filter_mset (\<lambda>r. \<not> matches coll fb_cell w r) (fileblock d)\<rparr>"
| "sql_sem coll (Delete_Caches w) d d' rs \<longleftrightarrow>
     rs = [] \<and> d' = d\<lparr>usercache := filter_mset (\<lambda>r. \<not> matches coll uc_cell w r) (usercache d)\<rparr>"

section \<open>What the helper relies on\<close>

text \<open>
  \<open>tables c\<close>: the tables in state \<open>c\<close>. \<open>pending c\<close>: the result set the last successful
  \<open>SELECT\<close> left to be stored. A statement of the fragment either runs (its meaning holds
  between the tables before and after) or fails and changes nothing; error numbers are at
  least 1000; a negative \<open>LIMIT\<close> is a syntax error.
\<close>

locale mysql =
  fixes M :: "'c mysql_api"
    and tables :: "'c \<Rightarrow> db"
    and pending :: "'c \<Rightarrow> row list"
    and coll :: "string \<Rightarrow> string \<Rightarrow> bool"
  assumes coll_refl: "coll x x"
    and coll_sym: "coll x y \<Longrightarrow> coll y x"
    and coll_trans: "coll x y \<Longrightarrow> coll y z \<Longrightarrow> coll x z"
    and query_runs: "stmt_ok st \<Longrightarrow> my_query M c (sql_text st) = (c', 0) \<Longrightarrow>
           sql_sem coll st (tables c) (tables c') (pending c')"
    and query_fails: "my_query M c q = (c', e) \<Longrightarrow> e \<noteq> 0 \<Longrightarrow>
           tables c' = tables c \<and> 1000 \<le> my_errno M True c'"
    and store_runs: "my_store_result M c = (c', Some rs) \<Longrightarrow> tables c' = tables c \<and> rs = pending c"
    and store_fails: "my_store_result M c = (c', None) \<Longrightarrow>
           tables c' = tables c \<and> 1000 \<le> my_errno M True c'"
    and negative_limit_fails: "negative_limit st \<Longrightarrow> my_query M c (sql_text st) = (c', e) \<Longrightarrow> e \<noteq> 0"
    and init_tables: "tables (fst (my_init M c)) = tables c"
    and connect_tables: "tables (fst (my_real_connect M c h u p d n)) = tables c"
    and close_tables: "tables (my_close M c) = tables c"

text \<open>
  A server that is up: opening a connection succeeds (\<open>up\<close> then holds), and on an open
  connection the statements of the fragment do not fail.
\<close>

locale reliable_mysql = mysql +
  fixes up :: "'a \<Rightarrow> bool"
  assumes init_succeeds: "snd (my_init M c)"
    and connect_succeeds: "\<exists>c'. my_real_connect M c h u p d n = (c', True) \<and> up c'"
    and query_succeeds: "up c \<Longrightarrow> stmt_ok st \<Longrightarrow> \<exists>c'. my_query M c (sql_text st) = (c', 0) \<and> up c'"
    and store_succeeds: "up c \<Longrightarrow> stmt_ok st \<Longrightarrow> is_select st \<Longrightarrow> my_query M c (sql_text st) = (c', 0) \<Longrightarrow>
           \<exists>c'' rs. my_store_result M c' = (c'', Some rs) \<and> up c''"

end
