(* ===== verification/Mysql_Helper.thy ===== *)
theory Mysql_Helper
  imports Mysql_Client
begin

text \<open>
  The class \<open>MySQLHelper\<close> of \<open>metadata/src/mysql_helper.cc\<close>: every operation builds the
  text of its SQL statements and walks the result rows. A helper is a connection state
  \<open>c\<close> and the flag \<open>h\<close>: is the handle \<open>m_conn\<close> non-null? The integer result codes are
  \<open>int\<close>; out-parameters are returned beside them.
\<close>

section \<open>The operations\<close>

definition DBHOST :: string where "DBHOST = ''127.0.0.1''"
definition PORT :: "32 word" where "PORT = 3306"
definition USER :: string where "USER = ''cs188''"
definition PASSWORD :: string where "PASSWORD = []"
definition DATABASE :: string where "DATABASE = ''test''"
definition EVERS :: int where "EVERS = 1"

text \<open>The class has its own copy of the conversion; unsigned values pass through \<open>int\<close>.\<close>

definition MySQLHelper_intToStr :: "int \<Rightarrow> string" where
  [simp]: "MySQLHelper_intToStr i = show_int i"

definition connect_to ::
  "'c mysql_api \<Rightarrow> 'c \<Rightarrow> string \<Rightarrow> 32 word \<Rightarrow> string \<Rightarrow> string \<Rightarrow> string \<Rightarrow> 'c \<times> bool \<times> int" where
  "connect_to M c host port db user pass =
     (case my_init M c of (c1, h) \<Rightarrow>
        if \<not> h then (c1, False, my_errno M False c1)
        else case my_real_connect M c1 host user pass db port of (c2, ok) \<Rightarrow>
          if \<not> ok then (c2, True, my_errno M True c2) else (c2, True, 0))"

definition connect :: "'c mysql_api \<Rightarrow> 'c \<Rightarrow> 'c \<times> bool \<times> int" where
  "connect M c = connect_to M c DBHOST PORT DATABASE USER PASSWORD"

definition close :: "'c mysql_api \<Rightarrow> 'c \<Rightarrow> 'c \<times> int" where
  "close M c = (my_close M c, 0)"

text \<open>
  \<open>run_statement\<close>: \<open>mysql_query\<close> and the return of \<open>mysql_errno\<close> when it fails.
  \<open>fetch_rows\<close>: the same for a \<open>SELECT\<close>, followed by \<open>mysql_store_result\<close> and its
  error return.
\<close>

definition run_statement :: "'c mysql_api \<Rightarrow> bool \<Rightarrow> 'c \<Rightarrow> string \<Rightarrow> ('c \<times> int) exec" where
  "run_statement M h c q =
     (if \<not> h then Inl Null_Pointer
      else case my_query M c (c_str q) of (c1, r) \<Rightarrow>
        Inr (c1, if r \<noteq> 0 then my_errno M True c1 else 0))"

definition fetch_rows :: "'c mysql_api \<Rightarrow> bool \<Rightarrow> 'c \<Rightarrow> string \<Rightarrow> ('c \<times> (int + row list)) exec" where
  "fetch_rows M h c q =
     (if \<not> h then Inl Null_Pointer
      else case my_query M c (c_str q) of (c1, r) \<Rightarrow>
        if r \<noteq> 0 then Inr (c1, Inl (my_errno M True c1))
        else case my_store_result M c1 of
            (c2, None) \<Rightarrow> Inr (c2, Inl (my_errno M True c2))
          | (c2, Some rs) \<Rightarrow> Inr (c2, Inr rs))"

definition cell :: "row \<Rightarrow> nat \<Rightarrow> string exec" where
  "cell r i = (if i < length r
               then (case r ! i of None \<Rightarrow> Inl Null_Pointer | Some s \<Rightarrow> Inr s)
               else Inl Out_Of_Range)"

text \<open>
  \<open>getMissingBlockHashes\<close> frees the last result set after the loop; when the vector of
  hashes is empty the pointer it frees was never assigned. Unless it happens to be null that is
  undefined behaviour, for which the model has the death of the process.
\<close>

fun missing_loop ::
  "'c mysql_api \<Rightarrow> bool \<Rightarrow> 'c \<Rightarrow> string list \<Rightarrow> string list \<Rightarrow> ('c \<times> int \<times> string list) exec" where
  "missing_loop M h c [] missingHashes = Inr (c, 0, missingHashes)"
| "missing_loop M h c (x # xs) missingHashes =
     bind_exec (fetch_rows M h c (''SELECT COUNT(*) FROM FileBlock WHERE block_hash='' @ quoted x))
       (\<lambda>(c', r). case r of
          Inl e \<Rightarrow> Inr (c', e, missingHashes)
        | Inr [] \<Rightarrow> missing_loop M h c' xs missingHashes
        | Inr (row # _) \<Rightarrow>
            bind_exec (cell row 0) (\<lambda>n.
              missing_loop M h c' xs (if atoi n = 0 then missingHashes @ [x] else missingHashes)))"

definition getMissingBlockHashes ::
  "'c mysql_api \<Rightarrow> bool \<Rightarrow> 'c \<Rightarrow> string list \<Rightarrow> string list \<Rightarrow> ('c \<times> int \<times> string list) exec" where
  "getMissingBlockHashes M h c userHashes missingHashes =
     (if userHashes = [] \<and> \<not> my_unset_null M c then Inl Uninitialised_Pointer
      else missing_loop M h c userHashes missingHashes)"

definition file_clause :: "string \<Rightarrow> string \<Rightarrow> string" where
  "file_clause userId filename =
     ''user_id='' @ quoted userId @ '' AND file_name='' @ quoted filename"

fun insert_blocks ::
  "'c mysql_api \<Rightarrow> bool \<Rightarrow> 'c \<Rightarrow> string \<Rightarrow> string \<Rightarrow> nat \<Rightarrow> string list \<Rightarrow> 32 word \<Rightarrow> ('c \<times> int) exec" where
  "insert_blocks M h c userId filename i [] version = Inr (c, 0)"
| "insert_blocks M h c userId filename i (x # xs) version =
     bind_exec (run_statement M h c
         (''INSERT INTO FileBlock(user_id, file_name, block_hash, block_number, version) VALUES('' @
          quoted userId @ '','' @ quoted filename @ '','' @ quoted x @ '','' @
          MySQLHelper_intToStr (to_int (int i)) @ '','' @ MySQLHelper_intToStr (sint version) @ '')''))
       (\<lambda>(c', e). if e \<noteq> 0 then Inr (c', e)
                  else insert_blocks M h c' userId filename (Suc i) xs version)"

definition removeFile ::
  "'c mysql_api \<Rightarrow> bool \<Rightarrow> 'c \<Rightarrow> string \<Rightarrow> string \<Rightarrow> ('c \<times> int) exec" where
  "removeFile M h c userId filename =
     run_statement M h c (''DELETE FROM FileBlock WHERE '' @ file_clause userId filename)"

definition replace_blocks ::
  "'c mysql_api \<Rightarrow> bool \<Rightarrow> 'c \<Rightarrow> string \<Rightarrow> string \<Rightarrow> string list \<Rightarrow> 32 word \<Rightarrow> ('c \<times> int) exec" where
  "replace_blocks M h c userId filename hashes version =
     bind_exec (run_statement M h c (''DELETE FROM FileBlock WHERE '' @ file_clause userId filename))
       (\<lambda>(c', e). if e \<noteq> 0 then Inr (c', e)
                  else insert_blocks M h c' userId filename 0 hashes version)"

text \<open>
  \<open>updateFileData\<close> first reads the stored version. The comparison
  \<open>atoi(row[0]) >= version\<close> is between an \<open>int\<close> and an \<open>unsigned int\<close>, so it is unsigned.
\<close>

definition updateFileData ::
  "'c mysql_api \<Rightarrow> bool \<Rightarrow> 'c \<Rightarrow> string \<Rightarrow> string \<Rightarrow> string list \<Rightarrow> 32 word \<Rightarrow> ('c \<times> int) exec" where
  "updateFileData M h c userId filename hashes version =
     bind_exec (fetch_rows M h c (''SELECT version FROM FileBlock WHERE '' @ file_clause userId filename))
       (\<lambda>(c1, r). case r of
          Inl e \<Rightarrow> Inr (c1, e)
        | Inr [] \<Rightarrow>
            (if version \<noteq> 0 then Inr (c1, EVERS)
             else replace_blocks M h c1 userId filename hashes version)
        | Inr (row # _) \<Rightarrow>
            bind_exec (cell row 0) (\<lambda>v.
              if version \<le> word_of_int (atoi v) then Inr (c1, EVERS)
              else replace_blocks M h c1 userId filename hashes version))"

fun block_rows :: "row list \<Rightarrow> string list \<Rightarrow> 32 word \<Rightarrow> (string list \<times> 32 word) exec" where
  "block_rows [] hashes version = Inr (hashes, version)"
| "block_rows (row # rows) hashes version =
     bind_exec (cell row 0) (\<lambda>hash.
     bind_exec (cell row 1) (\<lambda>v.
     block_rows rows (hashes @ [hash]) (word_of_int (atoi v))))"

definition getFileBlockList ::
  "'c mysql_api \<Rightarrow> bool \<Rightarrow> 'c \<Rightarrow> string \<Rightarrow> string \<Rightarrow> string list \<Rightarrow> 32 word \<Rightarrow>
   ('c \<times> int \<times> string list \<times> 32 word) exec" where
  "getFileBlockList M h c userId filename hashes version =
     bind_exec (fetch_rows M h c (''SELECT block_hash,version FROM FileBlock WHERE '' @
                   file_clause userId filename @ '' ORDER BY block_number ASC''))
       (\<lambda>(c1, r). case r of
          Inl e \<Rightarrow> Inr (c1, e, hashes, version)
        | Inr rows \<Rightarrow> bind_exec (block_rows rows hashes version)
                        (\<lambda>(hs, v). Inr (c1, 0, hs, v)))"

fun name_rows :: "row list \<Rightarrow> string list \<Rightarrow> string list \<Rightarrow> (string list \<times> string list) exec" where
  "name_rows [] fileNames versions = Inr (fileNames, versions)"
| "name_rows (row # rows) fileNames versions =
     bind_exec (cell row 0) (\<lambda>f.
     bind_exec (cell row 1) (\<lambda>v.
     name_rows rows (fileNames @ [f]) (versions @ [v])))"

definition getUserFileNames ::
  "'c mysql_api \<Rightarrow> bool \<Rightarrow> 'c \<Rightarrow> string \<Rightarrow> string list \<Rightarrow> string list \<Rightarrow>
   ('c \<times> int \<times> string list \<times> string list) exec" where
  "getUserFileNames M h c userId fileNames versions =
     bind_exec (fetch_rows M h c
         (''SELECT DISTINCT file_name,version FROM FileBlock WHERE user_id='' @ quoted userId))
       (\<lambda>(c1, r). case r of
          Inl e \<Rightarrow> Inr (c1, e, fileNames, versions)
        | Inr rows \<Rightarrow> bind_exec (name_rows rows fileNames versions)
                        (\<lambda>(fs, vs). Inr (c1, 0, fs, vs)))"

text \<open>The loop of \<open>getRecentFirstHashes\<close> and \<open>getCaches\<close>: push the first column of each row.\<close>

fun first_column :: "row list \<Rightarrow> string list \<Rightarrow> string list exec" where
  "first_column [] acc = Inr acc"
| "first_column (row # rows) acc = bind_exec (cell row 0) (\<lambda>s. first_column rows (acc @ [s]))"

definition getRecentFirstHashes ::
  "'c mysql_api \<Rightarrow> bool \<Rightarrow> 'c \<Rightarrow> string \<Rightarrow> 32 word \<Rightarrow> string list \<Rightarrow> ('c \<times> int \<times> string list) exec" where
  "getRecentFirstHashes M h c userId maxHashes firstHashes =
     bind_exec (fetch_rows M h c
         (''SELECT block_hash FROM FileBlock WHERE user_id='' @ quoted userId @
          '' ORDER BY block_number ASC,time_last_accessed DESC LIMIT '' @ MySQLHelper_intToStr (sint maxHashes)))
       (\<lambda>(c1, r). case r of
          Inl e \<Rightarrow> Inr (c1, e, firstHashes)
        | Inr rows \<Rightarrow> bind_exec (first_column rows firstHashes) (\<lambda>hs. Inr (c1, 0, hs)))"

definition getCaches ::
  "'c mysql_api \<Rightarrow> bool \<Rightarrow> 'c \<Rightarrow> string \<Rightarrow> 32 word \<Rightarrow> string list \<Rightarrow> ('c \<times> int \<times> string list) exec" where
  "getCaches M h c userId maxCaches ipAddrs =
     bind_exec (fetch_rows M h c
         (''SELECT cache_server_ip FROM UserCache WHERE user_id='' @ quoted userId @
          '' LIMIT '' @ MySQLHelper_intToStr (sint maxCaches)))
       (\<lambda>(c1, r). case r of
          Inl e \<Rightarrow> Inr (c1, e, ipAddrs)
        | Inr rows \<Rightarrow> bind_exec (first_column rows ipAddrs) (\<lambda>as. Inr (c1, 0, as)))"

definition addCache ::
  "'c mysql_api \<Rightarrow> bool \<Rightarrow> 'c \<Rightarrow> string \<Rightarrow> string \<Rightarrow> ('c \<times> int) exec" where
  "addCache M h c userId ipAddr =
     run_statement M h c (''INSERT INTO UserCache(user_id, cache_server_ip) VALUES('' @
       quoted userId @ '','' @ quoted ipAddr @ '')'')"

definition removeCache ::
  "'c mysql_api \<Rightarrow> bool \<Rightarrow> 'c \<Rightarrow> string \<Rightarrow> string \<Rightarrow> ('c \<times> int) exec" where
  "removeCache M h c userId ipAddr =
     run_statement M h c (''DELETE FROM UserCache WHERE user_id='' @ quoted userId @
       '' AND cache_server_ip='' @ quoted ipAddr)"

end
