(* ===== verification/Meta_Handlers.thy ===== *)
theory Meta_Handlers
  imports Fcgi_Worker Mysql_Helper
begin

text \<open>
  The nine FastCGI workers of the metadata server, one handler each: the body of the accept
  loop of its \<open>main\<close> function, from reading the request to the response text. A handler
  takes the jsoncpp interface \<open>J\<close>, the MySQL interface \<open>M\<close>, the state \<open>c\<close> and the
  request; a \<open>continue\<close> of the source is an early result.
\<close>

section \<open>Pieces the handlers share\<close>

text \<open>\<open>string response_body = content;\<close>\<close>

definition response_body :: "request \<Rightarrow> string exec" where
  "response_body r = string_of_ptr (fst (gstdin STDIN_MAX r)) (memory_after r)"

text \<open>\<open>response[key] = value\<close> with the rest of the handler.\<close>

definition put :: "'j jsoncpp \<Rightarrow> 'j \<Rightarrow> string \<Rightarrow> 'j \<Rightarrow> 'j exec" where
  "put J v k w = json_ok (j_put J v k w)"

definition get :: "'j jsoncpp \<Rightarrow> 'j \<Rightarrow> string \<Rightarrow> 'j exec" where
  "get J v k = json_ok (j_get J v k)"

definition as_string :: "'j jsoncpp \<Rightarrow> 'j \<Rightarrow> string exec" where
  "as_string J v = json_ok (j_as_string J v)"

section \<open>Reading workers\<close>

definition block_list_request :: "'j jsoncpp \<Rightarrow> 'c mysql_api \<Rightarrow> 'c \<Rightarrow> request \<Rightarrow> ('c \<times> string) exec" where
  "block_list_request J M c r =
     bind_exec (response_body r) (\<lambda>_.
     case query_string r of
       None \<Rightarrow> Inr (c, outputErrorMessage)
     | Some param \<Rightarrow>
         bind_exec (getQueryParam param ''user_id'' []) (\<lambda>(s1, user_id).
         bind_exec (getQueryParam param ''file_name'' []) (\<lambda>(s2, file_name).
         if s1 \<noteq> 0 \<or> s2 \<noteq> 0 then Inr (c, outputErrorMessage)
         else case connect M c of (c1, h, e) \<Rightarrow>
           if e \<noteq> 0 then Inr (c1, outputErrorMessage)
           else
             bind_exec (getFileBlockList M h c1 user_id file_name [] 0) (\<lambda>(c2, s, hashes, version).
             if s = 0 then
               bind_exec (stringToJson J hashes (j_null J)) (\<lambda>jsonHashes.
               bind_exec (put J (j_null J) ''block_list'' jsonHashes) (\<lambda>response.
               bind_exec (put J response ''version'' (j_uint J version)) (\<lambda>response.
               Inr (fst (close M c2), outputNormalMessage @ j_write J response))))
             else Inr (c2, outputErrorMessage)))))"

text \<open>The loop of \<open>file_list.cc\<close>: \<open>files[i]\<close> is the pair of name and version.\<close>

fun file_pairs :: "'j jsoncpp \<Rightarrow> nat \<Rightarrow> string list \<Rightarrow> string list \<Rightarrow> 'j \<Rightarrow> 'j exec" where
  "file_pairs J i (f # fs) (v # vs) files =
     bind_exec (json_ok (j_set J (j_null J) 0 (j_string J f))) (\<lambda>pair.
     bind_exec (json_ok (j_set J pair 1 (j_int J (atoi v)))) (\<lambda>pair.
     bind_exec (json_ok (j_set J files i pair)) (\<lambda>files.
     file_pairs J (Suc i) fs vs files)))"
| "file_pairs J i (f # fs) [] files = Inl Out_Of_Range"
| "file_pairs J i [] vs files = Inr files"

definition file_list_request :: "'j jsoncpp \<Rightarrow> 'c mysql_api \<Rightarrow> 'c \<Rightarrow> request \<Rightarrow> ('c \<times> string) exec" where
  "file_list_request J M c r =
     bind_exec (response_body r) (\<lambda>_.
     case query_string r of
       None \<Rightarrow> Inr (c, outputErrorMessage)
     | Some param \<Rightarrow>
         bind_exec (getQueryParam param ''user_id'' []) (\<lambda>(s1, user_id).
         if s1 \<noteq> 0 then Inr (c, outputErrorMessage)
         else case connect M c of (c1, h, _) \<Rightarrow>
           bind_exec (getUserFileNames M h c1 user_id [] []) (\<lambda>(c2, s, filenames, versions).
           if s = 0 then
             bind_exec (file_pairs J 0 filenames versions (j_null J)) (\<lambda>files.
             bind_exec (put J (j_null J) ''files'' files) (\<lambda>response.
             Inr (fst (close M c2), outputNormalMessage @ j_write J response)))
           else Inr (c2, outputErrorMessage))))"

definition recent_hashes_request :: "'j jsoncpp \<Rightarrow> 'c mysql_api \<Rightarrow> 'c \<Rightarrow> request \<Rightarrow> ('c \<times> string) exec" where
  "recent_hashes_request J M c r =
     bind_exec (response_body r) (\<lambda>_.
     case query_string r of
       None \<Rightarrow> Inr (c, outputErrorMessage)
     | Some param \<Rightarrow>
         bind_exec (getQueryParam param ''user_id'' []) (\<lambda>(s1, user_id).
         bind_exec (getQueryParam param ''max_hashes'' []) (\<lambda>(s2, max_hashesStr).
         if s1 \<noteq> 0 \<or> s2 \<noteq> 0 then Inr (c, outputErrorMessage)
         else case connect M c of (c1, h, _) \<Rightarrow>
           bind_exec (getRecentFirstHashes M h c1 user_id (word_of_int (atoi max_hashesStr)) [])
             (\<lambda>(c2, s, hashes).
             if s = 0 then
               bind_exec (stringToJson J hashes (j_null J)) (\<lambda>jsonHashes.
               bind_exec (put J (j_null J) ''block_list'' jsonHashes) (\<lambda>response.
               Inr (fst (close M c2), outputNormalMessage @ j_write J response)))
             else Inr (c2, outputErrorMessage)))))"

text \<open>
  \<open>user_caches.cc\<close> joins the two failure tests with \<open>&&\<close>, so a request with only one
  of the parameters is served, the other one empty.
\<close>

definition user_caches_request :: "'j jsoncpp \<Rightarrow> 'c mysql_api \<Rightarrow> 'c \<Rightarrow> request \<Rightarrow> ('c \<times> string) exec" where
  "user_caches_request J M c r =
     bind_exec (response_body r) (\<lambda>_.
     case query_string r of
       None \<Rightarrow> Inr (c, outputErrorMessage)
     | Some param \<Rightarrow>
         bind_exec (getQueryParam param ''user_id'' []) (\<lambda>(s1, user_id).
         bind_exec (getQueryParam param ''max'' []) (\<lambda>(s2, maxStr).
         if s1 \<noteq> 0 \<and> s2 \<noteq> 0 then Inr (c, outputErrorMessage)
         else case connect M c of (c1, h, _) \<Rightarrow>
           bind_exec (getCaches M h c1 user_id (word_of_int (atoi maxStr)) []) (\<lambda>(c2, s, ipAddrs).
             if s = 0 then
               bind_exec (stringToJson J ipAddrs (j_null J)) (\<lambda>jsonVals.
               bind_exec (put J (j_null J) ''caches'' jsonVals) (\<lambda>response.
               Inr (fst (close M c2), outputNormalMessage @ j_write J response)))
             else Inr (c2, outputNoEntryMessage)))))"

definition block_query_request :: "'j jsoncpp \<Rightarrow> 'c mysql_api \<Rightarrow> 'c \<Rightarrow> request \<Rightarrow> ('c \<times> string) exec" where
  "block_query_request J M c r =
     (if snd (gstdin STDIN_MAX r) = 0 then Inr (c, outputErrorMessage)
      else
        bind_exec (response_body r) (\<lambda>body.
        case j_parse J body of (parsedSuccess, root) \<Rightarrow>
        bind_exec (get J root ''user_id'') (\<lambda>user_id.
        bind_exec (get J root ''block_list'') (\<lambda>jsonHashes.
        bind_exec (get J root ''file_name'') (\<lambda>file_name.
        if \<not> parsedSuccess \<or> j_is_null J user_id \<or> j_is_null J jsonHashes \<or> j_is_null J file_name
        then Inr (c, outputErrorMessage)
        else
          bind_exec (jsonToString J jsonHashes []) (\<lambda>hashes.
          case connect M c of (c1, h, _) \<Rightarrow>
          bind_exec (getMissingBlockHashes M h c1 hashes []) (\<lambda>(c2, blocksMissing, missingHashes).
          if missingHashes = [] then
            bind_exec (put J (j_null J) ''nb'' (j_bool J False)) (\<lambda>response.
            Inr (fst (close M c2), outputNormalMessage @ j_write J response))
          else
            bind_exec (put J (j_null J) ''nb'' (j_bool J True)) (\<lambda>response.
            bind_exec (stringToJson J missingHashes (j_null J)) (\<lambda>hashesNeeded.
            bind_exec (put J response ''needed_blocks'' hashesNeeded) (\<lambda>response.
            Inr (fst (close M c2), outputNormalMessage @ j_write J response)))))))))))"

section \<open>Writing workers\<close>

definition commit_failure_message :: "int \<Rightarrow> string" where
  "commit_failure_message e =
     ''Database has encountered problems while updating the files. '' @
     ''Please try again later. error code: '' @ intToStr e"

definition file_commit_request :: "'j jsoncpp \<Rightarrow> 'c mysql_api \<Rightarrow> 'c \<Rightarrow> request \<Rightarrow> ('c \<times> string) exec" where
  "file_commit_request J M c r =
     (if snd (gstdin STDIN_MAX r) = 0 then Inr (c, outputErrorMessage)
      else
        bind_exec (response_body r) (\<lambda>body.
        case j_parse J body of (parsedSuccess, root) \<Rightarrow>
        bind_exec (get J root ''user_id'') (\<lambda>user_id.
        bind_exec (get J root ''block_list'') (\<lambda>jsonHashes.
        bind_exec (get J root ''file_name'') (\<lambda>file_name.
        bind_exec (get J root ''version'') (\<lambda>version.
        if \<not> parsedSuccess \<or> j_is_null J user_id \<or> j_is_null J version \<or>
           j_is_null J jsonHashes \<or> j_is_null J file_name
        then Inr (c, outputErrorMessage)
        else
          bind_exec (jsonToString J jsonHashes []) (\<lambda>hashes.
          case connect M c of (c1, h, e) \<Rightarrow>
          if e \<noteq> 0 then Inr (c1, outputErrorMessage)
          else
            bind_exec (as_string J version) (\<lambda>versionStr.
            bind_exec (as_string J user_id) (\<lambda>userId.
            bind_exec (as_string J file_name) (\<lambda>fileName.
            bind_exec (updateFileData M h c1 userId fileName hashes (word_of_int (atoi (c_str versionStr))))
              (\<lambda>(c2, s).
              if s = 0 then
                bind_exec (put J (j_null J) ''metadata_updated'' (j_bool J True)) (\<lambda>response.
                Inr (fst (close M c2), outputNormalMessage @ j_write J response))
              else
                bind_exec (put J (j_null J) ''metadata_updated'' (j_bool J False)) (\<lambda>response.
                bind_exec (put J response ''message''
                    (j_string J (if s = EVERS then ''Old client version.'' else commit_failure_message s)))
                  (\<lambda>response.
                  Inr (fst (close M c2), outputErrorMessage @ j_write J response))))))))))))))"

definition file_delete_request :: "'j jsoncpp \<Rightarrow> 'c mysql_api \<Rightarrow> 'c \<Rightarrow> request \<Rightarrow> ('c \<times> string) exec" where
  "file_delete_request J M c r =
     bind_exec (response_body r) (\<lambda>_.
     case query_string r of
       None \<Rightarrow> Inr (c, outputErrorMessage)
     | Some param \<Rightarrow>
         bind_exec (getQueryParam param ''user_id'' []) (\<lambda>(s1, user_id).
         bind_exec (getQueryParam param ''file_name'' []) (\<lambda>(s2, file_name).
         if s1 \<noteq> 0 \<or> s2 \<noteq> 0 then Inr (c, outputErrorMessage)
         else case connect M c of (c1, h, e) \<Rightarrow>
           if e \<noteq> 0 then Inr (c1, outputErrorMessage)
           else
             bind_exec (removeFile M h c1 user_id file_name) (\<lambda>(c2, s).
             if s = 0 then
               bind_exec (put J (j_null J) ''is_delete'' (j_bool J True)) (\<lambda>response.
               Inr (fst (close M c2), outputNormalMessage @ j_write J response))
             else
               bind_exec (put J (j_null J) ''is_delete'' (j_bool J False)) (\<lambda>response.
               bind_exec (put J response ''message''
                   (j_string J (''operation fails with the error code '' @ intToStr s))) (\<lambda>_.
               Inr (c2, outputErrorMessage)))))))"

definition user_cache_add_request :: "'c mysql_api \<Rightarrow> 'c \<Rightarrow> request \<Rightarrow> ('c \<times> string) exec" where
  "user_cache_add_request M c r =
     bind_exec (response_body r) (\<lambda>_.
     case query_string r of
       None \<Rightarrow> Inr (c, outputErrorMessage)
     | Some param \<Rightarrow>
         bind_exec (getQueryParam param ''user_id'' []) (\<lambda>(s1, user_id).
         bind_exec (getQueryParam param ''cache_ip'' []) (\<lambda>(s2, cache_ip).
         if s1 \<noteq> 0 \<or> s2 \<noteq> 0 then Inr (c, outputErrorMessage)
         else case connect M c of (c1, h, _) \<Rightarrow>
           bind_exec (addCache M h c1 user_id cache_ip) (\<lambda>(c2, s).
           Inr (fst (close M c2), if s = 0 then outputNormalMessage else outputErrorMessage)))))"

definition user_cache_remove_request :: "'c mysql_api \<Rightarrow> 'c \<Rightarrow> request \<Rightarrow> ('c \<times> string) exec" where
  "user_cache_remove_request M c r =
     bind_exec (response_body r) (\<lambda>_.
     case query_string r of
       None \<Rightarrow> Inr (c, outputErrorMessage)
     | Some param \<Rightarrow>
         bind_exec (getQueryParam param ''user_id'' []) (\<lambda>(s1, user_id).
         bind_exec (getQueryParam param ''cache_ip'' []) (\<lambda>(s2, cache_ip).
         if s1 \<noteq> 0 \<or> s2 \<noteq> 0 then Inr (c, outputErrorMessage)
         else case connect M c of (c1, h, _) \<Rightarrow>
           bind_exec (removeCache M h c1 user_id cache_ip) (\<lambda>(c2, s).
           Inr (fst (close M c2), if s = 0 then outputNormalMessage else outputErrorMessage)))))"

section \<open>The programs\<close>

definition block_list_main :: "'j jsoncpp \<Rightarrow> 'c mysql_api \<Rightarrow> 'c \<Rightarrow> request list \<Rightarrow> string list \<times> 'c exec" where
  "block_list_main J M = serve (block_list_request J M)"

definition file_list_main :: "'j jsoncpp \<Rightarrow> 'c mysql_api \<Rightarrow> 'c \<Rightarrow> request list \<Rightarrow> string list \<times> 'c exec" where
  "file_list_main J M = serve (file_list_request J M)"

definition recent_hashes_main :: "'j jsoncpp \<Rightarrow> 'c mysql_api \<Rightarrow> 'c \<Rightarrow> request list \<Rightarrow> string list \<times> 'c exec" where
  "recent_hashes_main J M = serve (recent_hashes_request J M)"

definition user_caches_main :: "'j jsoncpp \<Rightarrow> 'c mysql_api \<Rightarrow> 'c \<Rightarrow> request list \<Rightarrow> string list \<times> 'c exec" where
  "user_caches_main J M = serve (user_caches_request J M)"

definition block_query_main :: "'j jsoncpp \<Rightarrow> 'c mysql_api \<Rightarrow> 'c \<Rightarrow> request list \<Rightarrow> string list \<times> 'c exec" where
  "block_query_main J M = serve (block_query_request J M)"

definition file_commit_main :: "'j jsoncpp \<Rightarrow> 'c mysql_api \<Rightarrow> 'c \<Rightarrow> request list \<Rightarrow> string list \<times> 'c exec" where
  "file_commit_main J M = serve (file_commit_request J M)"

definition file_delete_main :: "'j jsoncpp \<Rightarrow> 'c mysql_api \<Rightarrow> 'c \<Rightarrow> request list \<Rightarrow> string list \<times> 'c exec" where
  "file_delete_main J M = serve (file_delete_request J M)"

definition user_cache_add_main :: "'c mysql_api \<Rightarrow> 'c \<Rightarrow> request list \<Rightarrow> string list \<times> 'c exec" where
  "user_cache_add_main M = serve (user_cache_add_request M)"

definition user_cache_remove_main :: "'c mysql_api \<Rightarrow> 'c \<Rightarrow> request list \<Rightarrow> string list \<times> 'c exec" where
  "user_cache_remove_main M = serve (user_cache_remove_request M)"

end
