(* ===== verification/Mysql_Contract.thy ===== *)
theory Mysql_Contract
  imports Mysql_Helper
begin

text \<open>
  What the operations of \<open>MySQLHelper\<close> do to the tables, proved inside the locale
  \<open>mysql\<close>: the text each operation sends is the text of a statement of the fragment, the
  abstract content of a file (its block hashes in order and its version) and the
  invariant of the \<open>FileBlock\<close> table.
\<close>

section \<open>The text the operations send\<close>

definition file_where :: "string \<Rightarrow> string \<Rightarrow> where_clause" where
  "file_where u f = [[(User_Id, u), (File_Name, f)]]"

definition user_where :: "string \<Rightarrow> where_clause" where
  "user_where u = [[(User_Id, u)]]"

definition hash_where :: "string \<Rightarrow> where_clause" where
  "hash_where x = [[(Block_Hash, x)]]"

definition cache_where :: "string \<Rightarrow> string \<Rightarrow> where_clause" where
  "cache_where u a = [[(User_Id, u), (Cache_Server_Ip, a)]]"

lemma file_clause_text: "file_clause u f = where_text (file_where u f)"
  by (simp add: file_clause_def file_where_def where_text_def)

lemma where_texts [simp]:
  "where_text (user_where u) = ''user_id='' @ quoted u"
  "where_text (hash_where x) = ''block_hash='' @ quoted x"
  "where_text (cache_where u a) = ''user_id='' @ quoted u @ '' AND cache_server_ip='' @ quoted a"
  by (simp_all add: user_where_def hash_where_def cache_where_def where_text_def)

lemma where_oks [simp]:
  "where_ok fb_columns (file_where u f) \<longleftrightarrow> clean u \<and> clean f"
  "where_ok fb_columns (user_where u) \<longleftrightarrow> clean u"
  "where_ok uc_columns (user_where u) \<longleftrightarrow> clean u"
  "where_ok fb_columns (hash_where x) \<longleftrightarrow> clean x"
  "where_ok uc_columns (cache_where u a) \<longleftrightarrow> clean u \<and> clean a"
  by (simp_all add: where_ok_def file_where_def user_where_def hash_where_def cache_where_def
      fb_columns_def uc_columns_def)

lemma not_printable_nul [simp]: "\<not> printable nul"
  by (simp add: printable_def nul_def)

lemma clean_nul: "clean s \<Longrightarrow> nul \<notin> set s"
  using not_printable_nul unfolding clean_def by blast

lemma nul_join: "nul \<in> set (join sep xs) \<Longrightarrow> nul \<in> set sep \<or> (\<exists>x \<in> set xs. nul \<in> set x)"
  by (induction sep xs rule: join.induct) auto

lemma nul_column_name [simp]: "nul \<notin> set (column_name c)"
  by (cases c) (simp_all add: nul_def)

lemma nul_separators [simp]:
  "nul \<notin> set '' AND ''" "nul \<notin> set '' OR ''" "nul \<noteq> CHR ''=''" "nul \<noteq> CHR 0x27"
  by (simp_all add: nul_def)

lemma nul_condition_text: "nul \<in> set (condition_text cv) \<Longrightarrow> nul \<in> set (snd cv)"
  by (cases cv) (auto simp: quoted_def)

lemma nul_where_text:
  assumes "where_ok C w"
  shows "nul \<notin> set (where_text w)"
proof
  assume "nul \<in> set (where_text w)"
  then obtain t where "t \<in> set (map (\<lambda>cs. join '' AND '' (map condition_text cs)) w)" "nul \<in> set t"
    unfolding where_text_def using nul_join nul_separators by blast
  then obtain cs where cs: "cs \<in> set w" "nul \<in> set (join '' AND '' (map condition_text cs))"
    by auto
  then obtain t where "t \<in> set (map condition_text cs)" "nul \<in> set t"
    using nul_join nul_separators by blast
  then obtain cv where cv: "cv \<in> set cs" "nul \<in> set (condition_text cv)" by auto
  have "nul \<in> set (snd cv)" using cv(2) by (rule nul_condition_text)
  moreover have "clean (snd cv)"
    using cs(1) cv(1) assms by (cases cv) (fastforce simp: where_ok_def)
  ultimately show False using clean_nul by blast
qed

lemma nul_sql_text:
  assumes "stmt_ok st \<or> negative_limit st"
  shows "nul \<notin> set (sql_text st)"
  using assms nul_where_text nul_notin_show_int clean_nul
  by (cases st) (auto simp: quoted_def name_ok_def hash_ok_def nul_def)

lemma c_str_sql_text [simp]: "stmt_ok st \<or> negative_limit st \<Longrightarrow> c_str (sql_text st) = sql_text st"
  by (simp add: nul_sql_text)

lemma sql_sem_select: "is_select st \<Longrightarrow> sql_sem coll st d d' rs \<Longrightarrow> d' = d"
  by (cases st) auto

lemma clean_name [intro]: "name_ok s \<Longrightarrow> clean s"
  by (simp add: name_ok_def)

lemma clean_hash [intro]: "hash_ok s \<Longrightarrow> clean s"
  by (simp add: hash_ok_def)

section \<open>Files as the table holds them\<close>

definition same_file :: "(string \<Rightarrow> string \<Rightarrow> bool) \<Rightarrow> string \<Rightarrow> string \<Rightarrow> fb_row \<Rightarrow> bool" where
  "same_file coll u f r \<longleftrightarrow> coll (fb_user r) u \<and> coll (fb_file r) f"

definition file_rows :: "(string \<Rightarrow> string \<Rightarrow> bool) \<Rightarrow> string \<Rightarrow> string \<Rightarrow> db \<Rightarrow> fb_row multiset" where
  "file_rows coll u f d = filter_mset (same_file coll u f) (fileblock d)"

lemma matches_file [simp]: "matches coll fb_cell (file_where u f) = same_file coll u f"
  by (auto simp: matches_def file_where_def same_file_def fun_eq_iff)

lemma matches_user [simp]: "matches coll fb_cell (user_where u) = (\<lambda>r. coll (fb_user r) u)"
  by (auto simp: matches_def user_where_def fun_eq_iff)

lemma matches_uc_user [simp]: "matches coll uc_cell (user_where u) = (\<lambda>r. coll (uc_user r) u)"
  by (auto simp: matches_def user_where_def fun_eq_iff)

lemma matches_hash [simp]: "matches coll fb_cell (hash_where x) = (\<lambda>r. coll (fb_hash r) x)"
  by (auto simp: matches_def hash_where_def fun_eq_iff)

lemma matches_cache [simp]:
  "matches coll uc_cell (cache_where u a) = (\<lambda>r. coll (uc_user r) u \<and> coll (uc_cache r) a)"
  by (auto simp: matches_def cache_where_def fun_eq_iff)

text \<open>
  \<open>holds_file R u f hs v\<close>: the rows \<open>R\<close> are exactly the blocks \<open>hs\<close>, numbered from 0 in
  order, of file \<open>f\<close> of user \<open>u\<close>, all at version \<open>v\<close>; the time stamps are free.
\<close>

definition untimed :: "fb_row \<Rightarrow> fb_row" where
  "untimed r = r\<lparr>fb_time := 0\<rparr>"

definition block_row :: "string \<Rightarrow> string \<Rightarrow> nat \<Rightarrow> string list \<Rightarrow> nat \<Rightarrow> fb_row" where
  "block_row u f v hs i =
     \<lparr>fb_user = u, fb_file = f, fb_hash = hs ! i, fb_num = i, fb_time = 0, fb_version = Some v\<rparr>"

definition holds_file :: "fb_row multiset \<Rightarrow> string \<Rightarrow> string \<Rightarrow> string list \<Rightarrow> nat \<Rightarrow> bool" where
  "holds_file R u f hs v \<longleftrightarrow>
     image_mset untimed R = mset (map (block_row u f v hs) [0..<length hs])"

text \<open>
  The invariant of \<open>FileBlock\<close>: the rows of every file number its blocks without gaps or
  repetitions, spell its owner and name in one way, and carry one version.
\<close>

definition fb_inv :: "(string \<Rightarrow> string \<Rightarrow> bool) \<Rightarrow> db \<Rightarrow> bool" where
  "fb_inv coll d \<longleftrightarrow> 
     (\<forall>u f. \<exists>u' f' hs v. v < 2 ^ 32 \<and> holds_file (file_rows coll u f d) u' f' hs v)"

text \<open>Whether \<open>updateFileData\<close> takes version \<open>v\<close> for a file at blocks \<open>hs\<close>, version \<open>v0\<close>.\<close>

definition accepts :: "string list \<Rightarrow> nat \<Rightarrow> 32 word \<Rightarrow> bool" where
  "accepts hs v0 v \<longleftrightarrow> (if hs = [] then v = 0 else v0 < unat v)"

definition others :: "(string \<Rightarrow> string \<Rightarrow> bool) \<Rightarrow> string \<Rightarrow> string \<Rightarrow> db \<Rightarrow> fb_row multiset \<times> uc_row multiset" where
  "others coll u f d = (filter_mset (\<lambda>r. \<not> same_file coll u f r) (fileblock d), usercache d)"

lemma untimed_simps [simp]:
  "fb_user (untimed r) = fb_user r" "fb_file (untimed r) = fb_file r"
  "fb_hash (untimed r) = fb_hash r" "fb_num (untimed r) = fb_num r"
  "fb_version (untimed r) = fb_version r" "fb_time (untimed r) = 0"
  by (simp_all add: untimed_def)

lemma block_row_simps [simp]:
  "fb_user (block_row u f v hs i) = u" "fb_file (block_row u f v hs i) = f"
  "fb_hash (block_row u f v hs i) = hs ! i" "fb_num (block_row u f v hs i) = i"
  "fb_version (block_row u f v hs i) = Some v"
  by (simp_all add: block_row_def)

lemma holds_file_empty [simp]: "holds_file R u f [] v \<longleftrightarrow> R = {#}"
  by (simp add: holds_file_def)

lemma holds_file_nil [simp]: "holds_file {#} u f hs v \<longleftrightarrow> hs = []"
  by (auto simp: holds_file_def simp del: mset_map mset_upt)

lemma holds_file_snoc:
  assumes "holds_file R u f hs v" "untimed r = block_row u f v (hs @ [x]) (length hs)"
  shows "holds_file (add_mset r R) u f (hs @ [x]) v"
proof -
  have "map (block_row u f v (hs @ [x])) [0..<length hs] = map (block_row u f v hs) [0..<length hs]"
    by (auto simp: block_row_def nth_append)
  then show ?thesis
    using assms unfolding holds_file_def by (simp only: length_append_singleton upt_Suc_append
        map_append list.map mset_append mset.simps image_mset_add_mset) simp
qed

lemma holds_file_row:
  assumes "holds_file R u f hs v" "r \<in># R"
  shows "fb_user r = u" "fb_file r = f" "fb_version r = Some v" "fb_num r < length hs"
    "fb_hash r = hs ! fb_num r"
proof -
  have "untimed r \<in># mset (map (block_row u f v hs) [0..<length hs])"
    using assms unfolding holds_file_def by (metis image_eqI set_image_mset)
  then obtain i where "i < length hs" "untimed r = block_row u f v hs i"
    by auto
  then show "fb_user r = u" "fb_file r = f" "fb_version r = Some v" "fb_num r < length hs"
    "fb_hash r = hs ! fb_num r"
    by (metis untimed_simps block_row_simps)+
qed

lemma sorted_by_unique:
  assumes "mset xs = mset ys" "sorted (map k xs)" "sorted (map k ys)" "distinct (map k ys)"
  shows "xs = ys"
proof -
  have set: "set xs = set ys" using assms(1) by (rule mset_eq_setD)
  have "mset (map k xs) = mset (map k ys)" using assms(1) by (simp add: mset_map)
  then have "distinct (map k xs)" using assms(4) by (metis mset_eq_imp_distinct_iff)
  moreover have "inj_on k (set xs \<union> set ys)"
    using assms(4) set by (simp add: distinct_map)
  ultimately show ?thesis
    using map_sorted_distinct_set_unique [of k xs ys] assms set by simp
qed

text \<open>Reading the rows of a file in block order gives back its blocks.\<close>

lemma holds_file_sorted:
  assumes "holds_file R u f hs v" "mset xs = R" "sorted (map fb_num xs)"
  shows "map untimed xs = map (block_row u f v hs) [0..<length hs]"
proof (rule sorted_by_unique [where k = fb_num])
  show "mset (map untimed xs) = mset (map (block_row u f v hs) [0..<length hs])"
    using assms(1,2) by (simp add: holds_file_def)
qed (use assms(3) in \<open>simp_all add: comp_def\<close>)

lemma holds_file_hashes:
  assumes "holds_file R u f hs v" "mset xs = R" "sorted (map fb_num xs)"
  shows "map fb_hash xs = hs" "map fb_version xs = replicate (length hs) (Some v)"
proof -
  have "map fb_hash xs = map fb_hash (map untimed xs)" by simp
  also have "\<dots> = hs"
    unfolding holds_file_sorted [OF assms] by (simp add: comp_def map_nth)
  finally show "map fb_hash xs = hs" .
  have "map fb_version xs = map fb_version (map untimed xs)" by simp
  also have "\<dots> = replicate (length hs) (Some v)"
    unfolding holds_file_sorted [OF assms] by (simp add: comp_def map_replicate_const)
  finally show "map fb_version xs = replicate (length hs) (Some v)" .
qed

section \<open>The operations, inside the locale\<close>

lemma block_rows_map:
  "block_rows (map (\<lambda>r. [Some (fb_hash r), version_cell (fb_version r)]) xs) hs v =
    (if None \<in> set (map fb_version xs) then Inl Null_Pointer
     else Inr (hs @ map fb_hash xs,
               last (v # map (\<lambda>r. word_of_int (atoi (show_nat (the (fb_version r))))) xs)))"
  by (induction xs arbitrary: hs v) (auto simp: cell_def version_cell_def split: option.splits)

lemma first_column_map: "first_column (map (\<lambda>r. [Some (g r)]) xs) acc = Inr (acc @ map g xs)"
  by (induction xs arbitrary: acc) (auto simp: cell_def)

context mysql
begin

lemma run_statement_cases:
  assumes "run_statement M True c (sql_text st) = Inr (c', e)" "stmt_ok st"
  shows "e = 0 \<and> sql_sem coll st (tables c) (tables c') (pending c') \<or>
         1000 \<le> e \<and> tables c' = tables c"
proof (cases "my_query M c (sql_text st)")
  case (Pair c1 r)
  then show ?thesis
    using assms query_runs [OF assms(2), of c c1] query_fails [OF Pair]
    by (auto simp: run_statement_def split: if_splits)
qed

lemma run_statement_total: "\<exists>c' e. run_statement M True c q = Inr (c', e)"
  by (auto simp: run_statement_def split: prod.splits)

lemma fetch_rows_cases:
  assumes "fetch_rows M True c (sql_text st) = Inr (c', r)" "stmt_ok st" "is_select st"
  shows "tables c' = tables c \<and>
    (case r of Inl e \<Rightarrow> 1000 \<le> e | Inr rs \<Rightarrow> sql_sem coll st (tables c) (tables c) rs)"
proof (cases "my_query M c (sql_text st)")
  case (Pair c1 q)
  show ?thesis
  proof (cases "q = 0")
    case False
    with Pair assms query_fails [OF Pair] show ?thesis
      by (auto simp: fetch_rows_def)
  next
    case True
    with Pair have q: "my_query M c (sql_text st) = (c1, 0)" by simp
    from query_runs [OF assms(2) q]
    have sem: "sql_sem coll st (tables c) (tables c1) (pending c1)" .
    then have t: "tables c1 = tables c" by (rule sql_sem_select [OF assms(3)])
    with True q sem assms store_runs [of c1] store_fails [of c1] show ?thesis
      by (auto simp: fetch_rows_def split: prod.splits option.splits)
  qed
qed

lemma fetch_rows_total: "\<exists>c' r. fetch_rows M True c q = Inr (c', r)"
  by (auto simp: fetch_rows_def split: prod.splits option.splits)

lemma connect_tables_id: "tables (fst (connect M c)) = tables c"
  using init_tables [of c] connect_tables
  by (auto simp: connect_def connect_to_def split: prod.splits) (metis fst_conv)+

lemma same_file_coll: "coll (fb_user r) u \<Longrightarrow> coll (fb_file r) f \<Longrightarrow> same_file coll u f r"
  by (simp add: same_file_def)

lemma same_file_refl: "same_file coll (fb_user r) (fb_file r) r"
  by (simp add: same_file_def coll_refl)

text \<open>Inserting the blocks of a file: each success adds the next row, a failure stops.\<close>

lemma insert_blocks_holds:
  assumes "insert_blocks M True c u f (length pre) hs v = Inr (c', e)"
    and "name_ok u" "name_ok f" "\<forall>x \<in> set (pre @ hs). hash_ok x"
    and "length (pre @ hs) < 2 ^ 31" "0 \<le> sint v"
    and "holds_file (file_rows coll u f (tables c)) u f pre (unat v)"
  shows "\<exists>k. holds_file (file_rows coll u f (tables c')) u f (pre @ take k hs) (unat v) \<and>
    (e = 0 \<and> k = length hs \<or> 1000 \<le> e \<and> k < length hs) \<and>
    others coll u f (tables c') = others coll u f (tables c)"
  using assms
proof (induction hs arbitrary: pre c)
  case Nil
  then show ?case by auto
next
  case (Cons x xs)
  let ?st = "Insert_Block u f x (int (length pre)) (sint v)"
  have v: "sint v = int (unat v)" using Cons.prems(6) by (rule sint_nonneg)
  have vb: "sint v < 2 ^ 31" using sint_lt [of v] by simp
  have n: "to_int (int (length pre)) = int (length pre)"
    using Cons.prems(5) by simp
  have ok: "stmt_ok ?st"
    using Cons.prems vb by (auto simp: uint_ok_def)
  obtain c1 e1 where r: "run_statement M True c (sql_text ?st) = Inr (c1, e1)"
    using run_statement_total by blast
  show ?case
  proof (cases "e1 = 0")
    case False
    with r have "1000 \<le> e1" "tables c1 = tables c"
      using run_statement_cases [OF r ok] by auto
    moreover have "c' = c1" "e = e1"
      using Cons.prems(1) r False n by auto
    ultimately show ?thesis using Cons.prems(7) by (intro exI [of _ 0]) auto
  next
    case True
    then obtain t where t: "tables c1 = (tables c)\<lparr>fileblock := add_mset
        \<lparr>fb_user = u, fb_file = f, fb_hash = x, fb_num = length pre, fb_time = t,
         fb_version = Some (unat v)\<rparr> (fileblock (tables c))\<rparr>"
      using run_statement_cases [OF r ok] v by auto
    have sf: "same_file coll u f \<lparr>fb_user = u, fb_file = f, fb_hash = x, fb_num = length pre, fb_time = t,
         fb_version = Some (unat v)\<rparr>" by (simp add: same_file_def coll_refl)
    have "holds_file (file_rows coll u f (tables c1)) u f (pre @ [x]) (unat v)"
      using holds_file_snoc [OF Cons.prems(7), of _ x] sf
      by (simp add: t file_rows_def) (simp add: untimed_def block_row_def)
    moreover have "insert_blocks M True c1 u f (length (pre @ [x])) xs v = Inr (c', e)"
      using Cons.prems(1) r True n by simp
    ultimately obtain k where k: "holds_file (file_rows coll u f (tables c')) u f ((pre @ [x]) @ take k xs) (unat v)"
      "e = 0 \<and> k = length xs \<or> 1000 \<le> e \<and> k < length xs"
      "others coll u f (tables c') = others coll u f (tables c1)"
      using Cons.IH [of c1 "pre @ [x]"] Cons.prems by auto
    then show ?thesis using sf by (intro exI [of _ "Suc k"]) (auto simp: t others_def)
  qed
qed


text \<open>Files in different classes of the collation have disjoint rows.\<close>

lemma same_file_class:
  assumes "same_file coll u f r"
  shows "same_file coll u2 f2 r \<longleftrightarrow> coll u u2 \<and> coll f f2"
  using assms by (auto simp: same_file_def intro: coll_trans dest: coll_sym)

lemma file_rows_same:
  assumes "coll u u2" "coll f f2"
  shows "file_rows coll u2 f2 d = file_rows coll u f d"
proof -
  have "same_file coll u2 f2 r \<longleftrightarrow> same_file coll u f r" for r
    using assms by (auto simp: same_file_def intro: coll_trans dest: coll_sym)
  then have "same_file coll u2 f2 = same_file coll u f" by (simp add: fun_eq_iff)
  then show ?thesis by (simp add: file_rows_def)
qed

lemma file_rows_other:
  assumes "\<not> (coll u u2 \<and> coll f f2)" "others coll u f d' = others coll u f d"
  shows "file_rows coll u2 f2 d' = file_rows coll u2 f2 d"
proof -
  have "file_rows coll u2 f2 x =
      filter_mset (same_file coll u2 f2) (filter_mset (\<lambda>r. \<not> same_file coll u f r) (fileblock x))" for x
    using assms(1) same_file_class [of u f _ u2 f2] unfolding file_rows_def
    by (auto simp: filter_filter_mset intro!: filter_mset_cong)
  with assms(2) show ?thesis by (simp add: others_def)
qed

lemma fb_inv_update:
  assumes "fb_inv coll d" "others coll u f d' = others coll u f d"
    and "holds_file (file_rows coll u f d') u f hs v" "v < 2 ^ 32"
  shows "fb_inv coll d'"
  unfolding fb_inv_def
proof (intro allI)
  fix u2 f2
  show "\<exists>u' f' hs v. v < 2 ^ 32 \<and> holds_file (file_rows coll u2 f2 d') u' f' hs v"
  proof (cases "coll u u2 \<and> coll f f2")
    case True
    then show ?thesis using assms(3,4) file_rows_same by metis
  next
    case False
    then show ?thesis
      using assms(1) file_rows_other [OF False assms(2)] by (metis fb_inv_def)
  qed
qed

lemma delete_file_tables:
  assumes "run_statement M True c (''DELETE FROM FileBlock WHERE '' @ file_clause u f) = Inr (c', e)"
    and "clean u" "clean f"
  shows "1000 \<le> e \<and> tables c' = tables c \<or>
    e = 0 \<and> file_rows coll u f (tables c') = {#} \<and>
    others coll u f (tables c') = others coll u f (tables c)"
proof -
  let ?st = "Delete_Blocks (file_where u f)"
  have "run_statement M True c (sql_text ?st) = Inr (c', e)"
    using assms(1) by (simp add: file_clause_text)
  from run_statement_cases [OF this] assms(2,3) show ?thesis
    by (auto simp: file_rows_def others_def filter_filter_mset)
qed

lemma replace_blocks_holds:
  assumes "replace_blocks M True c u f hs v = Inr (c', e)"
    and "name_ok u" "name_ok f" "\<forall>x \<in> set hs. hash_ok x"
    and "length hs < 2 ^ 31" "0 \<le> sint v"
  shows "1000 \<le> e \<and> tables c' = tables c \<or>
    others coll u f (tables c') = others coll u f (tables c) \<and>
    (\<exists>k. holds_file (file_rows coll u f (tables c')) u f (take k hs) (unat v) \<and>
         (e = 0 \<and> k = length hs \<or> 1000 \<le> e \<and> k < length hs))"
proof -
  obtain c1 e1 where d: "run_statement M True c (''DELETE FROM FileBlock WHERE '' @ file_clause u f) = Inr (c1, e1)"
    using run_statement_total by blast
  show ?thesis
  proof (cases "e1 = 0")
    case False
    with d assms(1) have "c' = c1" "e = e1" by (auto simp: replace_blocks_def)
    with False delete_file_tables [OF d] assms(2,3) show ?thesis by auto
  next
    case True
    then have t: "file_rows coll u f (tables c1) = {#}"
      "others coll u f (tables c1) = others coll u f (tables c)"
      using delete_file_tables [OF d] assms(2,3) by auto
    have "insert_blocks M True c1 u f (length ([] :: string list)) hs v = Inr (c', e)"
      using assms(1) d True by (simp add: replace_blocks_def)
    from insert_blocks_holds [OF this] assms(2-6) t show ?thesis by auto
  qed
qed

text \<open>Every outcome of a commit.\<close>

lemma updateFileData_outcome:
  assumes "updateFileData M True c u f hs v = Inr (c', e)"
    and "name_ok u" "name_ok f" "\<forall>x \<in> set hs. hash_ok x"
    and "length hs < 2 ^ 31" "0 \<le> sint v"
    and "holds_file (file_rows coll u f (tables c)) u0 f0 hs0 v0" "v0 < 2 ^ 32"
  shows "e = EVERS \<and> \<not> accepts hs0 v0 v \<and> tables c' = tables c \<or>
    1000 \<le> e \<and> tables c' = tables c \<or>
    accepts hs0 v0 v \<and> others coll u f (tables c') = others coll u f (tables c) \<and>
    (\<exists>k. holds_file (file_rows coll u f (tables c')) u f (take k hs) (unat v) \<and>
         (e = 0 \<and> k = length hs \<or> 1000 \<le> e \<and> k < length hs))"
proof -
  let ?st = "Select_Version (file_where u f)"
  have ok: "stmt_ok ?st" using assms(2,3) by auto
  obtain c1 r where r: "fetch_rows M True c (sql_text ?st) = Inr (c1, r)"
    using fetch_rows_total by blast
  have t: "tables c1 = tables c"
    and sem: "case r of Inl e \<Rightarrow> 1000 \<le> e | Inr rs \<Rightarrow> sql_sem coll ?st (tables c) (tables c) rs"
    using fetch_rows_cases [OF r ok] by auto
  have u: "updateFileData M True c u f hs v = (case r of
      Inl e \<Rightarrow> Inr (c1, e)
    | Inr [] \<Rightarrow> (if v \<noteq> 0 then Inr (c1, EVERS) else replace_blocks M True c1 u f hs v)
    | Inr (row # _) \<Rightarrow> bind_exec (cell row 0) (\<lambda>s.
        if v \<le> word_of_int (atoi s) then Inr (c1, EVERS) else replace_blocks M True c1 u f hs v))"
    using r by (simp add: updateFileData_def file_clause_text)
  have repl: ?thesis if "replace_blocks M True c1 u f hs v = Inr (c', e)" "accepts hs0 v0 v"
    using replace_blocks_holds [OF that(1) assms(2-6)] that(2) t by auto
  show ?thesis
  proof (cases r)
    case (Inl a)
    with assms(1) u sem t show ?thesis by auto
  next
    case (Inr rs)
    with sem have rows: "mset rs = image_mset (\<lambda>r. [version_cell (fb_version r)]) (file_rows coll u f (tables c))"
      by (simp add: file_rows_def)
    show ?thesis
    proof (cases rs)
      case Nil
      then have "hs0 = []" using rows assms(7) by auto
      with Nil Inr u assms(1) t repl show ?thesis
        by (auto simp: accepts_def split: if_splits)
    next
      case (Cons row rest)
      then have "row \<in># image_mset (\<lambda>r. [version_cell (fb_version r)]) (file_rows coll u f (tables c))"
        using rows by (metis list.set_intros(1) set_mset_mset)
      then obtain x where x: "x \<in># file_rows coll u f (tables c)" "row = [version_cell (fb_version x)]"
        by auto
      then have row: "cell row 0 = Inr (show_nat v0)" and ne: "hs0 \<noteq> []"
        using holds_file_row [OF assms(7) x(1)] by (auto simp: cell_def version_cell_def)
      have "(word_of_int (atoi (show_nat v0)) :: 32 word) = word_of_nat v0"
        using assms(8) by (intro word_atoi_show_nat) simp
      moreover have "unat (word_of_nat v0 :: 32 word) = v0"
        using assms(8) by (simp add: unat_of_nat)
      ultimately have "v \<le> word_of_int (atoi (show_nat v0)) \<longleftrightarrow> \<not> accepts hs0 v0 v"
        using ne by (simp add: accepts_def word_le_nat_alt not_less)
      with Inr Cons row u assms(1) t repl show ?thesis
        by (auto split: if_splits)
    qed
  qed
qed

lemma bind_total: "m = Inr a \<Longrightarrow> (\<exists>x. k a = Inr x) \<Longrightarrow> \<exists>x. bind_exec m k = Inr x"
  by auto

lemma insert_blocks_total: "\<exists>x. insert_blocks M True c u f i hs v = Inr x"
proof (induction hs arbitrary: c i)
  case (Cons y ys)
  obtain c1 e1 where "run_statement M True c
      (''INSERT INTO FileBlock(user_id, file_name, block_hash, block_number, version) VALUES('' @
       quoted u @ '','' @ quoted f @ '','' @ quoted y @ '','' @
       show_int (to_int (int i)) @ '','' @ show_int (sint v) @ '')'') = Inr (c1, e1)"
    using run_statement_total by blast
  then show ?case using Cons.IH [of c1 "Suc i"] by auto
qed simp

lemma replace_blocks_total: "\<exists>x. replace_blocks M True c u f hs v = Inr x"
proof -
  obtain c1 e1 where "run_statement M True c (''DELETE FROM FileBlock WHERE '' @ file_clause u f) = Inr (c1, e1)"
    using run_statement_total by blast
  then show ?thesis using insert_blocks_total [of c1 u f 0 hs v] by (auto simp: replace_blocks_def)
qed

lemma updateFileData_total:
  assumes "clean u" "clean f" "holds_file (file_rows coll u f (tables c)) u0 f0 hs0 v0"
  shows "\<exists>c' e. updateFileData M True c u f hs v = Inr (c', e)"
proof -
  let ?st = "Select_Version (file_where u f)"
  have ok: "stmt_ok ?st" using assms(1,2) by auto
  obtain c1 r where r: "fetch_rows M True c (sql_text ?st) = Inr (c1, r)"
    using fetch_rows_total by blast
  have repl: "\<exists>c' e. replace_blocks M True c1 u f hs w = Inr (c', e)" for w
    using replace_blocks_total [of c1 u f hs w] by auto
  show ?thesis
  proof (cases r)
    case (Inl a)
    with r show ?thesis by (simp add: updateFileData_def file_clause_text)
  next
    case (Inr rs)
    have rows: "mset rs = image_mset (\<lambda>r. [version_cell (fb_version r)]) (file_rows coll u f (tables c))"
      using fetch_rows_cases [OF r ok] Inr by (simp add: file_rows_def)
    show ?thesis
    proof (cases rs)
      case Nil
      with r Inr repl show ?thesis by (simp add: updateFileData_def file_clause_text)
    next
      case (Cons row rest)
      then have "row \<in># image_mset (\<lambda>r. [version_cell (fb_version r)]) (file_rows coll u f (tables c))"
        using rows by (metis list.set_intros(1) set_mset_mset)
      then obtain x where x: "x \<in># file_rows coll u f (tables c)" "row = [version_cell (fb_version x)]"
        by auto
      then have "cell row 0 = Inr (show_nat v0)"
        using holds_file_row [OF assms(3) x(1)] by (auto simp: cell_def version_cell_def)
      with r Inr Cons repl show ?thesis by (simp add: updateFileData_def file_clause_text)
    qed
  qed
qed

text \<open>Reading the blocks of a file returns them in order, with the version.\<close>

lemma getFileBlockList_outcome:
  assumes "clean u" "clean f"
    and "holds_file (file_rows coll u f (tables c)) u0 f0 hs0 v0" "v0 < 2 ^ 32"
  shows "\<exists>c' e hs' v'. getFileBlockList M True c u f [] v = Inr (c', e, hs', v') \<and> tables c' = tables c \<and>
    (1000 \<le> e \<and> hs' = [] \<and> v' = v \<or>
     e = 0 \<and> hs' = hs0 \<and> v' = (if hs0 = [] then v else word_of_nat v0))"
proof -
  let ?st = "Select_Blocks (file_where u f)"
  have ok: "stmt_ok ?st" using assms(1,2) by auto
  obtain c1 r where r: "fetch_rows M True c (sql_text ?st) = Inr (c1, r)"
    using fetch_rows_total by blast
  have sem: "tables c1 = tables c"
    "case r of Inl e \<Rightarrow> 1000 \<le> e | Inr rs \<Rightarrow> sql_sem coll ?st (tables c) (tables c) rs"
    using fetch_rows_cases [OF r ok] by auto
  show ?thesis
  proof (cases r)
    case (Inl a)
    with r sem show ?thesis by (simp add: getFileBlockList_def file_clause_text)
  next
    case (Inr rs)
    with sem obtain xs where xs: "mset xs = file_rows coll u f (tables c)" "sorted (map fb_num xs)"
      "rs = map (\<lambda>r. [Some (fb_hash r), version_cell (fb_version r)]) xs"
      by (auto simp: file_rows_def)
    note hv = holds_file_hashes [OF assms(3) xs(1,2)]
    have "None \<notin> set (map fb_version xs)" unfolding hv(2) by simp
    then have br: "block_rows rs [] v = Inr (map fb_hash xs,
        last (v # map (\<lambda>r. word_of_int (atoi (show_nat (the (fb_version r))))) xs))"
      using xs(3) block_rows_map [of xs "[]" v] by simp
    have lst: "last (v # map (\<lambda>r. word_of_int (atoi (show_nat (the (fb_version r))))) xs) =
        (if hs0 = [] then v else word_of_nat v0)"
    proof (cases "xs = []")
      case True
      with hv(1) show ?thesis by simp
    next
      case False
      then have "fb_version (last xs) \<in> set (map fb_version xs)" by simp
      then have "fb_version (last xs) = Some v0" unfolding hv(2) by simp
      moreover have "(word_of_int (atoi (show_nat v0)) :: 32 word) = word_of_nat v0"
        using assms(4) by (intro word_atoi_show_nat) simp
      moreover have "hs0 \<noteq> []" using False hv(1) by auto
      ultimately show ?thesis using False by (simp add: last_map)
    qed
    have "getFileBlockList M True c u f [] v = Inr (c1, 0, hs0, if hs0 = [] then v else word_of_nat v0)"
      using r Inr br lst hv(1) by (simp add: getFileBlockList_def file_clause_text)
    with sem(1) show ?thesis by auto
  qed
qed

lemma removeFile_outcome:
  assumes "clean u" "clean f"
  shows "\<exists>c' e. removeFile M True c u f = Inr (c', e) \<and>
    (1000 \<le> e \<and> tables c' = tables c \<or>
     e = 0 \<and> file_rows coll u f (tables c') = {#} \<and>
     others coll u f (tables c') = others coll u f (tables c))"
proof -
  obtain c1 e1 where d: "run_statement M True c (''DELETE FROM FileBlock WHERE '' @ file_clause u f) = Inr (c1, e1)"
    using run_statement_total by blast
  from delete_file_tables [OF d assms] d show ?thesis by (auto simp: removeFile_def)
qed

end

end
