(* ===== verification/Mysql_Queries.thy ===== *)
theory Mysql_Queries
  imports Mysql_Contract
begin

text \<open>
  The read operations of \<open>MySQLHelper\<close> over whole tables (missing hashes, file names,
  recent hashes, caches) and the two operations on \<open>UserCache\<close>, proved inside the
  locale \<open>mysql\<close>; and, inside \<open>reliable_mysql\<close>, that the operations succeed on a server that is
  up.
\<close>

definition hash_known :: "(string \<Rightarrow> string \<Rightarrow> bool) \<Rightarrow> db \<Rightarrow> string \<Rightarrow> bool" where
  "hash_known coll d x \<longleftrightarrow> filter_mset (\<lambda>r. coll (fb_hash r) x) (fileblock d) \<noteq> {#}"

definition user_blocks :: "(string \<Rightarrow> string \<Rightarrow> bool) \<Rightarrow> string \<Rightarrow> db \<Rightarrow> fb_row multiset" where
  "user_blocks coll u d = filter_mset (\<lambda>r. coll (fb_user r) u) (fileblock d)"

definition user_caches :: "(string \<Rightarrow> string \<Rightarrow> bool) \<Rightarrow> string \<Rightarrow> db \<Rightarrow> uc_row multiset" where
  "user_caches coll u d = filter_mset (\<lambda>r. coll (uc_user r) u) (usercache d)"

text \<open>
  A listing of a user's files: names and versions side by side, each entry read off a row
  of the table, every file of the user listed, no file listed twice.
\<close>

definition lists_files ::
  "(string \<Rightarrow> string \<Rightarrow> bool) \<Rightarrow> string \<Rightarrow> db \<Rightarrow> string list \<Rightarrow> string list \<Rightarrow> bool" where
  "lists_files coll u d fs vs \<longleftrightarrow>
     length fs = length vs \<and>
     (\<forall>(f, v) \<in> set (zip fs vs). \<exists>r \<in># user_blocks coll u d. fb_file r = f \<and> version_cell (fb_version r) = Some v) \<and>
     (\<forall>r \<in># user_blocks coll u d. \<exists>f \<in> set fs. coll (fb_file r) f) \<and>
     sorted_wrt (\<lambda>f g. \<not> coll f g) fs"

lemma name_rows_cells:
  assumes "\<forall>row \<in> set rows. \<exists>f v. row = [Some f, Some v]"
  shows "name_rows rows fs vs =
    Inr (fs @ map (\<lambda>row. the (row ! 0)) rows, vs @ map (\<lambda>row. the (row ! 1)) rows)"
  using assms by (induction rows arbitrary: fs vs) (auto simp: cell_def)

lemma sorted_wrt_recent_take:
  assumes "sorted_wrt recent_order xs" "i < j" "j < length xs"
  shows "fb_num (xs ! i) \<le> fb_num (xs ! j)"
  using sorted_wrt_nth_less [OF assms] by (auto simp: recent_order_def)

lemma sint_uint_ok: "0 \<le> sint (n :: 32 word) \<Longrightarrow> uint_ok (sint n)"
  using sint_lt [of n] by (simp add: uint_ok_def)

context mysql
begin

lemma missing_loop_outcome:
  assumes "\<forall>x \<in> set xs. clean x" "size (fileblock (tables c)) < 2 ^ 31"
  shows "\<exists>c' e k. missing_loop M True c xs acc =
      Inr (c', e, acc @ filter (\<lambda>x. \<not> hash_known coll (tables c) x) (take k xs)) \<and>
    tables c' = tables c \<and> (e = 0 \<and> k = length xs \<or> 1000 \<le> e \<and> k < length xs)"
  using assms
proof (induction xs arbitrary: c acc)
  case (Cons x xs)
  let ?st = "Count_Blocks (hash_where x)"
  have ok: "stmt_ok ?st" using Cons.prems(1) by simp
  obtain c1 r where r: "fetch_rows M True c (sql_text ?st) = Inr (c1, r)"
    using fetch_rows_total by blast
  have t: "tables c1 = tables c"
    and sem: "case r of Inl e \<Rightarrow> 1000 \<le> e | Inr rs \<Rightarrow> sql_sem coll ?st (tables c) (tables c) rs"
    using fetch_rows_cases [OF r ok] by auto
  show ?case
  proof (cases r)
    case (Inl e)
    with r sem t show ?thesis by (intro exI [of _ c1] exI [of _ e] exI [of _ 0]) simp
  next
    case (Inr rs)
    let ?n = "size (filter_mset (\<lambda>r. coll (fb_hash r) x) (fileblock (tables c)))"
    from Inr sem have rs: "rs = [[Some (show_nat ?n)]]" by simp
    have "?n < 2 ^ 31"
      using Cons.prems(2) by (rule le_less_trans [OF size_filter_mset_lesseq])
    then have "atoi (show_int (int ?n)) = int ?n"
      by (intro atoi_show_int) simp_all
    then have z: "atoi (show_nat ?n) = 0 \<longleftrightarrow> \<not> hash_known coll (tables c) x"
      by (simp add: show_int_nat hash_known_def)
    have step: "missing_loop M True c (x # xs) acc = missing_loop M True c1 xs
        (if \<not> hash_known coll (tables c) x then acc @ [x] else acc)"
      using r Inr rs z by (simp add: cell_def)
    obtain c' e k where "missing_loop M True c1 xs (if \<not> hash_known coll (tables c) x then acc @ [x] else acc) =
        Inr (c', e, (if \<not> hash_known coll (tables c) x then acc @ [x] else acc) @
                    filter (\<lambda>x. \<not> hash_known coll (tables c1) x) (take k xs))"
      "tables c' = tables c1" "e = 0 \<and> k = length xs \<or> 1000 \<le> e \<and> k < length xs"
      using Cons.IH [of c1] Cons.prems t by (metis list.set_intros(2))
    with step t show ?thesis
      by (intro exI [of _ c'] exI [of _ e] exI [of _ "Suc k"]) auto
  qed
qed auto

lemma getRecentFirstHashes_outcome:
  assumes "clean u" "0 \<le> sint n"
  shows "\<exists>c' e hs. getRecentFirstHashes M True c u n [] = Inr (c', e, hs) \<and> tables c' = tables c \<and>
    (1000 \<le> e \<and> hs = [] \<or>
     e = 0 \<and> (\<exists>xs. mset xs = user_blocks coll u (tables c) \<and> sorted_wrt recent_order xs \<and>
                  hs = map fb_hash (take (unat n) xs)))"
proof -
  let ?st = "Select_Recent (user_where u) (sint n)"
  have n: "sint n = int (unat n)" "unat n < 2 ^ 31" using sint_nonneg [OF assms(2)] by auto
  have ok: "stmt_ok ?st" using assms sint_uint_ok by simp
  obtain c1 r where r: "fetch_rows M True c (sql_text ?st) = Inr (c1, r)"
    using fetch_rows_total by blast
  have t: "tables c1 = tables c"
    and sem: "case r of Inl e \<Rightarrow> 1000 \<le> e | Inr rs \<Rightarrow> sql_sem coll ?st (tables c) (tables c) rs"
    using fetch_rows_cases [OF r ok] by auto
  have g: "getRecentFirstHashes M True c u n [] =
      (case r of Inl e \<Rightarrow> Inr (c1, e, []) | Inr rows \<Rightarrow> bind_exec (first_column rows []) (\<lambda>hs. Inr (c1, 0, hs)))"
    using r by (simp add: getRecentFirstHashes_def)
  show ?thesis
  proof (cases r)
    case (Inl a)
    with g sem t show ?thesis by auto
  next
    case (Inr rs)
    with sem n obtain xs where "mset xs = user_blocks coll u (tables c)" "sorted_wrt recent_order xs"
      "rs = map (\<lambda>r. [Some (fb_hash r)]) (take (unat n) xs)"
      by (auto simp: user_blocks_def)
    with g Inr t show ?thesis by (auto simp: first_column_map)
  qed
qed

text \<open>A limit that is negative as an \<open>int\<close> reaches the server as a negative number and is refused.\<close>

lemma fetch_rows_negative_limit:
  assumes "negative_limit st"
  shows "\<exists>c' e. fetch_rows M True c (sql_text st) = Inr (c', Inl e) \<and> 1000 \<le> e \<and> tables c' = tables c"
proof (cases "my_query M c (sql_text st)")
  case (Pair c1 e)
  have "e \<noteq> 0" by (rule negative_limit_fails [OF assms Pair])
  with Pair query_fails [OF Pair] assms show ?thesis by (simp add: fetch_rows_def)
qed

lemma getRecentFirstHashes_negative:
  assumes "clean u" "sint n < 0"
  shows "\<exists>c' e. getRecentFirstHashes M True c u n [] = Inr (c', e, []) \<and> 1000 \<le> e \<and> tables c' = tables c"
  using fetch_rows_negative_limit [of "Select_Recent (user_where u) (sint n)" c] assms
  by (auto simp: getRecentFirstHashes_def)

lemma getCaches_outcome:
  assumes "clean u" "0 \<le> sint n"
  shows "\<exists>c' e as. getCaches M True c u n [] = Inr (c', e, as) \<and> tables c' = tables c \<and>
    (1000 \<le> e \<and> as = [] \<or>
     e = 0 \<and> (\<exists>xs. mset xs = user_caches coll u (tables c) \<and> as = map uc_cache (take (unat n) xs)))"
proof -
  let ?st = "Select_Caches (user_where u) (sint n)"
  have n: "sint n = int (unat n)" "unat n < 2 ^ 31" using sint_nonneg [OF assms(2)] by auto
  have ok: "stmt_ok ?st" using assms sint_uint_ok by simp
  obtain c1 r where r: "fetch_rows M True c (sql_text ?st) = Inr (c1, r)"
    using fetch_rows_total by blast
  have t: "tables c1 = tables c"
    and sem: "case r of Inl e \<Rightarrow> 1000 \<le> e | Inr rs \<Rightarrow> sql_sem coll ?st (tables c) (tables c) rs"
    using fetch_rows_cases [OF r ok] by auto
  have g: "getCaches M True c u n [] =
      (case r of Inl e \<Rightarrow> Inr (c1, e, []) | Inr rows \<Rightarrow> bind_exec (first_column rows []) (\<lambda>hs. Inr (c1, 0, hs)))"
    using r by (simp add: getCaches_def)
  show ?thesis
  proof (cases r)
    case (Inl a)
    with g sem t show ?thesis by auto
  next
    case (Inr rs)
    with sem n obtain xs where "mset xs = user_caches coll u (tables c)"
      "rs = map (\<lambda>r. [Some (uc_cache r)]) (take (unat n) xs)"
      by (auto simp: user_caches_def)
    with g Inr t show ?thesis by (auto simp: first_column_map)
  qed
qed

lemma getCaches_negative:
  assumes "clean u" "sint n < 0"
  shows "\<exists>c' e. getCaches M True c u n [] = Inr (c', e, []) \<and> 1000 \<le> e \<and> tables c' = tables c"
  using fetch_rows_negative_limit [of "Select_Caches (user_where u) (sint n)" c] assms
  by (auto simp: getCaches_def)

lemma addCache_outcome:
  assumes "name_ok u" "name_ok a"
  shows "\<exists>c' e. addCache M True c u a = Inr (c', e) \<and>
    (1000 \<le> e \<and> tables c' = tables c \<or>
     e = 0 \<and> tables c' = (tables c)\<lparr>usercache := add_mset \<lparr>uc_user = u, uc_cache = a\<rparr> (usercache (tables c))\<rparr>)"
proof -
  obtain c1 e1 where d: "run_statement M True c (sql_text (Insert_Cache u a)) = Inr (c1, e1)"
    using run_statement_total by blast
  with run_statement_cases [OF d] assms show ?thesis by (auto simp: addCache_def)
qed

lemma removeCache_outcome:
  assumes "clean u" "clean a"
  shows "\<exists>c' e. removeCache M True c u a = Inr (c', e) \<and>
    (1000 \<le> e \<and> tables c' = tables c \<or>
     e = 0 \<and> tables c' = (tables c)\<lparr>usercache :=
       filter_mset (\<lambda>r. \<not> (coll (uc_user r) u \<and> coll (uc_cache r) a)) (usercache (tables c))\<rparr>)"
proof -
  obtain c1 e1 where d: "run_statement M True c (sql_text (Delete_Caches (cache_where u a))) = Inr (c1, e1)"
    using run_statement_total by blast
  with run_statement_cases [OF d] assms show ?thesis by (auto simp: removeCache_def)
qed

text \<open>Under the invariant, the listing of a user's files names each file once.\<close>

lemma fb_inv_version:
  assumes "fb_inv coll d" "r \<in># fileblock d"
  shows "\<exists>v < 2 ^ 32. fb_version r = Some v"
proof -
  obtain u f hs v where "v < 2 ^ 32" "holds_file (file_rows coll (fb_user r) (fb_file r) d) u f hs v"
    using assms(1) unfolding fb_inv_def by blast
  moreover have "r \<in># file_rows coll (fb_user r) (fb_file r) d"
    using assms(2) same_file_refl by (simp add: file_rows_def)
  ultimately show ?thesis using holds_file_row(3) by blast
qed

lemma fb_inv_same_version:
  assumes "fb_inv coll d" "r \<in># user_blocks coll u d" "s \<in># user_blocks coll u d"
    and "coll (fb_file r) (fb_file s)"
  shows "fb_version r = fb_version s"
proof -
  have "r \<in># file_rows coll u (fb_file s) d" "s \<in># file_rows coll u (fb_file s) d"
    using assms(2-4) by (auto simp: user_blocks_def file_rows_def same_file_def coll_refl)
  moreover obtain u' f' hs v where "holds_file (file_rows coll u (fb_file s) d) u' f' hs v"
    using assms(1) unfolding fb_inv_def by blast
  ultimately show ?thesis by (metis holds_file_row(3))
qed

lemma names_listed:
  assumes "fb_inv coll d" "sql_sem coll (Select_Names (user_where u)) d d rs"
  shows "name_rows rs [] [] = Inr (map (\<lambda>row. the (row ! 0)) rs, map (\<lambda>row. the (row ! 1)) rs)"
    and "lists_files coll u d (map (\<lambda>row. the (row ! 0)) rs) (map (\<lambda>row. the (row ! 1)) rs)"
proof -
  let ?sel = "name_row ` set_mset (user_blocks coll u d)"
  have sel: "set rs \<subseteq> ?sel" "\<And>a. a \<in> ?sel \<Longrightarrow> \<exists>b \<in> set rs. same_name coll a b"
    "distinct rs" "\<And>a b. a \<in> set rs \<Longrightarrow> b \<in> set rs \<Longrightarrow> same_name coll a b \<Longrightarrow> a = b"
    using assms(2) by (auto simp: user_blocks_def Let_def)
  have shape: "\<exists>r v. r \<in># user_blocks coll u d \<and> row = [Some (fb_file r), Some v] \<and>
      version_cell (fb_version r) = Some v" if "row \<in> set rs" for row
  proof -
    from that sel(1) obtain r where r: "r \<in># user_blocks coll u d" "row = name_row r" by auto
    then have "r \<in># fileblock d" by (simp add: user_blocks_def)
    with fb_inv_version [OF assms(1)] obtain v where "fb_version r = Some v" by blast
    with r show ?thesis by (auto simp: name_row_def version_cell_def)
  qed
  then have "\<forall>row \<in> set rs. \<exists>f v. row = [Some f, Some v]" by metis
  from name_rows_cells [OF this, of "[]" "[]"]
  show "name_rows rs [] [] = Inr (map (\<lambda>row. the (row ! 0)) rs, map (\<lambda>row. the (row ! 1)) rs)"
    by simp
  have "\<not> coll (the (rs ! i ! 0)) (the (rs ! j ! 0))" if ij: "i < j" "j < length rs" for i j
  proof
    assume co: "coll (the (rs ! i ! 0)) (the (rs ! j ! 0))"
    obtain r v where r: "r \<in># user_blocks coll u d" "rs ! i = [Some (fb_file r), Some v]"
      "version_cell (fb_version r) = Some v"
      using shape [of "rs ! i"] ij by auto
    obtain s w where s: "s \<in># user_blocks coll u d" "rs ! j = [Some (fb_file s), Some w]"
      "version_cell (fb_version s) = Some w"
      using shape [of "rs ! j"] ij by auto
    have "coll (fb_file r) (fb_file s)" using co r(2) s(2) by simp
    moreover from fb_inv_same_version [OF assms(1) r(1) s(1) this]
    have "v = w" using r(3) s(3) by simp
    ultimately have "same_name coll (rs ! i) (rs ! j)"
      using r(2) s(2) by (simp add: same_name_def)
    then have "rs ! i = rs ! j" using sel(4) ij by simp
    with sel(3) ij show False by (simp add: nth_eq_iff_index_eq)
  qed
  then have srt: "sorted_wrt (\<lambda>f g. \<not> coll f g) (map (\<lambda>row. the (row ! 0)) rs)"
    by (simp add: sorted_wrt_iff_nth_less)
  have "\<exists>f \<in> set (map (\<lambda>row. the (row ! 0)) rs). coll (fb_file r) f" if "r \<in># user_blocks coll u d" for r
  proof -
    from sel(2) that obtain b where "b \<in> set rs" "same_name coll (name_row r) b" by blast
    then show ?thesis by (force simp: same_name_def name_row_def)
  qed
  with srt shape show "lists_files coll u d (map (\<lambda>row. the (row ! 0)) rs) (map (\<lambda>row. the (row ! 1)) rs)"
    unfolding lists_files_def by (fastforce simp: zip_map_map zip_same_conv_map)
qed

lemma getUserFileNames_outcome:
  assumes "clean u" "fb_inv coll (tables c)"
  shows "\<exists>c' e fs vs. getUserFileNames M True c u [] [] = Inr (c', e, fs, vs) \<and> tables c' = tables c \<and>
    (1000 \<le> e \<and> fs = [] \<and> vs = [] \<or> e = 0 \<and> lists_files coll u (tables c) fs vs)"
proof -
  let ?st = "Select_Names (user_where u)"
  have ok: "stmt_ok ?st" using assms(1) by simp
  obtain c1 r where r: "fetch_rows M True c (sql_text ?st) = Inr (c1, r)"
    using fetch_rows_total by blast
  have t: "tables c1 = tables c"
    and sem: "case r of Inl e \<Rightarrow> 1000 \<le> e | Inr rs \<Rightarrow> sql_sem coll ?st (tables c) (tables c) rs"
    using fetch_rows_cases [OF r ok] by auto
  have g: "getUserFileNames M True c u [] [] =
      (case r of Inl e \<Rightarrow> Inr (c1, e, [], []) | Inr rows \<Rightarrow> bind_exec (name_rows rows [] []) (\<lambda>(fs, vs). Inr (c1, 0, fs, vs)))"
    using r by (simp add: getUserFileNames_def)
  show ?thesis
  proof (cases r)
    case (Inl a)
    with g sem t show ?thesis by auto
  next
    case (Inr rs)
    with sem have "sql_sem coll ?st (tables c) (tables c) rs" by simp
    from names_listed [OF assms(2) this] g Inr t show ?thesis by auto
  qed
qed

end

section \<open>On a server that is up\<close>

context reliable_mysql
begin

lemma connect_up: "\<exists>c'. connect M c = (c', True, 0) \<and> up c' \<and> tables c' = tables c"
proof -
  obtain c1 where i: "my_init M c = (c1, True)"
    using init_succeeds [of c] by (cases "my_init M c") auto
  obtain c2 where r: "my_real_connect M c1 DBHOST USER PASSWORD DATABASE PORT = (c2, True)" "up c2"
    using connect_succeeds by blast
  then have "connect M c = (c2, True, 0)" using i by (simp add: connect_def connect_to_def)
  with r(2) show ?thesis using connect_tables_id [of c] by auto
qed

lemma run_statement_up:
  assumes "up c" "stmt_ok st"
  shows "\<exists>c'. run_statement M True c (sql_text st) = Inr (c', 0) \<and> up c'"
  using query_succeeds [OF assms] assms(2) by (auto simp: run_statement_def)

lemma fetch_rows_up:
  assumes "up c" "stmt_ok st" "is_select st"
  shows "\<exists>c' rs. fetch_rows M True c (sql_text st) = Inr (c', Inr rs) \<and> up c'"
  using query_succeeds [OF assms(1,2)] store_succeeds [OF assms] assms(2)
  by (fastforce simp: fetch_rows_def)

lemma insert_blocks_up:
  assumes "up c" "name_ok u" "name_ok f" "\<forall>x \<in> set hs. hash_ok x" "i + length hs < 2 ^ 31" "0 \<le> sint v"
  shows "\<exists>c'. insert_blocks M True c u f i hs v = Inr (c', 0) \<and> up c'"
  using assms
proof (induction hs arbitrary: c i)
  case (Cons x xs)
  let ?st = "Insert_Block u f x (int i) (sint v)"
  have n: "to_int (int i) = int i" using Cons.prems(5) by simp
  have "stmt_ok ?st" using Cons.prems sint_uint_ok [OF Cons.prems(6)] by (simp add: uint_ok_def)
  with run_statement_up [OF Cons.prems(1)] obtain c1 where
    "run_statement M True c (sql_text ?st) = Inr (c1, 0)" "up c1" by blast
  with Cons.IH [of c1 "Suc i"] Cons.prems n show ?case by auto
qed simp

lemma replace_blocks_up:
  assumes "up c" "name_ok u" "name_ok f" "\<forall>x \<in> set hs. hash_ok x" "length hs < 2 ^ 31" "0 \<le> sint v"
  shows "\<exists>c'. replace_blocks M True c u f hs v = Inr (c', 0) \<and> up c'"
proof -
  have "stmt_ok (Delete_Blocks (file_where u f))" using assms by auto
  with run_statement_up [OF assms(1)] obtain c1 where
    "run_statement M True c (sql_text (Delete_Blocks (file_where u f))) = Inr (c1, 0)" "up c1" by blast
  with insert_blocks_up [of c1 u f hs 0 v] assms show ?thesis
    by (simp add: replace_blocks_def file_clause_text)
qed

lemma getFileBlockList_up:
  assumes "up c" "clean u" "clean f"
  and "holds_file (file_rows coll u f (tables c)) u0 f0 hs0 v0" "v0 < 2 ^ 32"
  shows "\<exists>c'. getFileBlockList M True c u f [] v =
    Inr (c', 0, hs0, if hs0 = [] then v else word_of_nat v0) \<and> tables c' = tables c \<and> up c'"
proof -
  have "stmt_ok (Select_Blocks (file_where u f))" using assms by auto
  with fetch_rows_up [OF assms(1), of "Select_Blocks (file_where u f)"] obtain c1 rs where
    f: "fetch_rows M True c (sql_text (Select_Blocks (file_where u f))) = Inr (c1, Inr rs)" "up c1"
    by auto
  obtain c' e hs' v' where g: "getFileBlockList M True c u f [] v = Inr (c', e, hs', v')" "tables c' = tables c"
    "1000 \<le> e \<and> hs' = [] \<and> v' = v \<or> e = 0 \<and> hs' = hs0 \<and> v' = (if hs0 = [] then v else word_of_nat v0)"
    using getFileBlockList_outcome [OF assms(2-5)] by blast
  then have "e = 0 \<and> c' = c1"
    using f(1) by (auto simp: getFileBlockList_def file_clause_text bind_exec_eq_Inr)
  with g f(2) show ?thesis by auto
qed

lemma updateFileData_up:
  assumes "up c" "name_ok u" "name_ok f" "\<forall>x \<in> set hs. hash_ok x" "length hs < 2 ^ 31" "0 \<le> sint v"
    and "holds_file (file_rows coll u f (tables c)) u0 f0 hs0 v0" "v0 < 2 ^ 32"
  shows "\<exists>c'. updateFileData M True c u f hs v = Inr (c', if accepts hs0 v0 v then 0 else EVERS) \<and> up c'"
proof -
  let ?st = "Select_Version (file_where u f)"
  have "stmt_ok ?st" using assms by auto
  with fetch_rows_up [OF assms(1), of ?st] obtain c1 rs where
    f: "fetch_rows M True c (sql_text ?st) = Inr (c1, Inr rs)" "up c1"
    by auto
  obtain c2 where r: "replace_blocks M True c1 u f hs v = Inr (c2, 0)" "up c2"
    using replace_blocks_up [OF f(2) assms(2-6)] by blast
  obtain c' e where u: "updateFileData M True c u f hs v = Inr (c', e)"
    using updateFileData_total [of u f c u0 f0 hs0 v0 hs v] assms by auto
  then have "e = EVERS \<and> up c' \<or> e = 0 \<and> up c'"
    using f r unfolding updateFileData_def file_clause_text
    by (auto simp: bind_exec_eq_Inr split: list.splits if_splits)
  moreover have "e = EVERS \<Longrightarrow> \<not> accepts hs0 v0 v" "e = 0 \<Longrightarrow> accepts hs0 v0 v"
    using updateFileData_outcome [OF u assms(2-8)] by (auto simp: EVERS_def)
  ultimately show ?thesis using u by auto
qed

text \<open>A version that is accepted leads to the replacement of the rows, whatever its sign.\<close>

lemma update_accepted:
  assumes "up c" "clean u" "clean f"
    and "holds_file (file_rows coll u f (tables c)) u0 f0 hs0 v0" "v0 < 2 ^ 32" "accepts hs0 v0 v"
  shows "\<exists>c1. up c1 \<and> updateFileData M True c u f hs v = replace_blocks M True c1 u f hs v"
proof -
  let ?st = "Select_Version (file_where u f)"
  have ok: "stmt_ok ?st" using assms(2,3) by simp
  obtain c1 rs where f: "fetch_rows M True c (sql_text ?st) = Inr (c1, Inr rs)" "up c1"
    using fetch_rows_up [OF assms(1) ok] by auto
  have rows: "mset rs = image_mset (\<lambda>r. [version_cell (fb_version r)]) (file_rows coll u f (tables c))"
    using fetch_rows_cases [OF f(1) ok] by (simp add: file_rows_def)
  show ?thesis
  proof (cases rs)
    case Nil
    then have "hs0 = []" using rows assms(4) by auto
    with assms(6) Nil f show ?thesis
      by (auto simp: updateFileData_def file_clause_text accepts_def)
  next
    case (Cons row rest)
    then have "row \<in># image_mset (\<lambda>r. [version_cell (fb_version r)]) (file_rows coll u f (tables c))"
      using rows by (metis list.set_intros(1) set_mset_mset)
    then obtain x where x: "x \<in># file_rows coll u f (tables c)" "row = [version_cell (fb_version x)]"
      by auto
    then have row: "cell row 0 = Inr (show_nat v0)" and ne: "hs0 \<noteq> []"
      using holds_file_row [OF assms(4) x(1)] by (auto simp: cell_def version_cell_def)
    have "(word_of_int (atoi (show_nat v0)) :: 32 word) = word_of_nat v0"
      using assms(5) by (intro word_atoi_show_nat) simp
    moreover have "unat (word_of_nat v0 :: 32 word) = v0"
      using assms(5) by (simp add: unat_of_nat)
    ultimately have "\<not> v \<le> word_of_int (atoi (show_nat v0))"
      using ne assms(6) by (simp add: accepts_def word_le_nat_alt not_less)
    with f row Cons show ?thesis by (auto simp: updateFileData_def file_clause_text)
  qed
qed

lemma missing_loop_up:
  assumes "up c" "\<forall>x \<in> set xs. clean x" "size (fileblock (tables c)) < 2 ^ 31"
  shows "\<exists>c'. missing_loop M True c xs acc =
      Inr (c', 0, acc @ filter (\<lambda>x. \<not> hash_known coll (tables c) x) xs) \<and>
    tables c' = tables c \<and> up c'"
  using assms
proof (induction xs arbitrary: c acc)
  case (Cons x xs)
  let ?st = "Count_Blocks (hash_where x)"
  have ok: "stmt_ok ?st" "is_select ?st" using Cons.prems(2) by simp_all
  obtain c1 rs where r: "fetch_rows M True c (sql_text ?st) = Inr (c1, Inr rs)" "up c1"
    using fetch_rows_up [OF Cons.prems(1) ok] by blast
  have t: "tables c1 = tables c" and sem: "sql_sem coll ?st (tables c) (tables c) rs"
    using fetch_rows_cases [OF r(1) ok] by auto
  obtain c2 e k where c2: "missing_loop M True c [x] acc =
      Inr (c2, e, acc @ filter (\<lambda>x. \<not> hash_known coll (tables c) x) (take k [x]))"
    "e = 0 \<and> k = length [x] \<or> 1000 \<le> e \<and> k < length [x]"
    using missing_loop_outcome [of "[x]" c acc] Cons.prems by auto
  have "e = 0 \<and> c2 = c1"
    using c2(1) r(1) sem by (auto simp: cell_def)
  then have one: "missing_loop M True c [x] acc =
      Inr (c1, 0, acc @ filter (\<lambda>x. \<not> hash_known coll (tables c) x) [x])"
    using c2 by simp
  have step: "missing_loop M True c (x # xs) acc =
      missing_loop M True c1 xs (acc @ filter (\<lambda>x. \<not> hash_known coll (tables c) x) [x])"
    using one r(1) sem by (auto simp: cell_def)
  have app: "(acc @ filter P [x]) @ filter P xs = acc @ filter P (x # xs)" for P by simp
  show ?case unfolding step app [symmetric]
    using Cons.IH [OF r(2), of "acc @ filter (\<lambda>x. \<not> hash_known coll (tables c) x) [x]"] Cons.prems(2,3) t
    by auto
qed simp

lemma getRecentFirstHashes_up:
  assumes "up c" "clean u" "0 \<le> sint n"
  shows "\<exists>c' hs xs. getRecentFirstHashes M True c u n [] = Inr (c', 0, hs) \<and> tables c' = tables c \<and>
    mset xs = user_blocks coll u (tables c) \<and> sorted_wrt recent_order xs \<and>
    hs = map fb_hash (take (unat n) xs)"
proof -
  let ?st = "Select_Recent (user_where u) (sint n)"
  have "stmt_ok ?st" using assms sint_uint_ok by simp
  with fetch_rows_up [OF assms(1), of ?st] obtain c1 rs where
    r: "fetch_rows M True c (sql_text ?st) = Inr (c1, Inr rs)" by auto
  obtain c' e hs where g: "getRecentFirstHashes M True c u n [] = Inr (c', e, hs)" "tables c' = tables c"
    "1000 \<le> e \<and> hs = [] \<or> e = 0 \<and> (\<exists>xs. mset xs = user_blocks coll u (tables c) \<and>
       sorted_wrt recent_order xs \<and> hs = map fb_hash (take (unat n) xs))"
    using getRecentFirstHashes_outcome [OF assms(2,3)] by blast
  then have "e = 0" using r by (auto simp: getRecentFirstHashes_def bind_exec_eq_Inr)
  with g show ?thesis by auto
qed

lemma getCaches_up:
  assumes "up c" "clean u" "0 \<le> sint n"
  shows "\<exists>c' as xs. getCaches M True c u n [] = Inr (c', 0, as) \<and> tables c' = tables c \<and>
    mset xs = user_caches coll u (tables c) \<and> as = map uc_cache (take (unat n) xs)"
proof -
  let ?st = "Select_Caches (user_where u) (sint n)"
  have "stmt_ok ?st" using assms sint_uint_ok by simp
  with fetch_rows_up [OF assms(1), of ?st] obtain c1 rs where
    r: "fetch_rows M True c (sql_text ?st) = Inr (c1, Inr rs)" by auto
  obtain c' e as where g: "getCaches M True c u n [] = Inr (c', e, as)" "tables c' = tables c"
    "1000 \<le> e \<and> as = [] \<or> e = 0 \<and> (\<exists>xs. mset xs = user_caches coll u (tables c) \<and>
       as = map uc_cache (take (unat n) xs))"
    using getCaches_outcome [OF assms(2,3)] by blast
  then have "e = 0" using r by (auto simp: getCaches_def bind_exec_eq_Inr)
  with g show ?thesis by auto
qed

lemma getUserFileNames_up:
  assumes "up c" "clean u" "fb_inv coll (tables c)"
  shows "\<exists>c' fs vs. getUserFileNames M True c u [] [] = Inr (c', 0, fs, vs) \<and> tables c' = tables c \<and>
    lists_files coll u (tables c) fs vs"
proof -
  let ?st = "Select_Names (user_where u)"
  have "stmt_ok ?st" using assms(2) by simp
  with fetch_rows_up [OF assms(1), of ?st] obtain c1 rs where
    r: "fetch_rows M True c (sql_text ?st) = Inr (c1, Inr rs)" by auto
  obtain c' e fs vs where g: "getUserFileNames M True c u [] [] = Inr (c', e, fs, vs)" "tables c' = tables c"
    "1000 \<le> e \<and> fs = [] \<and> vs = [] \<or> e = 0 \<and> lists_files coll u (tables c) fs vs"
    using getUserFileNames_outcome [OF assms(2,3)] by blast
  then have "e = 0" using r by (auto simp: getUserFileNames_def bind_exec_eq_Inr)
  with g show ?thesis by auto
qed

lemma addCache_up:
  assumes "up c" "name_ok u" "name_ok a"
  shows "\<exists>c'. addCache M True c u a = Inr (c', 0) \<and>
    tables c' = (tables c)\<lparr>usercache := add_mset \<lparr>uc_user = u, uc_cache = a\<rparr> (usercache (tables c))\<rparr>"
proof -
  have "stmt_ok (Insert_Cache u a)" using assms by simp
  with run_statement_up [OF assms(1)] obtain c1 where
    r: "run_statement M True c (sql_text (Insert_Cache u a)) = Inr (c1, 0)" by blast
  then have "addCache M True c u a = Inr (c1, 0)" by (simp add: addCache_def)
  with addCache_outcome [OF assms(2,3), of c] show ?thesis by auto
qed

lemma removeCache_up:
  assumes "up c" "clean u" "clean a"
  shows "\<exists>c'. removeCache M True c u a = Inr (c', 0) \<and>
    tables c' = (tables c)\<lparr>usercache :=
      filter_mset (\<lambda>r. \<not> (coll (uc_user r) u \<and> coll (uc_cache r) a)) (usercache (tables c))\<rparr>"
proof -
  have "stmt_ok (Delete_Caches (cache_where u a))" using assms by simp
  with run_statement_up [OF assms(1)] obtain c1 where
    r: "run_statement M True c (sql_text (Delete_Caches (cache_where u a))) = Inr (c1, 0)" by blast
  then have "removeCache M True c u a = Inr (c1, 0)" by (simp add: removeCache_def)
  with removeCache_outcome [OF assms(2,3), of c] show ?thesis by auto
qed

end

end
