(* ===== verification/Metadata_Spec.thy ===== *)
theory Metadata_Spec
  imports Mysql_Queries
begin

text \<open>
  What the metadata server promises for files, without tables or SQL: every user and file
  name has a list of block hashes and a version, a commit replaces both when its version is
  new enough. \<open>MySQLHelper\<close> on a server that is up implements it, operation by operation.
\<close>

section \<open>The specification\<close>

text \<open>A file without blocks is at version 0. Names are compared with the collation.\<close>

type_synonym files = "string \<Rightarrow> string \<Rightarrow> string list \<times> nat"

datatype file_op =
    Commit string string "string list" "32 word"
  | Remove string string
  | List_Blocks string string

datatype file_reply =
    Status int
  | Blocks int "string list" "32 word"

definition set_file ::
  "(string \<Rightarrow> string \<Rightarrow> bool) \<Rightarrow> string \<Rightarrow> string \<Rightarrow> string list \<times> nat \<Rightarrow> files \<Rightarrow> files" where
  "set_file coll u f x F = (\<lambda>u2 f2. if coll u u2 \<and> coll f f2 then x else F u2 f2)"

definition stamped :: "string list \<Rightarrow> nat \<Rightarrow> string list \<times> nat" where
  "stamped hs v = (hs, if hs = [] then 0 else v)"

fun spec_step :: "(string \<Rightarrow> string \<Rightarrow> bool) \<Rightarrow> files \<Rightarrow> file_op \<Rightarrow> files \<times> file_reply" where
  "spec_step coll F (Commit u f hs v) =
     (if accepts (fst (F u f)) (snd (F u f)) v
      then (set_file coll u f (stamped hs (unat v)) F, Status 0)
      else (F, Status EVERS))"
| "spec_step coll F (Remove u f) = (set_file coll u f ([], 0) F, Status 0)"
| "spec_step coll F (List_Blocks u f) =
     (F, Blocks 0 (fst (F u f)) (word_of_nat (snd (F u f))))"

fun spec_run :: "(string \<Rightarrow> string \<Rightarrow> bool) \<Rightarrow> files \<Rightarrow> file_op list \<Rightarrow> files \<times> file_reply list" where
  "spec_run coll F [] = (F, [])"
| "spec_run coll F (x # xs) =
     (case spec_step coll F x of (F1, y) \<Rightarrow>
      case spec_run coll F1 xs of (F2, ys) \<Rightarrow> (F2, y # ys))"

fun op_ok :: "file_op \<Rightarrow> bool" where
  "op_ok (Commit u f hs v) \<longleftrightarrow>
     name_ok u \<and> name_ok f \<and> (\<forall>x \<in> set hs. hash_ok x) \<and> length hs < 2 ^ 31 \<and> 0 \<le> sint v"
| "op_ok (Remove u f) \<longleftrightarrow> clean u \<and> clean f"
| "op_ok (List_Blocks u f) \<longleftrightarrow> clean u \<and> clean f"

section \<open>The implementation\<close>

text \<open>The same operations on an open \<open>MySQLHelper\<close>.\<close>

fun helper_step :: "'c mysql_api \<Rightarrow> 'c \<Rightarrow> file_op \<Rightarrow> ('c \<times> file_reply) exec" where
  "helper_step M c (Commit u f hs v) =
     bind_exec (updateFileData M True c u f hs v) (\<lambda>(c, s). Inr (c, Status s))"
| "helper_step M c (Remove u f) =
     bind_exec (removeFile M True c u f) (\<lambda>(c, s). Inr (c, Status s))"
| "helper_step M c (List_Blocks u f) =
     bind_exec (getFileBlockList M True c u f [] 0) (\<lambda>(c, s, hs, v). Inr (c, Blocks s hs v))"

fun helper_run :: "'c mysql_api \<Rightarrow> 'c \<Rightarrow> file_op list \<Rightarrow> ('c \<times> file_reply list) exec" where
  "helper_run M c [] = Inr (c, [])"
| "helper_run M c (x # xs) =
     bind_exec (helper_step M c x) (\<lambda>(c, y).
     bind_exec (helper_run M c xs) (\<lambda>(c, ys). Inr (c, y # ys)))"

text \<open>\<open>represents coll d F\<close>: the rows of the tables \<open>d\<close> are the files \<open>F\<close>.\<close>

definition represents :: "(string \<Rightarrow> string \<Rightarrow> bool) \<Rightarrow> db \<Rightarrow> files \<Rightarrow> bool" where
  "represents coll d F \<longleftrightarrow>
     (\<forall>u f. \<exists>u0 f0. holds_file (file_rows coll u f d) u0 f0 (fst (F u f)) (snd (F u f)) \<and>
        snd (F u f) < 2 ^ 32 \<and> (fst (F u f) = [] \<longrightarrow> snd (F u f) = 0))"

lemma holds_file_stamped:
  "holds_file R u f (fst (stamped hs v)) (snd (stamped hs v)) \<longleftrightarrow> holds_file R u f hs v"
  by (simp add: stamped_def)

lemma represents_file:
  assumes "represents coll d F"
  obtains u0 f0 where "holds_file (file_rows coll u f d) u0 f0 (fst (F u f)) (snd (F u f))"
    "snd (F u f) < 2 ^ 32" "fst (F u f) = [] \<Longrightarrow> snd (F u f) = 0"
  using assms unfolding represents_def by blast

lemma unat_bound: "unat (v :: 32 word) < 2 ^ 32"
  using unsigned_less [of v] by simp

context mysql
begin

lemma represents_fb_inv: "represents coll d F \<Longrightarrow> fb_inv coll d"
  unfolding represents_def fb_inv_def by blast

lemma represents_set:
  assumes "represents coll d F" "others coll u f d' = others coll u f d"
    and "holds_file (file_rows coll u f d') u1 f1 hs v" "v < 2 ^ 32"
  shows "represents coll d' (set_file coll u f (stamped hs v) F)"
  unfolding represents_def
proof (intro allI)
  fix u2 f2
  let ?F = "set_file coll u f (stamped hs v) F"
  show "\<exists>u0 f0. holds_file (file_rows coll u2 f2 d') u0 f0 (fst (?F u2 f2)) (snd (?F u2 f2)) \<and>
        snd (?F u2 f2) < 2 ^ 32 \<and> (fst (?F u2 f2) = [] \<longrightarrow> snd (?F u2 f2) = 0)"
  proof (cases "coll u u2 \<and> coll f f2")
    case True
    then have "file_rows coll u2 f2 d' = file_rows coll u f d'" by (simp add: file_rows_same)
    with True assms(3,4) show ?thesis
      by (auto simp: set_file_def holds_file_stamped) (auto simp: stamped_def)
  next
    case False
    then have "file_rows coll u2 f2 d' = file_rows coll u2 f2 d"
      by (rule file_rows_other) (rule assms(2))
    moreover have "?F u2 f2 = F u2 f2" using False by (auto simp: set_file_def)
    ultimately show ?thesis using assms(1) unfolding represents_def by metis
  qed
qed

end

context reliable_mysql
begin

lemma commit_refines:
  assumes "up c" "op_ok (Commit u f hs v)" "represents coll (tables c) F"
  shows "\<exists>c'. helper_step M c (Commit u f hs v) = Inr (c', snd (spec_step coll F (Commit u f hs v))) \<and>
    up c' \<and> represents coll (tables c') (fst (spec_step coll F (Commit u f hs v)))"
proof -
  obtain u0 f0 where F: "holds_file (file_rows coll u f (tables c)) u0 f0 (fst (F u f)) (snd (F u f))"
    "snd (F u f) < 2 ^ 32"
    using represents_file [OF assms(3)] by metis
  have ok: "name_ok u" "name_ok f" "\<forall>x \<in> set hs. hash_ok x" "length hs < 2 ^ 31" "0 \<le> sint v"
    using assms(2) by simp_all
  let ?acc = "accepts (fst (F u f)) (snd (F u f)) v"
  obtain c' where c': "updateFileData M True c u f hs v = Inr (c', if ?acc then 0 else EVERS)" "up c'"
    using updateFileData_up [OF assms(1) ok F] by blast
  have out: "if ?acc then others coll u f (tables c') = others coll u f (tables c) \<and>
        holds_file (file_rows coll u f (tables c')) u f hs (unat v)
      else tables c' = tables c"
    using updateFileData_outcome [OF c'(1) ok F] by (auto simp: EVERS_def split: if_splits)
  show ?thesis
  proof (cases ?acc)
    case True
    with out have "represents coll (tables c') (set_file coll u f (stamped hs (unat v)) F)"
      using represents_set [OF assms(3)] unat_bound by auto
    with True c' show ?thesis by simp
  next
    case False
    with out c' assms(3) show ?thesis by simp
  qed
qed

lemma remove_refines:
  assumes "up c" "op_ok (Remove u f)" "represents coll (tables c) F"
  shows "\<exists>c'. helper_step M c (Remove u f) = Inr (c', snd (spec_step coll F (Remove u f))) \<and>
    up c' \<and> represents coll (tables c') (fst (spec_step coll F (Remove u f)))"
proof -
  let ?st = "Delete_Blocks (file_where u f)"
  obtain c1 where r: "run_statement M True c (sql_text ?st) = Inr (c1, 0)" "up c1"
    using run_statement_up [OF assms(1), of ?st] assms(2) by auto
  then have rem: "removeFile M True c u f = Inr (c1, 0)"
    by (simp add: removeFile_def file_clause_text)
  with removeFile_outcome [of u f c] assms(2) have
    "file_rows coll u f (tables c1) = {#}" "others coll u f (tables c1) = others coll u f (tables c)"
    by auto
  then have "represents coll (tables c1) (set_file coll u f (stamped [] 0) F)"
    using represents_set [OF assms(3), of u f "tables c1" u f "[]" 0] by simp
  with rem r(2) show ?thesis by (simp add: stamped_def)
qed

lemma list_refines:
  assumes "up c" "op_ok (List_Blocks u f)" "represents coll (tables c) F"
  shows "\<exists>c'. helper_step M c (List_Blocks u f) = Inr (c', snd (spec_step coll F (List_Blocks u f))) \<and>
    up c' \<and> represents coll (tables c') (fst (spec_step coll F (List_Blocks u f)))"
proof -
  obtain u0 f0 where F: "holds_file (file_rows coll u f (tables c)) u0 f0 (fst (F u f)) (snd (F u f))"
    "snd (F u f) < 2 ^ 32" "fst (F u f) = [] \<Longrightarrow> snd (F u f) = 0"
    using represents_file [OF assms(3)] by metis
  with getFileBlockList_up [OF assms(1) _ _ F(1,2), of 0] assms(2,3) show ?thesis by auto
qed

lemma step_refines:
  assumes "up c" "op_ok x" "represents coll (tables c) F"
  shows "\<exists>c'. helper_step M c x = Inr (c', snd (spec_step coll F x)) \<and>
    up c' \<and> represents coll (tables c') (fst (spec_step coll F x))"
  using assms commit_refines remove_refines list_refines by (cases x) metis+

lemma run_refines:
  assumes "up c" "\<forall>x \<in> set xs. op_ok x" "represents coll (tables c) F"
  shows "\<exists>c'. helper_run M c xs = Inr (c', snd (spec_run coll F xs)) \<and>
    up c' \<and> represents coll (tables c') (fst (spec_run coll F xs))"
  using assms
proof (induction xs arbitrary: c F)
  case (Cons x xs)
  obtain c1 where c1: "helper_step M c x = Inr (c1, snd (spec_step coll F x))" "up c1"
    "represents coll (tables c1) (fst (spec_step coll F x))"
    using step_refines [OF Cons.prems(1) _ Cons.prems(3), of x] Cons.prems(2) by auto
  from Cons.IH [OF c1(2) _ c1(3)] Cons.prems(2) c1(1) show ?case
    by (auto split: prod.splits)
qed auto

end

end
