(* ===== verification/Meta_Contract.thy ===== *)
theory Meta_Contract
  imports Meta_Handlers Metadata_Spec
begin

text \<open>
  What the workers of the metadata server answer and do to the tables, proved in the locale
  \<open>metadata\<close>, which joins the laws of jsoncpp with those of the MySQL server.
\<close>

section \<open>Vectors and JSON arrays\<close>

context jsoncpp_values
begin

lemma stringToJson_from_elems:
  assumes "j_elems v = Some vs"
  shows "\<exists>v'. stringToJson_from J (length vs) ss v = Inr v' \<and>
    j_elems v' = Some (vs @ map (j_string J) ss) \<and> (ss = [] \<longrightarrow> v' = v) \<and> (ss \<noteq> [] \<longrightarrow> \<not> j_is_null J v')"
  using assms
proof (induction ss arbitrary: v vs)
  case (Cons s ss)
  obtain v1 where v1: "j_set J v (length vs) (j_string J s) = Some v1"
    "j_elems v1 = Some (vs @ [j_string J s])" "\<not> j_is_null J v1"
    using set_elems [OF Cons.prems] by blast
  have "length (vs @ [j_string J s]) = Suc (length vs)" by simp
  with Cons.IH [OF v1(2)] v1 show ?case by (cases "ss = []") auto
qed simp

lemma stringToJson_elems:
  "\<exists>v. stringToJson J ss (j_null J) = Inr v \<and> j_elems v = Some (map (j_string J) ss) \<and>
    (ss = [] \<longrightarrow> v = j_null J) \<and> (ss \<noteq> [] \<longrightarrow> \<not> j_is_null J v)"
  using stringToJson_from_elems [OF elems_null, of ss] by (simp add: stringToJson_def)

lemma jsonToString_from_elems:
  assumes "j_elems v = Some (map (j_string J) ss)" "k \<le> length ss"
  shows "jsonToString_from J v [k..<length ss] acc = Inr (acc @ drop k ss)"
  using assms(2)
proof (induction "length ss - k" arbitrary: k acc)
  case (Suc n)
  then have k: "k < length ss" by simp
  then have "[k..<length ss] = k # [Suc k..<length ss]" by (rule upt_conv_Cons)
  moreover have "j_at J v k = Some (j_string J (ss ! k))"
    using at_elems [OF assms(1)] k by simp
  moreover have "jsonToString_from J v [Suc k..<length ss] (acc @ [ss ! k]) =
      Inr ((acc @ [ss ! k]) @ drop (Suc k) ss)"
    using Suc k by simp
  ultimately show ?case using k by (simp add: as_string_string Cons_nth_drop_Suc)
qed simp

lemma jsonToString_elems:
  assumes "j_elems v = Some (map (j_string J) ss)"
  shows "jsonToString J v acc = Inr (acc @ ss)"
  using jsonToString_from_elems [OF assms, of 0 acc] size_elems [OF assms]
  by (simp add: jsonToString_def)

lemma json_round_trip: "bind_exec (stringToJson J ss (j_null J)) (\<lambda>v. jsonToString J v []) = Inr ss"
proof -
  obtain v where v: "stringToJson J ss (j_null J) = Inr v" "j_elems v = Some (map (j_string J) ss)"
    using stringToJson_elems by blast
  have "jsonToString J v [] = Inr ss" using jsonToString_elems [OF v(2), of "[]"] by simp
  with v(1) show ?thesis by simp
qed

text \<open>Objects built member by member.\<close>

lemma put_null: "\<exists>v. put J (j_null J) k w = Inr v \<and> j_members v = Some [k \<mapsto> w]"
  using put_members [OF members_null, of k w] by (auto simp: put_def)

lemma put_more: "j_members v = Some m \<Longrightarrow> \<exists>v'. put J v k w = Inr v' \<and> j_members v' = Some (m(k \<mapsto> w))"
  using put_members [of v m k w] by (auto simp: put_def)

lemma put_one:
  obtains v where "put J (j_null J) k w = Inr v" "j_members v = Some [k \<mapsto> w]"
  using put_null by blast

lemma put_two:
  obtains v v' where "put J (j_null J) k w = Inr v" "put J v k' w' = Inr v'"
    "j_members v' = Some [k \<mapsto> w, k' \<mapsto> w']"
  using put_null put_more by metis

lemma get_member: "j_members v = Some m \<Longrightarrow> m k = Some w \<Longrightarrow> get J v k = Inr w"
  using get_members [of v m k] by (simp add: get_def)

end

section \<open>Requests\<close>

text \<open>
  \<open>asks r ps\<close>: a request whose body can be read and whose query string has the values \<open>ps\<close>.
  \<open>posts J r m\<close>: a request with a JSON object \<open>m\<close> for a body.
\<close>

definition asks :: "request \<Rightarrow> (string \<times> string) list \<Rightarrow> bool" where
  "asks r ps \<longleftrightarrow> \<not> crashes (response_body r) \<and>
     (\<exists>q. query_string r = Some q \<and> (\<forall>(k, v) \<in> set ps. getQueryParam q k [] = Inr (0, v)))"

definition posts :: "'j jsoncpp \<Rightarrow> ('j \<Rightarrow> (string \<rightharpoonup> 'j) option) \<Rightarrow> request \<Rightarrow> (string \<rightharpoonup> 'j) \<Rightarrow> bool" where
  "posts J j_members r m \<longleftrightarrow> snd (gstdin STDIN_MAX r) \<noteq> 0 \<and>
     (\<exists>body root. response_body r = Inr body \<and> j_parse J body = (True, root) \<and> j_members root = Some m)"

text \<open>A JSON answer with the members \<open>m\<close> after the lines \<open>head\<close>.\<close>

definition answers ::
  "'j jsoncpp \<Rightarrow> ('j \<Rightarrow> (string \<rightharpoonup> 'j) option) \<Rightarrow> string \<Rightarrow> (string \<rightharpoonup> 'j) \<Rightarrow> string \<Rightarrow> bool" where
  "answers J j_members head m out \<longleftrightarrow>
     (\<exists>v. j_members v = Some m \<and> out = head @ j_write J v)"

text \<open>The value of a commit request: user, file, hashes and the text of the version.\<close>

definition commit_fields ::
  "'j jsoncpp \<Rightarrow> ('j \<Rightarrow> 'j list option) \<Rightarrow> (string \<rightharpoonup> 'j) \<Rightarrow> string \<Rightarrow> string \<Rightarrow> string list \<Rightarrow> string \<Rightarrow> bool" where
  "commit_fields J j_elems m u f hs vt \<longleftrightarrow>
     m ''user_id'' = Some (j_string J u) \<and> m ''file_name'' = Some (j_string J f) \<and>
     (\<exists>a. m ''block_list'' = Some a \<and> \<not> j_is_null J a \<and> j_elems a = Some (map (j_string J) hs)) \<and>
     (\<exists>w. m ''version'' = Some w \<and> \<not> j_is_null J w \<and> j_as_string J w = Some vt)"

definition commit_version :: "string \<Rightarrow> 32 word" where
  "commit_version vt = word_of_int (atoi (c_str vt))"

lemma limit_word:
  assumes "n < 2 ^ 31"
  shows "unat (word_of_int (atoi (show_nat n)) :: 32 word) = n"
    and "0 \<le> sint (word_of_int (atoi (show_nat n)) :: 32 word)"
proof -
  have "(word_of_int (atoi (show_nat n)) :: 32 word) = word_of_nat n"
    using assms by (intro word_atoi_show_nat) simp
  moreover have "unat (word_of_nat n :: 32 word) = n"
    using assms by (simp add: unat_of_nat)
  moreover have "sint (word_of_nat n :: 32 word) = int n"
    using assms by (simp add: signed_of_nat signed_take_bit_int_eq_self)
  ultimately show "unat (word_of_int (atoi (show_nat n)) :: 32 word) = n"
    "0 \<le> sint (word_of_int (atoi (show_nat n)) :: 32 word)"
    by simp_all
qed

section \<open>The workers on a server that is up\<close>

locale metadata =
  json: jsoncpp_values J j_elems j_members +
  db: reliable_mysql M tables pending coll up
  for J :: "'j jsoncpp" and j_elems :: "'j \<Rightarrow> 'j list option"
    and j_members :: "'j \<Rightarrow> (string \<rightharpoonup> 'j) option"
    and M :: "'c mysql_api" and tables :: "'c \<Rightarrow> db" and pending :: "'c \<Rightarrow> row list"
    and coll :: "string \<Rightarrow> string \<Rightarrow> bool" and up :: "'c \<Rightarrow> bool"
begin

lemma close_tables_id: "tables (fst (close M c)) = tables c"
  by (simp add: close_def db.close_tables)

lemma file_commit_answer:
  assumes "posts J j_members r m" "commit_fields J j_elems m u f hs vt"
    and "op_ok (Commit u f hs (commit_version vt))" "represents coll (tables c) F"
  shows "\<exists>c' out. file_commit_request J M c r = Inr (c', out) \<and>
    represents coll (tables c') (fst (spec_step coll F (Commit u f hs (commit_version vt)))) \<and>
    (if snd (spec_step coll F (Commit u f hs (commit_version vt))) = Status 0
     then answers J j_members outputNormalMessage [''metadata_updated'' \<mapsto> j_bool J True] out
     else answers J j_members outputErrorMessage
       [''metadata_updated'' \<mapsto> j_bool J False, ''message'' \<mapsto> j_string J ''Old client version.''] out)"
proof -
  let ?x = "Commit u f hs (commit_version vt)"
  obtain body root where b: "snd (gstdin STDIN_MAX r) \<noteq> 0" "response_body r = Inr body"
    "j_parse J body = (True, root)" "j_members root = Some m"
    using assms(1) by (auto simp: posts_def)
  obtain a w where m: "m ''user_id'' = Some (j_string J u)" "m ''file_name'' = Some (j_string J f)"
    "m ''block_list'' = Some a" "\<not> j_is_null J a" "j_elems a = Some (map (j_string J) hs)"
    "m ''version'' = Some w" "\<not> j_is_null J w" "j_as_string J w = Some vt"
    using assms(2) by (auto simp: commit_fields_def)
  note g = json.get_member [OF b(4)]
  have hs: "jsonToString J a [] = Inr hs" using json.jsonToString_elems [OF m(5), of "[]"] by simp
  obtain c1 where c1: "connect M c = (c1, True, 0)" "up c1" "tables c1 = tables c"
    using db.connect_up by blast
  obtain c2 where c2: "helper_step M c1 ?x = Inr (c2, snd (spec_step coll F ?x))" 
    "represents coll (tables c2) (fst (spec_step coll F ?x))"
    using db.step_refines [OF c1(2) assms(3), of F] assms(4) c1(3) by auto
  then obtain s where s: "updateFileData M True c1 u f hs (commit_version vt) = Inr (c2, s)"
    "snd (spec_step coll F ?x) = Status s"
    by (auto simp: bind_exec_eq_Inr)
  then have sc: "s = 0 \<or> s = EVERS" by (auto split: if_splits)
  have step: "file_commit_request J M c r =
      (if s = 0 then bind_exec (put J (j_null J) ''metadata_updated'' (j_bool J True)) (\<lambda>response.
          Inr (fst (close M c2), outputNormalMessage @ j_write J response))
       else bind_exec (put J (j_null J) ''metadata_updated'' (j_bool J False)) (\<lambda>response.
          bind_exec (put J response ''message'' (j_string J ''Old client version.'')) (\<lambda>response.
          Inr (fst (close M c2), outputErrorMessage @ j_write J response))))"
    using b m hs c1(1) s(1) sc json.not_null_string
    by (auto simp: file_commit_request_def g as_string_def json.as_string_string
        commit_version_def EVERS_def)
  obtain v1 where v1: "put J (j_null J) ''metadata_updated'' (j_bool J True) = Inr v1"
    "j_members v1 = Some [''metadata_updated'' \<mapsto> j_bool J True]"
    by (rule json.put_one)
  obtain v2 v3 where v3: "put J (j_null J) ''metadata_updated'' (j_bool J False) = Inr v2"
    "put J v2 ''message'' (j_string J ''Old client version.'') = Inr v3"
    "j_members v3 = Some [''metadata_updated'' \<mapsto> j_bool J False,
       ''message'' \<mapsto> j_string J ''Old client version.'']"
    by (rule json.put_two)
  show ?thesis
    using step v1 v3 c2(2) s(2) sc close_tables_id [of c2]
    by (auto simp: answers_def EVERS_def)
qed

lemma block_list_answer:
  assumes "asks r [(''user_id'', u), (''file_name'', f)]" "clean u" "clean f"
    and "represents coll (tables c) F"
  shows "\<exists>c' out bl. block_list_request J M c r = Inr (c', out) \<and> tables c' = tables c \<and>
    j_elems bl = Some (map (j_string J) (fst (F u f))) \<and> (fst (F u f) = [] \<longrightarrow> bl = j_null J) \<and>
    answers J j_members outputNormalMessage
      [''block_list'' \<mapsto> bl, ''version'' \<mapsto> j_uint J (word_of_nat (snd (F u f)))] out"
proof -
  obtain b q where q: "response_body r = Inr b" "query_string r = Some q"
    "getQueryParam q ''user_id'' [] = Inr (0, u)" "getQueryParam q ''file_name'' [] = Inr (0, f)"
    using assms(1) by (auto simp: asks_def not_crashes)
  obtain c1 where c1: "connect M c = (c1, True, 0)" "up c1" "tables c1 = tables c"
    using db.connect_up by blast
  obtain u0 f0 where F: "holds_file (file_rows coll u f (tables c1)) u0 f0 (fst (F u f)) (snd (F u f))"
    "snd (F u f) < 2 ^ 32" "fst (F u f) = [] \<Longrightarrow> snd (F u f) = 0"
    using represents_file [OF assms(4)] c1(3) by metis
  obtain c2 where c2: "getFileBlockList M True c1 u f [] 0 = Inr (c2, 0, fst (F u f), word_of_nat (snd (F u f)))"
    "tables c2 = tables c1"
    using db.getFileBlockList_up [OF c1(2) assms(2,3) F(1,2), of 0] F(3) by auto
  obtain bl where bl: "stringToJson J (fst (F u f)) (j_null J) = Inr bl"
    "j_elems bl = Some (map (j_string J) (fst (F u f)))" "fst (F u f) = [] \<longrightarrow> bl = j_null J"
    using json.stringToJson_elems by blast
  obtain v1 v2 where v2: "put J (j_null J) ''block_list'' bl = Inr v1"
    "put J v1 ''version'' (j_uint J (word_of_nat (snd (F u f)))) = Inr v2"
    "j_members v2 = Some [''block_list'' \<mapsto> bl, ''version'' \<mapsto> j_uint J (word_of_nat (snd (F u f)))]"
    by (rule json.put_two)
  have "block_list_request J M c r = Inr (fst (close M c2), outputNormalMessage @ j_write J v2)"
    using q c1(1) c2(1) bl(1) v2(1,2) by (simp add: block_list_request_def)
  with v2(3) bl(2,3) c1(3) c2(2) close_tables_id [of c2] show ?thesis
    by (auto simp: answers_def)
qed

lemma file_delete_rows:
  assumes "asks r [(''user_id'', u), (''file_name'', f)]" "clean u" "clean f"
    and "represents coll (tables c) F"
  shows "\<exists>c' out. file_delete_request J M c r = Inr (c', out) \<and>
    represents coll (tables c') (set_file coll u f ([], 0) F) \<and>
    size (fileblock (tables c')) \<le> size (fileblock (tables c)) \<and>
    answers J j_members outputNormalMessage [''is_delete'' \<mapsto> j_bool J True] out"
proof -
  obtain b q where q: "response_body r = Inr b" "query_string r = Some q"
    "getQueryParam q ''user_id'' [] = Inr (0, u)" "getQueryParam q ''file_name'' [] = Inr (0, f)"
    using assms(1) by (auto simp: asks_def not_crashes)
  obtain c1 where c1: "connect M c = (c1, True, 0)" "up c1" "tables c1 = tables c"
    using db.connect_up by blast
  obtain c2 where c2: "removeFile M True c1 u f = Inr (c2, 0)"
    "represents coll (tables c2) (set_file coll u f ([], 0) F)"
    using db.remove_refines [of c1 u f F] c1 assms(2-4) by (auto simp: bind_exec_eq_Inr)
  obtain v where v: "put J (j_null J) ''is_delete'' (j_bool J True) = Inr v"
    "j_members v = Some [''is_delete'' \<mapsto> j_bool J True]"
    by (rule json.put_one)
  have "file_delete_request J M c r = Inr (fst (close M c2), outputNormalMessage @ j_write J v)"
    using q c1(1) c2(1) v(1) by (simp add: file_delete_request_def)
  moreover have "size (fileblock (tables c2)) \<le> size (fileblock (tables c1))"
  proof -
    have "file_rows coll u f (tables c2) = {#}" "others coll u f (tables c2) = others coll u f (tables c1)"
      using db.removeFile_outcome [OF assms(2,3), of c1] c2(1) by auto
    moreover have "fileblock (tables c2) = file_rows coll u f (tables c2) + fst (others coll u f (tables c2))"
      unfolding file_rows_def others_def fst_conv by (rule multiset_partition)
    ultimately have "fileblock (tables c2) = fst (others coll u f (tables c1))" by simp
    then show ?thesis by (simp add: others_def size_filter_mset_lesseq)
  qed
  ultimately show ?thesis using v(2) c2(2) c1(3) close_tables_id [of c2] by (auto simp: answers_def)
qed

lemma file_delete_answer:
  assumes "asks r [(''user_id'', u), (''file_name'', f)]" "clean u" "clean f"
    and "represents coll (tables c) F"
  shows "\<exists>c' out. file_delete_request J M c r = Inr (c', out) \<and>
    represents coll (tables c') (set_file coll u f ([], 0) F) \<and>
    answers J j_members outputNormalMessage [''is_delete'' \<mapsto> j_bool J True] out"
  using file_delete_rows [OF assms] by blast

text \<open>
  Which of the offered blocks the server lacks. The answer names them, or says that none is
  needed; so it does when no block is offered and the pointer never assigned is null.
\<close>

lemma block_query_answer:
  assumes "posts J j_members r m"
    and "m ''user_id'' = Some u" "\<not> j_is_null J u" "m ''file_name'' = Some f" "\<not> j_is_null J f"
    and "m ''block_list'' = Some a" "\<not> j_is_null J a" "j_elems a = Some (map (j_string J) hs)"
    and "hs \<noteq> [] \<or> my_unset_null M (fst (connect M c))" "\<forall>x \<in> set hs. clean x"
      "size (fileblock (tables c)) < 2 ^ 31"
  shows "\<exists>c' out. block_query_request J M c r = Inr (c', out) \<and> tables c' = tables c \<and>
    (let missing = filter (\<lambda>x. \<not> hash_known coll (tables c) x) hs in
     if missing = [] then answers J j_members outputNormalMessage [''nb'' \<mapsto> j_bool J False] out
     else \<exists>nb. j_elems nb = Some (map (j_string J) missing) \<and>
       answers J j_members outputNormalMessage [''nb'' \<mapsto> j_bool J True, ''needed_blocks'' \<mapsto> nb] out)"
proof -
  let ?missing = "filter (\<lambda>x. \<not> hash_known coll (tables c) x) hs"
  obtain body root where b: "snd (gstdin STDIN_MAX r) \<noteq> 0" "response_body r = Inr body"
    "j_parse J body = (True, root)" "j_members root = Some m"
    using assms(1) by (auto simp: posts_def)
  have g: "get J root ''user_id'' = Inr u" "get J root ''file_name'' = Inr f" "get J root ''block_list'' = Inr a"
    using json.get_member [OF b(4)] assms(2,4,6) by auto
  have hs: "jsonToString J a [] = Inr hs" using json.jsonToString_elems [OF assms(8), of "[]"] by simp
  obtain c1 where c1: "connect M c = (c1, True, 0)" "up c1" "tables c1 = tables c"
    using db.connect_up by blast
  obtain c2 where c2: "missing_loop M True c1 hs [] = Inr (c2, 0, ?missing)" "tables c2 = tables c1"
    using db.missing_loop_up [OF c1(2) assms(10), of "[]"] assms(11) c1(3) by auto
  have q: "getMissingBlockHashes M True c1 hs [] = Inr (c2, 0, ?missing)"
    using c2(1) c1(1) assms(9) by (auto simp: getMissingBlockHashes_def)
  obtain v1 where v1: "put J (j_null J) ''nb'' (j_bool J False) = Inr v1"
    "j_members v1 = Some [''nb'' \<mapsto> j_bool J False]"
    by (rule json.put_one)
  obtain nb where nb: "stringToJson J ?missing (j_null J) = Inr nb"
    "j_elems nb = Some (map (j_string J) ?missing)"
    using json.stringToJson_elems by blast
  obtain v2 v3 where v3: "put J (j_null J) ''nb'' (j_bool J True) = Inr v2"
    "put J v2 ''needed_blocks'' nb = Inr v3"
    "j_members v3 = Some [''nb'' \<mapsto> j_bool J True, ''needed_blocks'' \<mapsto> nb]"
    by (rule json.put_two)
  have "block_query_request J M c r = Inr (fst (close M c2), outputNormalMessage @
      (if ?missing = [] then j_write J v1 else j_write J v3))"
    using b g assms(3,5,7) hs c1(1) q v1(1) nb(1) v3(1,2) by (simp add: block_query_request_def)
  with v1(2) v3(3) nb(2) c2(2) c1(3) close_tables_id [of c2] show ?thesis
    by (auto simp: answers_def Let_def)
qed

lemma recent_hashes_answer:
  assumes "asks r [(''user_id'', u), (''max_hashes'', show_nat n)]" "clean u" "n < 2 ^ 31"
  shows "\<exists>c' out bl xs. recent_hashes_request J M c r = Inr (c', out) \<and> tables c' = tables c \<and>
    mset xs = user_blocks coll u (tables c) \<and> sorted_wrt recent_order xs \<and>
    j_elems bl = Some (map (j_string J) (map fb_hash (take n xs))) \<and>
    answers J j_members outputNormalMessage [''block_list'' \<mapsto> bl] out"
proof -
  obtain b q where q: "response_body r = Inr b" "query_string r = Some q"
    "getQueryParam q ''user_id'' [] = Inr (0, u)" "getQueryParam q ''max_hashes'' [] = Inr (0, show_nat n)"
    using assms(1) by (auto simp: asks_def not_crashes)
  obtain c1 where c1: "connect M c = (c1, True, 0)" "up c1" "tables c1 = tables c"
    using db.connect_up by blast
  let ?n = "word_of_int (atoi (show_nat n)) :: 32 word"
  have w: "unat ?n = n" "0 \<le> sint ?n" using assms(3) by (rule limit_word)+
  obtain c2 hs xs where c2: "getRecentFirstHashes M True c1 u ?n [] = Inr (c2, 0, hs)"
    "tables c2 = tables c1" "mset xs = user_blocks coll u (tables c1)" "sorted_wrt recent_order xs"
    "hs = map fb_hash (take (unat ?n) xs)"
    using db.getRecentFirstHashes_up [OF c1(2) assms(2) w(2)] by blast
  obtain bl where bl: "stringToJson J hs (j_null J) = Inr bl" "j_elems bl = Some (map (j_string J) hs)"
    using json.stringToJson_elems by blast
  obtain v where v: "put J (j_null J) ''block_list'' bl = Inr v" "j_members v = Some [''block_list'' \<mapsto> bl]"
    by (rule json.put_one)
  have "recent_hashes_request J M c r = Inr (fst (close M c2), outputNormalMessage @ j_write J v)"
    using q c1(1) c2(1) bl(1) v(1) by (simp add: recent_hashes_request_def)
  with v(2) bl(2) c2(2-5) c1(3) w(1) close_tables_id [of c2] show ?thesis
    by (auto simp: answers_def)
qed

lemma user_caches_answer:
  assumes "asks r [(''user_id'', u), (''max'', show_nat n)]" "clean u" "n < 2 ^ 31"
  shows "\<exists>c' out cs xs. user_caches_request J M c r = Inr (c', out) \<and> tables c' = tables c \<and>
    mset xs = user_caches coll u (tables c) \<and>
    j_elems cs = Some (map (j_string J) (map uc_cache (take n xs))) \<and>
    answers J j_members outputNormalMessage [''caches'' \<mapsto> cs] out"
proof -
  obtain b q where q: "response_body r = Inr b" "query_string r = Some q"
    "getQueryParam q ''user_id'' [] = Inr (0, u)" "getQueryParam q ''max'' [] = Inr (0, show_nat n)"
    using assms(1) by (auto simp: asks_def not_crashes)
  obtain c1 where c1: "connect M c = (c1, True, 0)" "up c1" "tables c1 = tables c"
    using db.connect_up by blast
  let ?n = "word_of_int (atoi (show_nat n)) :: 32 word"
  have w: "unat ?n = n" "0 \<le> sint ?n" using assms(3) by (rule limit_word)+
  obtain c2 as xs where c2: "getCaches M True c1 u ?n [] = Inr (c2, 0, as)"
    "tables c2 = tables c1" "mset xs = user_caches coll u (tables c1)" "as = map uc_cache (take (unat ?n) xs)"
    using db.getCaches_up [OF c1(2) assms(2) w(2)] by blast
  obtain cs where cs: "stringToJson J as (j_null J) = Inr cs" "j_elems cs = Some (map (j_string J) as)"
    using json.stringToJson_elems by blast
  obtain v where v: "put J (j_null J) ''caches'' cs = Inr v" "j_members v = Some [''caches'' \<mapsto> cs]"
    by (rule json.put_one)
  have "user_caches_request J M c r = Inr (fst (close M c2), outputNormalMessage @ j_write J v)"
    using q c1(1) c2(1) cs(1) v(1) by (simp add: user_caches_request_def)
  with v(2) cs(2) c2(2-4) c1(3) w(1) close_tables_id [of c2] show ?thesis
    by (auto simp: answers_def)
qed

lemma file_pairs_elems:
  assumes "length fs = length vs" "j_elems a = Some es"
  shows "\<exists>a' ps. file_pairs J (length es) fs vs a = Inr a' \<and> j_elems a' = Some (es @ ps) \<and>
    map j_elems ps = map (\<lambda>(f, v). Some [j_string J f, j_int J (atoi v)]) (zip fs vs)"
  using assms
proof (induction fs vs arbitrary: a es rule: list_induct2)
  case (Cons f fs v vs)
  obtain p1 where p1: "j_set J (j_null J) 0 (j_string J f) = Some p1" "j_elems p1 = Some [j_string J f]"
    using json.set_elems [OF json.elems_null, of "j_string J f"] by auto
  obtain p2 where p2: "j_set J p1 1 (j_int J (atoi v)) = Some p2"
    "j_elems p2 = Some [j_string J f, j_int J (atoi v)]"
    using json.set_elems [OF p1(2), of "j_int J (atoi v)"] by auto
  obtain a1 where a1: "j_set J a (length es) p2 = Some a1" "j_elems a1 = Some (es @ [p2])"
    using json.set_elems [OF Cons.prems, of p2] by auto
  obtain a' ps where "file_pairs J (length (es @ [p2])) fs vs a1 = Inr a'"
    "j_elems a' = Some ((es @ [p2]) @ ps)"
    "map j_elems ps = map (\<lambda>(f, v). Some [j_string J f, j_int J (atoi v)]) (zip fs vs)"
    using Cons.IH [OF a1(2)] by blast
  with p1 p2 a1 show ?case by (intro exI [of _ a'] exI [of _ "p2 # ps"]) simp
qed auto

lemma file_list_answer:
  assumes "asks r [(''user_id'', u)]" "clean u" "fb_inv coll (tables c)"
  shows "\<exists>c' out files ps fs vs. file_list_request J M c r = Inr (c', out) \<and> tables c' = tables c \<and>
    lists_files coll u (tables c) fs vs \<and> j_elems files = Some ps \<and>
    map j_elems ps = map (\<lambda>(f, v). Some [j_string J f, j_int J (atoi v)]) (zip fs vs) \<and>
    (fs = [] \<longrightarrow> files = j_null J) \<and> answers J j_members outputNormalMessage [''files'' \<mapsto> files] out"
proof -
  obtain b q where q: "response_body r = Inr b" "query_string r = Some q"
    "getQueryParam q ''user_id'' [] = Inr (0, u)"
    using assms(1) by (auto simp: asks_def not_crashes)
  obtain c1 where c1: "connect M c = (c1, True, 0)" "up c1" "tables c1 = tables c"
    using db.connect_up by blast
  obtain c2 fs vs where c2: "getUserFileNames M True c1 u [] [] = Inr (c2, 0, fs, vs)"
    "tables c2 = tables c1" "lists_files coll u (tables c1) fs vs"
    using db.getUserFileNames_up [OF c1(2) assms(2)] assms(3) c1(3) by auto
  have "length fs = length vs" using c2(3) by (simp add: lists_files_def)
  from file_pairs_elems [OF this json.elems_null] obtain files ps where
    f: "file_pairs J 0 fs vs (j_null J) = Inr files" "j_elems files = Some ps"
    "map j_elems ps = map (\<lambda>(f, v). Some [j_string J f, j_int J (atoi v)]) (zip fs vs)"
    by auto
  have none: "fs = [] \<longrightarrow> files = j_null J" using f(1) by (cases vs) auto
  obtain v where v: "put J (j_null J) ''files'' files = Inr v" "j_members v = Some [''files'' \<mapsto> files]"
    by (rule json.put_one)
  have "file_list_request J M c r = Inr (fst (close M c2), outputNormalMessage @ j_write J v)"
    using q c1(1) c2(1) f(1) v(1) by (simp add: file_list_request_def)
  moreover have "answers J j_members outputNormalMessage [''files'' \<mapsto> files] (outputNormalMessage @ j_write J v)"
    using v(2) by (auto simp: answers_def)
  moreover have "tables (fst (close M c2)) = tables c" "lists_files coll u (tables c) fs vs"
    using c2(2,3) c1(3) close_tables_id [of c2] by simp_all
  ultimately show ?thesis using f(2,3) none by blast
qed

text \<open>Cache registrations.\<close>

lemma user_cache_add_answer:
  assumes "asks r [(''user_id'', u), (''cache_ip'', a)]" "name_ok u" "name_ok a"
  shows "\<exists>c'. user_cache_add_request M c r = Inr (c', outputNormalMessage) \<and>
    tables c' = (tables c)\<lparr>usercache := add_mset \<lparr>uc_user = u, uc_cache = a\<rparr> (usercache (tables c))\<rparr>"
proof -
  obtain b q where q: "response_body r = Inr b" "query_string r = Some q"
    "getQueryParam q ''user_id'' [] = Inr (0, u)" "getQueryParam q ''cache_ip'' [] = Inr (0, a)"
    using assms(1) by (auto simp: asks_def not_crashes)
  obtain c1 where c1: "connect M c = (c1, True, 0)" "up c1" "tables c1 = tables c"
    using db.connect_up by blast
  obtain c2 where c2: "addCache M True c1 u a = Inr (c2, 0)"
    "tables c2 = (tables c1)\<lparr>usercache := add_mset \<lparr>uc_user = u, uc_cache = a\<rparr> (usercache (tables c1))\<rparr>"
    using db.addCache_up [OF c1(2) assms(2,3)] by blast
  have "user_cache_add_request M c r = Inr (fst (close M c2), outputNormalMessage)"
    using q c1(1) c2(1) by (simp add: user_cache_add_request_def)
  with c2(2) c1(3) close_tables_id [of c2] show ?thesis by simp
qed

lemma user_cache_remove_answer:
  assumes "asks r [(''user_id'', u), (''cache_ip'', a)]" "clean u" "clean a"
  shows "\<exists>c'. user_cache_remove_request M c r = Inr (c', outputNormalMessage) \<and>
    tables c' = (tables c)\<lparr>usercache :=
      filter_mset (\<lambda>r. \<not> (coll (uc_user r) u \<and> coll (uc_cache r) a)) (usercache (tables c))\<rparr>"
proof -
  obtain b q where q: "response_body r = Inr b" "query_string r = Some q"
    "getQueryParam q ''user_id'' [] = Inr (0, u)" "getQueryParam q ''cache_ip'' [] = Inr (0, a)"
    using assms(1) by (auto simp: asks_def not_crashes)
  obtain c1 where c1: "connect M c = (c1, True, 0)" "up c1" "tables c1 = tables c"
    using db.connect_up by blast
  obtain c2 where c2: "removeCache M True c1 u a = Inr (c2, 0)"
    "tables c2 = (tables c1)\<lparr>usercache :=
       filter_mset (\<lambda>r. \<not> (coll (uc_user r) u \<and> coll (uc_cache r) a)) (usercache (tables c1))\<rparr>"
    using db.removeCache_up [OF c1(2) assms(2,3)] by blast
  have "user_cache_remove_request M c r = Inr (fst (close M c2), outputNormalMessage)"
    using q c1(1) c2(1) by (simp add: user_cache_remove_request_def)
  with c2(2) c1(3) close_tables_id [of c2] show ?thesis by simp
qed

end

end
