(* ===== verification/Prefetch_Contract.thy ===== *)
theory Prefetch_Contract
  imports Cache_Contract Meta_Contract
begin

text \<open>
  What one request to the fetch worker of a cache machine does, and what the prefetcher does with
  the message it sends, in the locale \<open>cache_node\<close>.
\<close>

section \<open>The message\<close>

text \<open>The text the prefetcher receives: the message, padded with NUL bytes.\<close>

definition padded :: "string \<Rightarrow> string" where
  "padded msg = msg @ replicate (PREFETCH_MSG_SIZE - length msg) nul"

lemma length_prefetch_message: "length (prefetch_message u k) = length u + length k + 27"
  by (simp add: prefetch_message_def)

lemma sendMsg_fits:
  assumes "sending N push" "s_socket N q = (q, True)" "s_resolve N q"
    and "s_connect N q loopback_address prefetch_portno = (q, True)" "length msg \<le> PREFETCH_MSG_SIZE"
  shows "sendMsg N q msg = Inr (s_close N (push q (padded msg)), 0)"
  using assms(2-5) sending.send_all [OF assms(1)]
  by (simp add: sendMsg_def padded_def Let_def)

lemma sendMsg_too_long:
  assumes "s_socket N q = (q1, True)" "s_resolve N q1" "PREFETCH_MSG_SIZE < length msg"
  shows "sendMsg N q msg = Inl Buffer_Overflow"
  using assms by (cases "s_connect N q1 loopback_address prefetch_portno") (simp add: sendMsg_def Let_def)

section \<open>The two programs\<close>

context cache_node
begin

lemma fetch_request_outcome:
  assumes "coherent s h" "requestable h k"
    and "query_string r = Some qs" "HttpHelper_getQueryParam qs ''hash'' [] = Inr (a, k)"
    and "HttpHelper_getQueryParam qs ''user'' [] = Inr (b, u)"
    and "sendMsg N q (prefetch_message u k) = Inr (q', e)"
  shows "\<exists>s' h' out. cache_block_fetch_request H X N (s, h, q) r = Inr ((s', h', q'), out) \<and>
    right_answer h k out \<and> coherent s' h' \<and> blocks h' = blocks h \<and> contents s' = (contents s)(k := blocks h k)"
proof -
  obtain s' h' out where "answer_block H X s h k = Inr (s', h', out)" "right_answer h k out"
    "coherent s' h'" "blocks h' = blocks h" "contents s' = (contents s)(k := blocks h k)"
    using answer_held [OF assms(1,2)] by blast
  with assms(3-6) show ?thesis by (simp add: cache_block_fetch_request_def)
qed

lemma pickHashes_from_filter:
  assumes "jsoncpp_values J j_elems j_members" "j_elems v = Some (map (j_string J) ks)"
    and "ready s" "map_admitted (contents s)" "\<forall>i \<in> set is. i < length ks \<and> key_admitted (ks ! i)"
  shows "\<exists>s'. pickHashes_from J H s v is acc =
      Inr (s', acc @ filter (\<lambda>k. contents s k = None) (map ((!) ks) is)) \<and>
    ready s' \<and> contents s' = contents s"
  using assms(3-5)
proof (induction "is" arbitrary: s acc)
  case (Cons i "is")
  then have i: "i < length ks" "key_admitted (ks ! i)" by simp_all
  have "j_at J v i = Some (j_string J (ks ! i))"
    using jsoncpp_values.at_elems [OF assms(1,2)] i(1) by simp
  moreover have "j_as_string J (j_string J (ks ! i)) = Some (ks ! i)"
    by (rule jsoncpp_values.as_string_string [OF assms(1)])
  moreover obtain s1 where s1: "alreadyExists H s (ks ! i) = Inr (s1, contents s (ks ! i) \<noteq> None)" "ready s1"
    "contents s1 = contents s"
    using cache.alreadyExists_contents [OF Cons.prems(1,2) i(2)] by blast
  ultimately show ?case
    using Cons.IH [of s1 "if contents s (ks ! i) \<noteq> None then acc else acc @ [ks ! i]"] Cons.prems(2,3) by auto
qed simp

lemma pickHashes_filter:
  assumes "jsoncpp_values J j_elems j_members" "j_elems v = Some (map (j_string J) ks)"
    and "ready s" "map_admitted (contents s)" "\<forall>k \<in> set ks. key_admitted k"
  shows "\<exists>s'. pickHashes J H s v = Inr (s', filter (\<lambda>k. contents s k = None) ks) \<and>
    ready s' \<and> contents s' = contents s"
proof -
  have "j_size J v = length ks" using jsoncpp_values.size_elems [OF assms(1,2)] by simp
  with pickHashes_from_filter [OF assms(1-4), of "[0..<length ks]" "[]"] assms(5) show ?thesis
    by (simp add: pickHashes_def map_nth)
qed

lemma picked_union:
  assumes "contents s \<subseteq>\<^sub>m m"
  shows "contents s ++ m |` set (filter (\<lambda>k. contents s k = None) ks) = contents s ++ m |` set ks"
proof
  fix k
  show "(contents s ++ m |` set (filter (\<lambda>k. contents s k = None) ks)) k = (contents s ++ m |` set ks) k"
    using assms by (cases "contents s k") (auto simp: map_add_def restrict_map_def map_le_def dom_def split: option.splits)
qed

text \<open>
  One connection of the prefetcher: after a message for user \<open>u\<close>, the cache holds every block
  of the list the metadata server answers with that the block server has.
\<close>

lemma prefetch_request_outcome:
  assumes J: "jsoncpp_values J j_elems j_members" and s: "coherent s h"
    and msg: "string_of_ptr (Some (take PREFETCH_MSG_SIZE (pc_bytes c) @
        replicate (PREFETCH_MSG_SIZE - length (take PREFETCH_MSG_SIZE (pc_bytes c))) nul)) (pc_after c) = Inr msg"
    and parse: "j_parse J msg = (True, root)" "j_members root = Some m"
      "m ''userID'' = Some (j_string J u)" "m ''hash'' = Some (j_string J k)"
    and look: "lookUpRecentHashes X h u = (h1, reply)" "blocks h1 = blocks h"
    and list: "j_parse J reply = (True, root2)" "j_members root2 = Some m2"
      "m2 ''block_list'' = Some bl" "j_elems bl = Some (map (j_string J) ks)" "j_is_null J bl \<Longrightarrow> ks = []"
    and ks: "\<forall>k \<in> set ks. served k \<and> key_admitted k \<and> (\<forall>b. blocks h k = Some b \<longrightarrow> entry_admitted k b)"
  shows "\<exists>s' h'. prefetch_request J H X (s, h) c = Inr (s', h') \<and> coherent s' h' \<and> blocks h' = blocks h \<and>
    contents s' = contents s ++ blocks h |` set ks"
proof -
  note get_or = jsoncpp_values.get_or_members [OF J]
  have u: "j_get_or J root ''userID'' d = Some (j_string J u)" "j_get_or J root ''hash'' d = Some (j_string J k)"
    "j_get_or J root2 ''block_list'' d = Some bl" for d
    using get_or parse(2-4) list(2,3) by auto
  have str: "j_as_string J (j_string J x) = Some x" for x
    by (rule jsoncpp_values.as_string_string [OF J])
  have run: "prefetch_request J H X (s, h) c =
      (if j_is_null J bl then Inr (s, h1)
       else bind_exec (pickHashes J H s bl) (\<lambda>(s, hs). retrieve H X s h1 hs))"
    using msg parse(1) look(1) list(1) u str by (simp add: prefetch_request_def Let_def)
  show ?thesis
  proof (cases "j_is_null J bl")
    case True
    moreover have "contents s ++ blocks h |` {} = contents s" by (simp add: restrict_map_def)
    ultimately show ?thesis using run list(5) s look(2) by (simp add: coherent_def)
  next
    case False
    obtain s1 where s1: "pickHashes J H s bl = Inr (s1, filter (\<lambda>k. contents s k = None) ks)"
      "ready s1" "contents s1 = contents s"
      using pickHashes_filter [OF J list(4), of s] s ks unfolding coherent_def by blast
    have "coherent s1 h1" using s s1(2,3) look(2) by (simp add: coherent_def)
    from retrieve_held [OF this, of "filter (\<lambda>k. contents s k = None) ks"] ks look(2)
    obtain s' h' where "retrieve H X s1 h1 (filter (\<lambda>k. contents s k = None) ks) = Inr (s', h')"
      "coherent s' h'" "blocks h' = blocks h1"
      "contents s' = contents s1 ++ blocks h1 |` set (filter (\<lambda>k. contents s k = None) ks)" by auto
    with run False s1 look(2) picked_union [of s "blocks h" ks] s show ?thesis
      by (simp add: coherent_def)
  qed
qed

end

end
