(* ===== verification/Meta_Invariant.thy ===== *)
theory Meta_Invariant
  imports Meta_Contract
begin

text \<open>
  Runs of the metadata server: the nine workers share the tables, each request runs to its
  end before the next one starts. Whatever the requests, and whether the server of the
  database answers or fails, the invariant of \<open>FileBlock\<close> survives, as long as the values
  in the requests need no SQL quoting and fit their columns.
\<close>

section \<open>Runs\<close>

datatype worker =
    W_block_list | W_file_list | W_recent_hashes | W_user_caches | W_block_query
  | W_file_commit | W_file_delete | W_user_cache_add | W_user_cache_remove

fun worker_request ::
  "worker \<Rightarrow> 'j jsoncpp \<Rightarrow> 'c mysql_api \<Rightarrow> 'c \<Rightarrow> request \<Rightarrow> ('c \<times> string) exec" where
  "worker_request W_block_list J M = block_list_request J M"
| "worker_request W_file_list J M = file_list_request J M"
| "worker_request W_recent_hashes J M = recent_hashes_request J M"
| "worker_request W_user_caches J M = user_caches_request J M"
| "worker_request W_block_query J M = block_query_request J M"
| "worker_request W_file_commit J M = file_commit_request J M"
| "worker_request W_file_delete J M = file_delete_request J M"
| "worker_request W_user_cache_add J M = user_cache_add_request M"
| "worker_request W_user_cache_remove J M = user_cache_remove_request M"

inductive meta_run ::
  "'j jsoncpp \<Rightarrow> 'c mysql_api \<Rightarrow> 'c \<Rightarrow> (worker \<times> request) list \<Rightarrow> 'c \<Rightarrow> bool"
  for J :: "'j jsoncpp" and M :: "'c mysql_api" and c0 :: 'c where
  meta_start: "meta_run J M c0 [] c0"
| meta_step: "meta_run J M c0 es c \<Longrightarrow> worker_request w J M c r = Inr (c', out) \<Longrightarrow>
     meta_run J M c0 (es @ [(w, r)]) c'"

inductive_cases meta_run_nil: "meta_run J M c0 [] c"

text \<open>The requests that need no quoting.\<close>

definition query_ok :: "request \<Rightarrow> bool" where
  "query_ok r \<longleftrightarrow> (\<forall>q k s v. query_string r = Some q \<longrightarrow> getQueryParam q k [] = Inr (s, v) \<longrightarrow> name_ok v)"

definition body_ok :: "'j jsoncpp \<Rightarrow> request \<Rightarrow> bool" where
  "body_ok J r \<longleftrightarrow>
     (\<forall>body root. response_body r = Inr body \<longrightarrow> j_parse J body = (True, root) \<longrightarrow>
        (\<forall>x s. get J root ''user_id'' = Inr x \<longrightarrow> as_string J x = Inr s \<longrightarrow> name_ok s) \<and>
        (\<forall>x s. get J root ''file_name'' = Inr x \<longrightarrow> as_string J x = Inr s \<longrightarrow> name_ok s) \<and>
        (\<forall>x hs. get J root ''block_list'' = Inr x \<longrightarrow> jsonToString J x [] = Inr hs \<longrightarrow>
           length hs < 2 ^ 31 \<and> (\<forall>h \<in> set hs. hash_ok h)) \<and>
        (\<forall>x s. get J root ''version'' = Inr x \<longrightarrow> as_string J x = Inr s \<longrightarrow> 0 \<le> sint (commit_version s)))"

fun request_ok :: "'j jsoncpp \<Rightarrow> worker \<times> request \<Rightarrow> bool" where
  "request_ok J (w, r) =
     (if w = W_block_query \<or> w = W_file_commit then body_ok J r else query_ok r)"

lemma query_okD: "query_ok r \<Longrightarrow> query_string r = Some q \<Longrightarrow> getQueryParam q k [] = Inr (s, v) \<Longrightarrow> name_ok v"
  unfolding query_ok_def by blast

lemma body_okD:
  assumes "body_ok J r" "response_body r = Inr body" "j_parse J body = (True, root)"
  shows "get J root ''user_id'' = Inr x \<Longrightarrow> as_string J x = Inr s \<Longrightarrow> name_ok s"
    and "get J root ''file_name'' = Inr x \<Longrightarrow> as_string J x = Inr s \<Longrightarrow> name_ok s"
    and "get J root ''block_list'' = Inr x \<Longrightarrow> jsonToString J x [] = Inr hs \<Longrightarrow> h \<in> set hs \<Longrightarrow> hash_ok h"
    and "get J root ''block_list'' = Inr x \<Longrightarrow> jsonToString J x [] = Inr hs \<Longrightarrow> length hs < 2 ^ 31"
    and "get J root ''version'' = Inr x \<Longrightarrow> as_string J x = Inr s \<Longrightarrow> 0 \<le> sint (commit_version s)"
  using assms unfolding body_ok_def by blast+

section \<open>One operation on the helper, whether it succeeds or fails\<close>

context mysql
begin

lemma fetch_rows_tables:
  assumes "fetch_rows M h c (sql_text st) = Inr (c', r)" "stmt_ok st \<or> negative_limit st" "is_select st"
  shows "tables c' = tables c"
proof (cases "stmt_ok st")
  case True
  from assms(1) have "h" by (simp add: fetch_rows_def split: if_splits)
  with assms fetch_rows_cases [OF _ True] show ?thesis by auto
next
  case False
  then have n: "negative_limit st" using assms(2) by simp
  from assms(1) have "h" by (simp add: fetch_rows_def split: if_splits)
  with fetch_rows_negative_limit [OF n, of c] assms(1) show ?thesis by auto
qed

lemma read_tables:
  shows "getFileBlockList M h c u f hs v = Inr (c', x) \<Longrightarrow> clean u \<Longrightarrow> clean f \<Longrightarrow> tables c' = tables c"
    and "getUserFileNames M h c u fs vs = Inr (c', y) \<Longrightarrow> clean u \<Longrightarrow> tables c' = tables c"
    and "getRecentFirstHashes M h c u n hs = Inr (c', z) \<Longrightarrow> clean u \<Longrightarrow> tables c' = tables c"
    and "getCaches M h c u n hs = Inr (c', z) \<Longrightarrow> clean u \<Longrightarrow> tables c' = tables c"
proof -
  have lim: "stmt_ok (Select_Recent (user_where u) (sint n)) \<or> negative_limit (Select_Recent (user_where u) (sint n))"
    "stmt_ok (Select_Caches (user_where u) (sint n)) \<or> negative_limit (Select_Caches (user_where u) (sint n))"
    if "clean u" using that sint_uint_ok [of n] by (cases "0 \<le> sint n"; simp)+
  show "tables c' = tables c" if a: "getFileBlockList M h c u f hs v = Inr (c', x)" "clean u" "clean f"
  proof -
    obtain c1 r where r: "fetch_rows M h c (sql_text (Select_Blocks (file_where u f))) = Inr (c1, r)"
      using a(1) by (auto simp: getFileBlockList_def file_clause_text bind_exec_eq_Inr)
    then have "c1 = c'"
      using a(1) by (cases r) (auto simp: getFileBlockList_def file_clause_text bind_exec_eq_Inr)
    with r have "fetch_rows M h c (sql_text (Select_Blocks (file_where u f))) = Inr (c', r)" by simp
    then show ?thesis by (rule fetch_rows_tables) (use a in simp_all)
  qed
  show "tables c' = tables c" if a: "getUserFileNames M h c u fs vs = Inr (c', y)" "clean u"
  proof -
    obtain c1 r where r: "fetch_rows M h c (sql_text (Select_Names (user_where u))) = Inr (c1, r)"
      using a(1) by (auto simp: getUserFileNames_def bind_exec_eq_Inr)
    then have "c1 = c'"
      using a(1) by (cases r) (auto simp: getUserFileNames_def bind_exec_eq_Inr)
    with r have "fetch_rows M h c (sql_text (Select_Names (user_where u))) = Inr (c', r)" by simp
    then show ?thesis by (rule fetch_rows_tables) (use a in simp_all)
  qed
  show "tables c' = tables c" if a: "getRecentFirstHashes M h c u n hs = Inr (c', z)" "clean u"
  proof -
    obtain c1 r where r: "fetch_rows M h c (sql_text (Select_Recent (user_where u) (sint n))) = Inr (c1, r)"
      using a(1) by (auto simp: getRecentFirstHashes_def bind_exec_eq_Inr)
    then have "c1 = c'"
      using a(1) by (cases r) (auto simp: getRecentFirstHashes_def bind_exec_eq_Inr)
    with r have "fetch_rows M h c (sql_text (Select_Recent (user_where u) (sint n))) = Inr (c', r)" by simp
    then show ?thesis by (rule fetch_rows_tables) (use a lim(1) in simp_all)
  qed
  show "tables c' = tables c" if a: "getCaches M h c u n hs = Inr (c', z)" "clean u"
  proof -
    obtain c1 r where r: "fetch_rows M h c (sql_text (Select_Caches (user_where u) (sint n))) = Inr (c1, r)"
      using a(1) by (auto simp: getCaches_def bind_exec_eq_Inr)
    then have "c1 = c'"
      using a(1) by (cases r) (auto simp: getCaches_def bind_exec_eq_Inr)
    with r have "fetch_rows M h c (sql_text (Select_Caches (user_where u) (sint n))) = Inr (c', r)" by simp
    then show ?thesis by (rule fetch_rows_tables) (use a lim(2) in simp_all)
  qed
qed

lemma missing_loop_tables:
  assumes "missing_loop M h c xs acc = Inr (c', x)" "\<forall>x \<in> set xs. clean x"
  shows "tables c' = tables c"
  using assms
proof (induction xs arbitrary: c acc)
  case (Cons y ys)
  then obtain c1 r where r: "fetch_rows M h c (sql_text (Count_Blocks (hash_where y))) = Inr (c1, r)"
    by (auto simp: bind_exec_eq_Inr)
  then have t: "tables c1 = tables c"
    using Cons.prems(2) by (intro fetch_rows_tables [OF r]) simp_all
  show ?case
  proof (cases r)
    case (Inl e)
    with r Cons.prems(1) t show ?thesis by simp
  next
    case (Inr rows)
    obtain acc' where "missing_loop M h c1 ys acc' = Inr (c', x)"
      using r Inr Cons.prems(1) by (cases rows) (auto simp: bind_exec_eq_Inr)
    with Cons.IH [OF this] Cons.prems(2) t show ?thesis by simp
  qed
qed simp

lemma cache_tables:
  shows "addCache M h c u a = Inr (c', e) \<Longrightarrow> name_ok u \<Longrightarrow> name_ok a \<Longrightarrow>
      fileblock (tables c') = fileblock (tables c)"
    and "removeCache M h c u a = Inr (c', e) \<Longrightarrow> name_ok u \<Longrightarrow> name_ok a \<Longrightarrow>
      fileblock (tables c') = fileblock (tables c)"
proof -
  assume a: "addCache M h c u a = Inr (c', e)" "name_ok u" "name_ok a"
  then have "h" by (simp add: addCache_def run_statement_def split: if_splits)
  with addCache_outcome [OF a(2,3), of c] a(1) show "fileblock (tables c') = fileblock (tables c)" by auto
next
  assume a: "removeCache M h c u a = Inr (c', e)" "name_ok u" "name_ok a"
  then have "h" by (simp add: removeCache_def run_statement_def split: if_splits)
  with removeCache_outcome [of u a c] a show "fileblock (tables c') = fileblock (tables c)"
    by (auto simp: clean_name)
qed

lemma fb_inv_fileblock: "fileblock d' = fileblock d \<Longrightarrow> fb_inv coll d \<Longrightarrow> fb_inv coll d'"
  by (simp add: fb_inv_def file_rows_def)

lemma fb_inv_file:
  assumes "fb_inv coll d"
  obtains u' f' hs v where "holds_file (file_rows coll u f d) u' f' hs v" "v < 2 ^ 32"
  using assms unfolding fb_inv_def by blast

lemma update_keeps_inv:
  assumes "updateFileData M h c u f hs v = Inr (c', e)" "fb_inv coll (tables c)"
    and "name_ok u" "name_ok f" "\<forall>x \<in> set hs. hash_ok x" "length hs < 2 ^ 31" "0 \<le> sint v"
  shows "fb_inv coll (tables c')"
proof -
  have h: "h" using assms(1)
    by (cases h) (auto simp: updateFileData_def fetch_rows_def)
  obtain u0 f0 hs0 v0 where F: "holds_file (file_rows coll u f (tables c)) u0 f0 hs0 v0" "v0 < 2 ^ 32"
    using fb_inv_file [OF assms(2)] by metis
  from updateFileData_outcome [OF _ assms(3-7) F] assms(1,2) h show ?thesis
    using fb_inv_update [OF assms(2)] unat_bound by metis
qed

lemma remove_keeps_inv:
  assumes "removeFile M h c u f = Inr (c', e)" "fb_inv coll (tables c)" "name_ok u" "name_ok f"
  shows "fb_inv coll (tables c')"
proof -
  have h: "h" using assms(1) by (cases h) (auto simp: removeFile_def run_statement_def)
  from removeFile_outcome [of u f c] assms h have "tables c' = tables c \<or>
      file_rows coll u f (tables c') = {#} \<and> others coll u f (tables c') = others coll u f (tables c)"
    by (auto simp: clean_name)
  then show ?thesis
    using fb_inv_update [OF assms(2), of u f "tables c'" "[]" 0] assms(2) by auto
qed

lemma connect_tables_eq: "connect M c = (c', h, e) \<Longrightarrow> tables c' = tables c"
  using connect_tables_id [of c] by simp

lemma close_tables_eq [simp]: "tables (fst (close M c)) = tables c"
  by (simp add: close_def close_tables)

end

section \<open>One request, whether it succeeds or fails\<close>

context mysql
begin

lemma query_clean: "query_ok r \<Longrightarrow> query_string r = Some q \<Longrightarrow> getQueryParam q k [] = Inr (s, v) \<Longrightarrow> clean v"
  using query_okD clean_name by blast

lemma getMissing_tables:
  "getMissingBlockHashes M h c xs acc = Inr (c', x) \<Longrightarrow> \<forall>x \<in> set xs. clean x \<Longrightarrow> tables c' = tables c"
  by (auto simp: getMissingBlockHashes_def dest: missing_loop_tables split: if_splits)

lemma block_list_keeps:
  assumes "query_ok r"
  shows "yields (\<lambda>(c', out). tables c' = tables c) (block_list_request J M c r)"
  unfolding block_list_request_def
  by (intro yields_intros)
    (use assms in \<open>auto dest!: connect_tables_eq read_tables(1) dest: query_clean\<close>)

lemma file_list_keeps:
  assumes "query_ok r"
  shows "yields (\<lambda>(c', out). tables c' = tables c) (file_list_request J M c r)"
  unfolding file_list_request_def
  by (intro yields_intros)
    (use assms in \<open>auto dest!: connect_tables_eq read_tables(2) dest: query_clean\<close>)

lemma recent_hashes_keeps:
  assumes "query_ok r"
  shows "yields (\<lambda>(c', out). tables c' = tables c) (recent_hashes_request J M c r)"
  unfolding recent_hashes_request_def
  by (intro yields_intros)
    (use assms in \<open>auto dest!: connect_tables_eq read_tables(3) dest: query_clean\<close>)

lemma user_caches_keeps:
  assumes "query_ok r"
  shows "yields (\<lambda>(c', out). tables c' = tables c) (user_caches_request J M c r)"
  unfolding user_caches_request_def
  by (intro yields_intros)
    (use assms in \<open>auto dest!: connect_tables_eq read_tables(4) dest: query_clean\<close>)

lemma block_query_keeps:
  assumes "body_ok J r"
  shows "yields (\<lambda>(c', out). tables c' = tables c) (block_query_request J M c r)"
  unfolding block_query_request_def
  by (intro yields_intros)
    (use assms in \<open>auto dest!: connect_tables_eq getMissing_tables dest: body_okD(3) clean_hash\<close>)

lemma user_cache_add_keeps:
  assumes "query_ok r"
  shows "yields (\<lambda>(c', out). fileblock (tables c') = fileblock (tables c)) (user_cache_add_request M c r)"
  unfolding user_cache_add_request_def
  by (intro yields_intros)
    (use assms in \<open>auto dest!: connect_tables_eq cache_tables(1) dest: query_okD\<close>)

lemma user_cache_remove_keeps:
  assumes "query_ok r"
  shows "yields (\<lambda>(c', out). fileblock (tables c') = fileblock (tables c)) (user_cache_remove_request M c r)"
  unfolding user_cache_remove_request_def
  by (intro yields_intros)
    (use assms in \<open>auto dest!: connect_tables_eq cache_tables(2) dest: query_okD\<close>)

lemma file_delete_keeps:
  assumes "query_ok r" "fb_inv coll (tables c)"
  shows "yields (\<lambda>(c', out). fb_inv coll (tables c')) (file_delete_request J M c r)"
  unfolding file_delete_request_def
  by (intro yields_intros)
    (use assms in \<open>auto dest!: connect_tables_eq remove_keeps_inv dest: query_okD\<close>)

lemma connect_keeps_inv: "connect M c = (c1, h, e) \<Longrightarrow> fb_inv coll (tables c) \<Longrightarrow> fb_inv coll (tables c1)"
  using connect_tables_eq by metis

lemma commit_keeps_inv:
  assumes "updateFileData M h c1 u f hs (commit_version vt) = Inr (c', e)"
    and "fb_inv coll (tables c)" "connect M c = (c1, h, e1)"
    and "body_ok J r" "response_body r = Inr body" "j_parse J body = (True, root)"
    and "get J root ''user_id'' = Inr x1" "as_string J x1 = Inr u"
    and "get J root ''file_name'' = Inr x2" "as_string J x2 = Inr f"
    and "get J root ''block_list'' = Inr x3" "jsonToString J x3 [] = Inr hs"
    and "get J root ''version'' = Inr x4" "as_string J x4 = Inr vt"
  shows "fb_inv coll (tables c')"
proof -
  have "fb_inv coll (tables c1)" using assms(2) connect_tables_eq [OF assms(3)] by simp
  with body_okD [OF assms(4-6)] assms(7-) show ?thesis
    by (intro update_keeps_inv [OF assms(1)]) auto
qed

lemma file_commit_keeps:
  assumes "body_ok J r" "fb_inv coll (tables c)"
  shows "yields (\<lambda>(c', out). fb_inv coll (tables c')) (file_commit_request J M c r)"
  unfolding file_commit_request_def commit_version_def [symmetric]
  by (intro yields_intros)
    (use assms in \<open>auto elim: commit_keeps_inv connect_keeps_inv\<close>)

lemma worker_keeps_inv:
  assumes "worker_request w J M c r = Inr (c', out)" "request_ok J (w, r)" "fb_inv coll (tables c)"
  shows "fb_inv coll (tables c')"
proof -
  have same: "yields (\<lambda>(c', out). fileblock (tables c') = fileblock (tables c)) m \<Longrightarrow>
      m = Inr (c', out) \<Longrightarrow> fb_inv coll (tables c')" for m
    using fb_inv_fileblock assms(3) by (auto dest: yieldsD)
  have tab: "yields (\<lambda>(c', out). tables c' = tables c) m \<Longrightarrow>
      m = Inr (c', out) \<Longrightarrow> fb_inv coll (tables c')" for m
    using assms(3) by (auto dest: yieldsD)
  have inv: "yields (\<lambda>(c', out). fb_inv coll (tables c')) m \<Longrightarrow>
      m = Inr (c', out) \<Longrightarrow> fb_inv coll (tables c')" for m
    by (auto dest: yieldsD)
  show ?thesis
  proof (cases w)
    case W_block_list
    then show ?thesis using assms tab [OF block_list_keeps] by simp
  next
    case W_file_list
    then show ?thesis using assms tab [OF file_list_keeps] by simp
  next
    case W_recent_hashes
    then show ?thesis using assms tab [OF recent_hashes_keeps] by simp
  next
    case W_user_caches
    then show ?thesis using assms tab [OF user_caches_keeps] by simp
  next
    case W_block_query
    then show ?thesis using assms tab [OF block_query_keeps] by simp
  next
    case W_user_cache_add
    then show ?thesis using assms same [OF user_cache_add_keeps] by simp
  next
    case W_user_cache_remove
    then show ?thesis using assms same [OF user_cache_remove_keeps] by simp
  next
    case W_file_delete
    then show ?thesis using assms inv [OF file_delete_keeps] by simp
  next
    case W_file_commit
    then show ?thesis using assms inv [OF file_commit_keeps] by simp
  qed
qed

lemma run_keeps_inv:
  assumes "meta_run J M c0 es c" "\<forall>e \<in> set es. request_ok J e" "fb_inv coll (tables c0)"
  shows "fb_inv coll (tables c)"
  using assms
proof (induction es c rule: meta_run.induct)
  case (meta_step es c w r c' out)
  then have "fb_inv coll (tables c)" "request_ok J (w, r)" by auto
  with meta_step.hyps(2) show ?case using worker_keeps_inv by blast
qed simp

end

end
