(* ===== verification/Whole_System.thy ===== *)
theory Whole_System
  imports Prefetch_Contract Meta_Invariant
begin

text \<open>
  The three kinds of machines together: a cache machine whose programs reach the metadata server
  and the block server through the network. The web servers in front of the workers are not part
  of the repository; the gateways here hand a request to the worker its path names.
\<close>

section \<open>The network\<close>

definition worker_paths :: "(string \<times> worker) list" where
  "worker_paths =
     [(''/block_list'', W_block_list), (''/file_list'', W_file_list), (''/recent_hashes'', W_recent_hashes),
      (''/user_caches'', W_user_caches), (''/block_query'', W_block_query), (''/file_commit'', W_file_commit),
      (''/file_delete'', W_file_delete), (''/user_cache_add'', W_user_cache_add),
      (''/user_cache_remove'', W_user_cache_remove)]"

definition path_name :: "string \<Rightarrow> string" where
  "path_name path = takeWhile (\<lambda>c. c \<noteq> CHR ''?'') path"

definition meta_gateway :: "'j jsoncpp \<Rightarrow> 'c mysql_api \<Rightarrow> 'c neon" where
  "meta_gateway J M = \<lparr>n_dispatch = (\<lambda>c host method path body.
     case map_of worker_paths (path_name path) of
       None \<Rightarrow> (c, bad_gateway)
     | Some w \<Rightarrow>
         (case worker_request w J M c (gateway_request path body) of
            Inl _ \<Rightarrow> (c, bad_gateway)
          | Inr (c', out) \<Rightarrow> (c', cgi_result out)))\<rparr>"

text \<open>Two hosts: the metadata server at \<open>metadata_ip\<close>, the block server elsewhere.\<close>

definition internet :: "'c neon \<Rightarrow> 'b neon \<Rightarrow> ('c \<times> 'b) neon" where
  "internet MX BX = \<lparr>n_dispatch = (\<lambda>(c, b) host method path body.
     if host = metadata_ip
     then (case n_dispatch MX c host method path body of (c', r) \<Rightarrow> ((c', b), r))
     else (case n_dispatch BX b host method path body of (b', r) \<Rightarrow> ((c, b'), r)))\<rparr>"

lemma hosts [simp]: "c_str metadata_ip = metadata_ip" "c_str block_ip \<noteq> metadata_ip"
  by code_simp+

lemma block_service_internet:
  fixes X :: "'h neon" and MX :: "'m neon"
  assumes "block_service X blocks served"
  shows "block_service (internet MX X) (\<lambda>st. blocks (snd st)) served"
proof
  fix k b and st :: "'m \<times> 'h"
  assume "served k" "blocks (snd st) k = Some b"
  from block_service.fetch_held [OF assms this]
  show "\<exists>h' t ps. n_dispatch (internet MX X) st (c_str block_ip) (c_str ''GET'')
        (c_str (''/block_fetch?hash='' @ k)) [] =
      (h', \<lparr>r_ok = True, r_code = 200, r_type = Some t, r_pieces = ps\<rparr>) \<and> CHR 0x0D \<notin> set t \<and> concat ps = b \<and>
      blocks (snd h') = blocks (snd st)"
    by (cases st) (auto simp: internet_def)
next
  fix k and st :: "'m \<times> 'h"
  assume "served k" "blocks (snd st) k = None"
  from block_service.fetch_not_held [OF assms this]
  show "\<exists>h' c t ps. n_dispatch (internet MX X) st (c_str block_ip) (c_str ''GET'')
        (c_str (''/block_fetch?hash='' @ k)) [] =
      (h', \<lparr>r_ok = True, r_code = c, r_type = Some t, r_pieces = ps\<rparr>) \<and> c \<noteq> 200 \<and> 0 \<le> c \<and>
      blocks (snd h') = blocks (snd st)"
    by (cases st) (auto simp: internet_def)
qed

section \<open>The system\<close>

locale balabox =
  meta: metadata J j_elems j_members M tables pending coll up +
  written: jsoncpp_text J j_elems j_members sendable +
  local: healthy_leveldb L store usable +
  remote: lockable_leveldb B bstore busable tries
  for J :: "'j jsoncpp" and j_elems :: "'j \<Rightarrow> 'j list option"
    and j_members :: "'j \<Rightarrow> (string \<rightharpoonup> 'j) option" and sendable :: "string \<Rightarrow> bool"
    and M :: "'c mysql_api" and tables :: "'c \<Rightarrow> db" and pending :: "'c \<Rightarrow> row list"
    and coll :: "string \<Rightarrow> string \<Rightarrow> bool" and up :: "'c \<Rightarrow> bool"
    and L :: "'d leveldb" and store :: "'d \<Rightarrow> string \<rightharpoonup> string" and usable :: "'d \<Rightarrow> bool"
    and B :: "'b leveldb" and bstore :: "'b \<Rightarrow> string \<rightharpoonup> string" and busable :: "'b \<Rightarrow> bool"
    and tries :: "'b \<Rightarrow> nat"

sublocale balabox \<subseteq> whole: cache_node "machine L junk" "machine_contents store" "machine_ready usable"
    "internet (meta_gateway J M) (block_gateway B eth0)" "\<lambda>st. bstore (snd st)" url_key for junk eth0
  by (intro cache_node.intro local.machine.block_cache_axioms block_service_internet
      remote.web.block_service_axioms)

section \<open>The list of recent blocks\<close>

lemma header_json: "cgi_result (outputNormalMessage @ body) =
    \<lparr>r_ok = True, r_code = 200, r_type = Some ''application/json'', r_pieces = [body]\<rparr>"
proof -
  let ?l = "''Content-type: application/json''"
  have "header_lines (Suc (Suc 8)) (?l @ crlf @ crlf @ body) = ([?l], body)"
    by (intro header_lines_line header_lines_end) simp_all
  then have "header_lines 10 (outputNormalMessage @ body) = ([?l], body)"
    by (simp add: outputNormalMessage_def numeral_eq_Suc del: header_lines.simps)
  moreover have "header_field ''Status'' [?l] = None" by code_simp
  moreover have "header_field ''Content-Type'' [?l] = Some ''application/json''" by code_simp
  ultimately show ?thesis by (simp add: cgi_result_def)
qed

lemma recent_query:
  assumes "plain u" "length u < 2 ^ 30"
  shows "asks (gateway_request (''/recent_hashes?user_id='' @ u @ ''&max_hashes=10'') [])
    [(''user_id'', u), (''max_hashes'', show_nat 10)]"
proof -
  let ?kvs = "[(''user_id'', u), (''max_hashes'', ''10'')]"
  let ?r = "gateway_request (''/recent_hashes?user_id='' @ u @ ''&max_hashes=10'') []"
  have q: "query_string ?r = Some (render_query ?kvs)"
    by (simp add: gateway_request_def path_query_def)
  have s: "short (render_query ?kvs)" using assms(2) by simp
  have p: "plain_params ?kvs" using assms(1) by (simp add: plain_params_def plain_def)
  have v: "query_value ''user_id'' (render_query ?kvs) = Some u"
    "query_value ''max_hashes'' (render_query ?kvs) = Some ''10''"
    using query_value_render [OF _ p] by (simp_all add: plain_def suffix_def)
  have g: "getQueryParam (render_query ?kvs) ''user_id'' [] = Inr (0, u)"
    "getQueryParam (render_query ?kvs) ''max_hashes'' [] = Inr (0, ''10'')"
    using getQueryParam_query_value [OF s] v by simp_all
  have "string_of_ptr (fst (gstdin STDIN_MAX ?r)) (memory_after ?r) = Inr []"
  proof -
    have "gstdin STDIN_MAX ?r = (Some [], 0)"
      using gstdin_exact [of ?r 0 STDIN_MAX] show_int_nat [of 0] by (simp add: gateway_request_def)
    then show ?thesis by (simp add: gateway_request_def string_of_ptr_def c_str_def)
  qed
  then have "\<not> crashes (response_body ?r)" by (simp add: response_body_def)
  moreover have "show_nat 10 = ''10''" by code_simp
  ultimately show ?thesis unfolding asks_def using q g by simp
qed

lemma recent_worker: "map_of worker_paths (path_name (''/recent_hashes?user_id='' @ q)) = Some W_recent_hashes"
proof -
  have "path_name (''/recent_hashes?user_id='' @ q) = ''/recent_hashes''" by (simp add: path_name_def)
  then show ?thesis by (simp add: worker_paths_def)
qed

context balabox
begin

lemma lookUpRecentHashes_reply:
  assumes "clean u" "plain u" "length u < 2 ^ 30"
    and "\<forall>row \<in># user_blocks coll u (tables c). sendable (fb_hash row)" "sendable ''block_list''"
  shows "\<exists>c' xs reply root bl.
    lookUpRecentHashes (internet (meta_gateway J M) BX) (c, b) u = ((c', b), reply) \<and> tables c' = tables c \<and>
    mset xs = user_blocks coll u (tables c) \<and> sorted_wrt recent_order xs \<and>
    j_parse J reply = (True, root) \<and> j_members root = Some [''block_list'' \<mapsto> bl] \<and>
    j_elems bl = Some (map (j_string J) (map fb_hash (take 10 xs))) \<and>
    (j_is_null J bl \<longrightarrow> map fb_hash (take 10 xs) = [])"
proof -
  let ?path = "''/recent_hashes?user_id='' @ u @ ''&max_hashes=10''"
  have "\<not> printable nul" by (simp add: printable_def nul_def)
  then have "nul \<notin> set u" using assms(1) unfolding clean_def by blast
  then have "nul \<notin> set ?path" by (simp add: nul_def)
  then have path: "c_str ?path = ?path" by (rule c_str_id)
  have query: "(''/recent_hashes?user_id='' @ u) @ ''&max_hashes='' @ maxHashes = ?path"
    by (simp add: maxHashes_def)
  obtain c' out l xs where w: "recent_hashes_request J M c (gateway_request ?path []) = Inr (c', out)"
    "tables c' = tables c" "mset xs = user_blocks coll u (tables c)" "sorted_wrt recent_order xs"
    "j_elems l = Some (map (j_string J) (map fb_hash (take 10 xs)))"
    "answers J j_members outputNormalMessage [''block_list'' \<mapsto> l] out"
    using meta.recent_hashes_answer [OF recent_query [OF assms(2,3)] assms(1), of c] by auto
  obtain v where v: "j_members v = Some [''block_list'' \<mapsto> l]" "out = outputNormalMessage @ j_write J v"
    using w(6) by (auto simp: answers_def)
  have "\<forall>k \<in> set (map fb_hash (take 10 xs)). sendable k"
  proof
    fix k
    assume "k \<in> set (map fb_hash (take 10 xs))"
    then obtain row where row: "row \<in> set xs" "k = fb_hash row" by (auto dest: in_set_takeD)
    have "set_mset (user_blocks coll u (tables c)) = set xs" using arg_cong [OF w(3), of set_mset] by simp
    with row assms(4) show "sendable k" by blast
  qed
  from written.read_list [OF v(1) assms(5) w(5) this] obtain root bl where r: "j_parse J (j_write J v) = (True, root)"
    "j_members root = Some [''block_list'' \<mapsto> bl]"
    "j_elems bl = Some (map (j_string J) (map fb_hash (take 10 xs)))"
    "j_is_null J bl \<longrightarrow> map fb_hash (take 10 xs) = []" by blast
  have "lookUpRecentHashes (internet (meta_gateway J M) BX) (c, b) u = ((c', b), j_write J v)"
    unfolding lookUpRecentHashes_def Let_def query path
    using w(1) v(2) recent_worker [of "u @ ''&max_hashes=10''"]
    by (simp add: internet_def meta_gateway_def header_json)
  with r w show ?thesis by blast
qed

end

section \<open>A fetch and the prefetch it starts\<close>

lemma fetch_query:
  assumes "plain k" "plain u" "length k + length u < 2 ^ 30"
  shows "HttpHelper_getQueryParam (render_query [(''hash'', k), (''user'', u)]) ''hash'' [] = Inr (0, k)"
    and "HttpHelper_getQueryParam (render_query [(''hash'', k), (''user'', u)]) ''user'' [] = Inr (0, u)"
proof -
  let ?q = "render_query [(''hash'', k), (''user'', u)]"
  have p: "plain_params [(''hash'', k), (''user'', u)]" using assms(1,2) by (simp add: plain_params_def plain_def)
  have s: "short ?q" using assms(3) by simp
  have o: "occurs ''hash'' ''hash''" "\<not> occurs ''user'' ''hash''" "occurs ''user'' ''user''"
    by (simp_all add: occurs_def)
  have "text_value ''hash'' ?q = Some (Some k)" "text_value ''user'' ?q = Some (Some u)"
    using text_value_render [OF _ _ p, of "''hash''"] text_value_render [OF _ _ p, of "''user''"] o
    by (simp_all add: plain_def)
  then show "HttpHelper_getQueryParam ?q ''hash'' [] = Inr (0, k)"
    "HttpHelper_getQueryParam ?q ''user'' [] = Inr (0, u)"
    using HttpHelper_text [OF s, of "''hash''" "[]"] HttpHelper_text [OF s, of "''user''" "[]"] by simp_all
qed

lemma padded_received:
  assumes "nul \<notin> set msg" "length msg < PREFETCH_MSG_SIZE"
  shows "string_of_ptr (Some (take PREFETCH_MSG_SIZE (padded msg) @
    replicate (PREFETCH_MSG_SIZE - length (take PREFETCH_MSG_SIZE (padded msg))) nul)) after = Inr msg"
proof -
  have l: "length (padded msg) = PREFETCH_MSG_SIZE" using assms(2) by (simp add: padded_def)
  obtain n where n: "PREFETCH_MSG_SIZE - length msg = Suc n" using assms(2) by (metis Suc_diff_Suc)
  have "padded msg = msg @ nul # replicate n nul" by (simp add: padded_def n)
  moreover have "string_of_ptr (Some (msg @ nul # replicate n nul)) after = Inr msg"
  proof -
    have "takeWhile (\<lambda>c. c \<noteq> nul) (msg @ nul # (replicate n nul @ after)) = msg"
      by (rule split_at_char(1) [OF assms(1)])
    then show ?thesis by (simp add: string_of_ptr_def c_str_def)
  qed
  ultimately show ?thesis using l by simp
qed

lemma prefetch_message_pair: "prefetch_message u k = pair_message ''userID'' u ''hash'' k"
  by (simp add: prefetch_message_def pair_message_def)

text \<open>Requests for blocks leave the metadata server alone.\<close>

lemma sendHttpRequest_state:
  assumes "sendHttpRequest X st host path m body t0 p0 c0 = Inr (st', r)"
  shows "st' = fst (n_dispatch X st (c_str host) (c_str m) (c_str path) body)"
  using assms
  by (simp add: sendHttpRequest_def Let_def split: prod.splits if_splits option.splits)

lemma internet_block_host: "fst (fst (n_dispatch (internet MX BX) st (c_str block_ip) m path body)) = fst st"
  by (cases st) (simp add: internet_def split: prod.split)

lemma requestFromBlockServer_host:
  assumes "requestFromBlockServer (internet MX BX) st k t0 p0 c0 = Inr (st', r)"
  shows "fst st' = fst st"
proof -
  obtain r' where "sendHttpRequest (internet MX BX) st block_ip (''/block_fetch?hash='' @ k) ''GET'' [] t0 p0 c0 =
      Inr (st', r')"
    using assms by (auto simp: requestFromBlockServer_def Let_def bind_exec_eq_Inr)
  from sendHttpRequest_state [OF this] internet_block_host show ?thesis by metis
qed

lemma answer_block_host:
  assumes "answer_block H (internet MX BX) s st k = Inr (s', st', out)"
  shows "fst st' = fst st"
proof -
  obtain s1 found where "alreadyExists H s k = Inr (s1, found)"
    using assms by (cases "alreadyExists H s k") (auto simp: answer_block_def)
  with assms show ?thesis
    by (cases found) (auto simp: answer_block_def bind_exec_eq_Inr dest: requestFromBlockServer_host)
qed

lemma fetch_request_host:
  assumes "cache_block_fetch_request H (internet MX BX) N (s, st, q) r = Inr ((s', st', q'), out)"
    and "query_string r = Some qs"
  shows "fst st' = fst st"
  using assms by (auto simp: cache_block_fetch_request_def bind_exec_eq_Inr dest: answer_block_host)

context balabox
begin

lemma fetch_starts_prefetch:
  assumes s: "machine_ready usable s" "map_admitted (machine_contents store s)"
      "machine_contents store s \<subseteq>\<^sub>m bstore b"
    and k: "url_key k" "bstore b k = Some blk" "entry_admitted k blk" "plain k" "sendable k"
    and u: "clean u" "plain u" "sendable u" "length u + length k < 973"
    and names: "sendable ''userID''" "sendable ''hash''" "sendable ''block_list''"
    and recent: "\<forall>row \<in># user_blocks coll u (tables c). sendable (fb_hash row) \<and> url_key (fb_hash row) \<and>
        key_admitted (fb_hash row) \<and> (\<forall>v. bstore b (fb_hash row) = Some v \<longrightarrow> entry_admitted (fb_hash row) v)"
    and N: "sending N push" "s_socket N q = (q, True)" "s_resolve N q"
      "s_connect N q loopback_address prefetch_portno = (q, True)"
    and r: "query_string r = Some (render_query [(''hash'', k), (''user'', u)])"
  shows "\<exists>s1 st1 out s2 st2 xs.
    cache_block_fetch_request (machine L junk) (internet (meta_gateway J M) (block_gateway B eth0)) N (s, (c, b), q) r =
      Inr ((s1, st1, s_close N (push q (padded (prefetch_message u k)))), out) \<and>
    (out = cached_reply blk \<or> (\<exists>t. out = forwarded_reply ''200'' t blk)) \<and>
    prefetch_request J (machine L junk) (internet (meta_gateway J M) (block_gateway B eth0)) (s1, st1)
      \<lparr>pc_bytes = padded (prefetch_message u k), pc_after = after\<rparr> = Inr (s2, st2) \<and>
    mset xs = user_blocks coll u (tables c) \<and> sorted_wrt recent_order xs \<and>
    machine_contents store s2 =
      (machine_contents store s)(k \<mapsto> blk) ++ bstore b |` set (map fb_hash (take 10 xs))"
proof -
  let ?H = "machine L junk" and ?X = "internet (meta_gateway J M) (block_gateway B eth0)"
  let ?msg = "prefetch_message u k"
  have len: "length ?msg < PREFETCH_MSG_SIZE" using u(4) by (simp add: length_prefetch_message PREFETCH_MSG_SIZE_def)
  note q = fetch_query [OF k(4) u(2)]
  have coh: "whole.coherent s (c, b)" "whole.requestable (c, b) k"
    using s k by (simp_all add: whole.coherent_def whole.requestable_def)
  obtain s1 st1 out where f: "cache_block_fetch_request ?H ?X N (s, (c, b), q) r =
      Inr ((s1, st1, s_close N (push q (padded ?msg))), out)" "whole.right_answer (c, b) k out"
    "whole.coherent s1 st1" "bstore (snd st1) = bstore b"
    "machine_contents store s1 = (machine_contents store s)(k \<mapsto> blk)"
    using whole.fetch_request_outcome [OF coh r q(1) q(2) sendMsg_fits [OF N less_imp_le [OF len]], of junk eth0]
      u(4) k(2) by auto
  have c1: "fst st1 = c" using fetch_request_host [OF f(1) r] by simp
  then obtain b1 where st1: "st1 = (c, b1)" "bstore b1 = bstore b" using f(4) by (cases st1) simp
  obtain c2 xs reply root bl where l: "lookUpRecentHashes ?X (c, b1) u = ((c2, b1), reply)"
    "mset xs = user_blocks coll u (tables c)" "sorted_wrt recent_order xs" "j_parse J reply = (True, root)"
    "j_members root = Some [''block_list'' \<mapsto> bl]"
    "j_elems bl = Some (map (j_string J) (map fb_hash (take 10 xs)))"
    "j_is_null J bl \<longrightarrow> map fb_hash (take 10 xs) = []"
    using lookUpRecentHashes_reply [OF u(1,2) _ _ names(3), of c "block_gateway B eth0" b1] u(4) recent by auto
  obtain mroot where m: "j_parse J ?msg = (True, mroot)"
    "j_members mroot = Some [''userID'' \<mapsto> j_string J u, ''hash'' \<mapsto> j_string J k]"
    using written.read_pair [OF names(1,2) _ u(3) k(5)] by (auto simp: prefetch_message_pair)
  have clean: "nul \<notin> set ?msg"
  proof -
    have "\<not> printable nul" by (simp add: printable_def nul_def)
    then have "nul \<notin> set u" using u(1) unfolding clean_def by blast
    moreover have "nul \<notin> set k" using k(1) unfolding url_key_def by (auto simp: nul_def)
    ultimately show ?thesis by (simp add: prefetch_message_def nul_def)
  qed
  let ?ks = "map fb_hash (take 10 xs)"
  have ks: "\<forall>k \<in> set ?ks. url_key k \<and> key_admitted k \<and> (\<forall>v. bstore (snd st1) k = Some v \<longrightarrow> entry_admitted k v)"
  proof
    fix x
    assume "x \<in> set ?ks"
    then obtain row where row: "row \<in> set xs" "x = fb_hash row" by (auto dest: in_set_takeD)
    have "set_mset (user_blocks coll u (tables c)) = set xs" using arg_cong [OF l(2), of set_mset] by simp
    with row recent st1 show "url_key x \<and> key_admitted x \<and> (\<forall>v. bstore (snd st1) x = Some v \<longrightarrow> entry_admitted x v)"
      by (simp add: st1)
  qed
  let ?c = "\<lparr>pc_bytes = padded ?msg, pc_after = after\<rparr>"
  have "\<exists>s' st'. prefetch_request J ?H ?X (s1, st1) ?c = Inr (s', st') \<and> whole.coherent s' st' \<and>
      bstore (snd st') = bstore (snd st1) \<and>
      machine_contents store s' = machine_contents store s1 ++ bstore (snd st1) |` set ?ks"
    by (rule whole.prefetch_request_outcome [OF meta.json.jsoncpp_values_axioms f(3) _ m _ _
          l(1) [folded st1(1)] _ l(4,5) _ l(6) _ ks])
      (use padded_received [OF clean len] l(7) st1(1) in simp_all)
  then obtain s2 st2 where "prefetch_request J ?H ?X (s1, st1) ?c = Inr (s2, st2)"
    "machine_contents store s2 = machine_contents store s1 ++ bstore (snd st1) |` set ?ks"
    by blast
  moreover have "out = cached_reply blk \<or> (\<exists>t. out = forwarded_reply ''200'' t blk)"
    using f(2) k(2) by (auto simp: whole.right_answer_def)
  ultimately show ?thesis using f(1,4,5) l(2,3) by metis
qed

end

end
