(* ===== verification/Client_System.thy ===== *)
theory Client_System
  imports Sync_Client Whole_System
begin

text \<open>
  The client against the servers: \<open>sync.py\<close> on one side, the workers of the metadata server, of
  a cache machine and of the block server on the other. The HTTP libraries and the web servers
  between them are not part of the repository; the ones here hand a request to the worker its
  path names.
\<close>

section \<open>The web between them\<close>

definition http_reply :: "http_result \<Rightarrow> web_reply" where
  "http_reply r = \<lparr>p_status = r_code r, p_content = concat (r_pieces r), p_origin = None\<rparr>"

definition cgi_reply :: "string \<Rightarrow> web_reply" where
  "cgi_reply out = (http_reply (cgi_result out))
     \<lparr>p_origin := header_field ''Origin'' (fst (header_lines 10 out))\<rparr>"

text \<open>The web server of a cache machine, with the state of its three programs.\<close>

definition cache_site ::
  "'s leveldb_helper \<Rightarrow> 'h neon \<Rightarrow> 'n sockets \<Rightarrow> 's \<times> 'h \<times> 'n \<Rightarrow> string \<Rightarrow> string \<Rightarrow> ('s \<times> 'h \<times> 'n) \<times> web_reply" where
  "cache_site H X N st path body =
     (case st of (s, h, q) \<Rightarrow>
      if path_name path = ''/cache_block_store'' then
        (case cache_block_store_request X h (gateway_request path body) of
           Inl _ \<Rightarrow> (st, http_reply bad_gateway)
         | Inr (h', out) \<Rightarrow> ((s, h', q), cgi_reply out))
      else if path_name path = ''/cache_block_fetch'' then
        (case cache_block_fetch_request H X N st (gateway_request path body) of
           Inl _ \<Rightarrow> (st, http_reply bad_gateway)
         | Inr (st', out) \<Rightarrow> (st', cgi_reply out))
      else (st, http_reply bad_gateway))"

definition split_url :: "string \<Rightarrow> string \<times> string" where
  "split_url url =
     (let rest = drop (length ''http://'') url
      in (takeWhile (\<lambda>c. c \<noteq> CHR ''/'') rest, dropWhile (\<lambda>c. c \<noteq> CHR ''/'') rest))"

text \<open>
  The parameters of a request: a value that is \<open>None\<close> is left out, a list gives the key once for
  each of its elements.
\<close>

fun param_values :: "py \<Rightarrow> string list" where
  "param_values PNone = []"
| "param_values (PBool b) = [if b then ''True'' else ''False'']"
| "param_values (PInt i) = [show_int i]"
| "param_values (PStr s) = [s]"
| "param_values (PList vs) = concat (map param_values vs)"
| "param_values (PDict d) = map fst d"

definition form_fields :: "(string \<times> py) list \<Rightarrow> (string \<times> string) list" where
  "form_fields params = concat (map (\<lambda>(k, v). map (Pair k) (param_values v)) params)"

lemma form_fields_text [simp]:
  "form_fields [] = []"
  "form_fields ((k, PStr s) # params) = (k, s) # form_fields params"
  by (simp_all add: form_fields_def)

definition web_send ::
  "'j jsoncpp \<Rightarrow> 'c mysql_api \<Rightarrow> 's leveldb_helper \<Rightarrow> 'b neon \<Rightarrow> 'n sockets \<Rightarrow>
   's \<times> ('c \<times> 'b) \<times> 'n \<Rightarrow> string \<Rightarrow> string \<Rightarrow> (string \<times> py) list \<Rightarrow> string \<Rightarrow>
   ('s \<times> ('c \<times> 'b) \<times> 'n) \<times> web_reply option" where
  "web_send J M H BX N w method url params data =
     (case split_url url of (host, path) \<Rightarrow>
      let path = path @ (if form_fields params = [] then [] else ''?'' @ render_query (form_fields params)) in
      if host = ''metaserver.raycoll.me'' then
        (case w of (s, (c, b), q) \<Rightarrow>
         case n_dispatch (meta_gateway J M) c host method path data of
           (c', r) \<Rightarrow> ((s, (c', b), q), Some (http_reply r)))
      else
        (case cache_site H (internet (meta_gateway J M) BX) N w path data of (w', r) \<Rightarrow> (w', Some r)))"

text \<open>The shell, as far as it runs \<open>curl\<close>: an upload of one file.\<close>

definition run_curl ::
  "('w \<Rightarrow> string \<Rightarrow> string \<Rightarrow> (string \<times> py) list \<Rightarrow> string \<Rightarrow> 'w \<times> web_reply option) \<Rightarrow>
   'w \<Rightarrow> (string \<rightharpoonup> string) \<Rightarrow> string \<Rightarrow> 'w \<times> string" where
  "run_curl send w files command =
     (let prog = ''curl -s --data-binary @'';
          args = drop (length prog) command;
          path = takeWhile (\<lambda>c. c \<noteq> CHR '' '') args;
          url = takeWhile (\<lambda>c. c \<noteq> CHR 0x27) (drop 2 (dropWhile (\<lambda>c. c \<noteq> CHR '' '') args))
      in if prefix prog command then
           (case send w ''POST'' url [] (case files path of None \<Rightarrow> [] | Some content \<Rightarrow> content) of
              (w', r) \<Rightarrow> (w', case r of None \<Rightarrow> [] | Some r \<Rightarrow> p_content r))
         else (w, []))"

definition web_client ::
  "'j jsoncpp \<Rightarrow> 'c mysql_api \<Rightarrow> 's leveldb_helper \<Rightarrow> 'b neon \<Rightarrow> 'n sockets \<Rightarrow> (string \<Rightarrow> py option) \<Rightarrow>
   ((string \<times> py) list \<Rightarrow> string) \<Rightarrow> (string \<Rightarrow> string) \<Rightarrow> ('s \<times> ('c \<times> 'b) \<times> 'n) client" where
  "web_client J M H BX N loads dumps sha =
     \<lparr>rq_send = web_send J M H BX N, rq_json = loads, py_dumps = dumps,
      py_shell = run_curl (web_send J M H BX N), sha256 = sha\<rparr>"

lemma split_url_host:
  assumes "CHR ''/'' \<notin> set host" "path = [] \<or> hd path = CHR ''/''"
  shows "split_url (''http://'' @ host @ path) = (host, path)"
proof -
  have h: "x \<noteq> CHR ''/''" if "x \<in> set host" for x using that assms(1) by blast
  have "takeWhile (\<lambda>c. c \<noteq> CHR ''/'') (host @ path) = host" "dropWhile (\<lambda>c. c \<noteq> CHR ''/'') (host @ path) = path"
    using assms(2) h by (cases path; simp add: takeWhile_append takeWhile_all dropWhile_append dropWhile_all)+
  then show ?thesis by (simp add: split_url_def)
qed

section \<open>The requests as the workers see them\<close>

lemma asks_gateway:
  assumes "path_query path = Some (render_query kvs)" "plain_params kvs" "short (render_query kvs)"
    and "\<forall>(k, v) \<in> set ps. plain k \<and> find (\<lambda>(k', v). suffix k k') kvs = Some (k, v)"
  shows "asks (gateway_request path []) ps"
proof -
  let ?r = "gateway_request path []"
  have "gstdin STDIN_MAX ?r = (Some [], 0)"
    using gstdin_exact [of ?r 0 STDIN_MAX] show_int_nat [of 0] by (simp add: gateway_request_def)
  then have "\<not> crashes (response_body ?r)"
    by (simp add: response_body_def gateway_request_def string_of_ptr_def c_str_def)
  moreover have "getQueryParam (render_query kvs) k [] = Inr (0, v)" if "(k, v) \<in> set ps" for k v
  proof -
    have k: "plain k" "find (\<lambda>(k', v). suffix k k') kvs = Some (k, v)" using assms(4) that by auto
    then have "query_value k (render_query kvs) = Some v"
      using query_value_render [OF k(1) assms(2)] by simp
    with getQueryParam_query_value [OF assms(3), of k "[]"] k(1) show ?thesis by (simp add: plain_def)
  qed
  ultimately show ?thesis using assms(1) by (auto simp: asks_def gateway_request_def)
qed

lemma posts_gateway:
  assumes "length body \<le> STDIN_MAX" "body \<noteq> []" "nul \<notin> set body" "j_parse J body = (True, root)"
    and "j_members root = Some m"
  shows "posts J j_members (gateway_request path body) m"
proof -
  have "length body < 2 ^ 63" using assms(1) by (simp add: STDIN_MAX_def)
  then have "gstdin STDIN_MAX (gateway_request path body) = (Some body, length body)"
    using gstdin_exact [of "gateway_request path body" "length body" STDIN_MAX] assms(1)
    by (simp add: gateway_request_def show_int_nat)
  moreover from this have "response_body (gateway_request path body) = Inr body"
    using string_of_ptr_terminated [OF assms(3), of "[]"]
    by (simp add: response_body_def gateway_request_def)
  ultimately show ?thesis using assms(2,4,5) by (simp add: posts_def)
qed

text \<open>The answers of a cache machine, as the client reads them.\<close>

lemma cgi_reply_lines:
  assumes "header_lines 10 out = (ls, body)" "header_field ''Status'' ls = Some ''200''"
  shows "cgi_reply out = \<lparr>p_status = 200, p_content = body, p_origin = header_field ''Origin'' ls\<rparr>"
proof -
  have "atoi ''200'' = 200" by code_simp
  with assms show ?thesis by (simp add: cgi_reply_def http_reply_def cgi_result_def)
qed

lemma cgi_reply_cached:
  "cgi_reply (cached_reply v) = \<lparr>p_status = 200, p_content = v, p_origin = Some ''Cache Server''\<rparr>"
proof -
  let ?l1 = "''Status: 200''" and ?l2 = "''Origin: Cache Server''" and ?l3 = "''Content-Type: application/binary''"
  have "header_lines (Suc (Suc (Suc (Suc 6)))) (?l1 @ crlf @ ?l2 @ crlf @ ?l3 @ crlf @ crlf @ v) = ([?l1, ?l2, ?l3], v)"
    by (intro header_lines_line header_lines_end) simp_all
  then have l: "header_lines 10 (cached_reply v) = ([?l1, ?l2, ?l3], v)"
    unfolding cached_reply_def by (simp only: numeral_eq_Suc pred_numeral_simps BitM.simps)
  have "header_field ''Status'' [?l1, ?l2, ?l3] = Some ''200''" by code_simp
  from cgi_reply_lines [OF l this] show ?thesis by (simp add: header_field_def lower_def)
qed

lemma cgi_reply_forwarded:
  assumes "CHR 0x0D \<notin> set t"
  shows "cgi_reply (forwarded_reply ''200'' t v) =
    \<lparr>p_status = 200, p_content = v, p_origin = Some ''Block Server''\<rparr>"
proof -
  let ?l1 = "''Status: 200''" and ?l2 = "''Origin: Block Server''" and ?l3 = "''Content-Type: '' @ t"
  have "header_lines (Suc (Suc (Suc (Suc 6)))) (?l1 @ crlf @ ?l2 @ crlf @ ?l3 @ crlf @ crlf @ v) = ([?l1, ?l2, ?l3], v)"
    using assms by (intro header_lines_line header_lines_end) simp_all
  moreover have "forwarded_reply ''200'' t v = ?l1 @ crlf @ ?l2 @ crlf @ ?l3 @ crlf @ crlf @ v"
    by (simp add: forwarded_reply_def)
  ultimately have l: "header_lines 10 (forwarded_reply ''200'' t v) = ([?l1, ?l2, ?l3], v)"
    by (simp only: numeral_eq_Suc pred_numeral_simps BitM.simps)
  have "header_field ''Status'' [?l1, ?l2, ?l3] = Some ''200''"
    by (simp add: header_field_def lower_def)
  from cgi_reply_lines [OF l this] show ?thesis by (simp add: header_field_def lower_def)
qed

end
