(* ===== verification/Client_Contract.thy ===== *)
theory Client_Contract
  imports Client_System
begin

text \<open>
  What a synchronisation by \<open>sync.py\<close> does to the servers and brings back, proved in the locale
  \<open>synced\<close>: the whole system of \<open>balabox\<close>, two JSON libraries that read what the other one
  writes, and a hash function without collisions among the blocks in question.
\<close>

section \<open>JSON between the client and the workers\<close>

text \<open>Values whose strings need no escape sequence and whose dictionaries name no key twice.\<close>

fun sendable_py :: "(string \<Rightarrow> bool) \<Rightarrow> py \<Rightarrow> bool" where
  "sendable_py ok (PStr s) = ok s"
| "sendable_py ok (PList vs) = (\<forall>v \<in> set vs. sendable_py ok v)"
| "sendable_py ok (PDict d) = (distinct (map fst d) \<and> (\<forall>(k, v) \<in> set d. ok k \<and> sendable_py ok v))"
| "sendable_py ok _ = True"

text \<open>
  \<open>val v\<close>: the Python value that stands for a value of jsoncpp. What a worker writes, the client
  reads; the dictionaries the client writes, whose members are strings and lists of strings, the
  workers read.
\<close>

locale json_exchange = jsoncpp_values J j_elems j_members
  for J :: "'j jsoncpp" and j_elems :: "'j \<Rightarrow> 'j list option" and j_members :: "'j \<Rightarrow> (string \<rightharpoonup> 'j) option" +
  fixes sendable :: "string \<Rightarrow> bool"
    and loads :: "string \<Rightarrow> py option"
    and dumps :: "(string \<times> py) list \<Rightarrow> string"
    and val :: "'j \<Rightarrow> py"
  assumes val_null: "val (j_null J) = PNone"
    and val_string: "val (j_string J s) = PStr s"
    and val_int: "val (j_int J i) = PInt i"
    and val_bool: "val (j_bool J x) = PBool x"
    and val_uint: "val (j_uint J n) = PInt (uint n)"
    and val_elems: "j_elems v = Some vs \<Longrightarrow> vs \<noteq> [] \<Longrightarrow> val v = PList (map val vs)"
    and val_members: "j_members v = Some m \<Longrightarrow> m \<noteq> Map.empty \<Longrightarrow>
      \<exists>d. val v = PDict d \<and> distinct (map fst d) \<and> (\<forall>k. map_of d k = map_option val (m k))"
    and loads_written: "sendable_py sendable (val v) \<Longrightarrow> loads (j_write J v) = Some (val v)"
    and dumped: "sendable_py sendable (PDict d) \<Longrightarrow>
      \<forall>v \<in> snd ` set d. (\<exists>s. v = PStr s) \<or> (\<exists>ss. v = PList (map PStr ss)) \<Longrightarrow>
      dumps d \<noteq> [] \<and> nul \<notin> set (dumps d) \<and>
      (\<exists>root m. j_parse J (dumps d) = (True, root) \<and> j_members root = Some m \<and>
        (\<forall>k s. map_of d k = Some (PStr s) \<longrightarrow> m k = Some (j_string J s)) \<and>
        (\<forall>k ss. map_of d k = Some (PList (map PStr ss)) \<longrightarrow>
           (\<exists>a. m k = Some a \<and> \<not> j_is_null J a \<and> j_elems a = Some (map (j_string J) ss))))"
begin

lemma val_strings:
  assumes "j_elems v = Some (map (j_string J) ss)" "ss \<noteq> []"
  shows "val v = PList (map PStr ss)"
proof -
  have "map val (map (j_string J) ss) = map PStr ss" by (simp add: val_string)
  with val_elems [OF assms(1)] assms(2) show ?thesis by simp
qed

text \<open>An answer with the members \<open>m\<close>, as the client reads its text.\<close>

lemma loads_answer:
  assumes "answers J j_members head m out" "m \<noteq> Map.empty"
    and "\<And>k x. m k = Some x \<Longrightarrow> sendable k \<and> sendable_py sendable (val x)"
  shows "\<exists>v d. out = head @ j_write J v \<and> loads (j_write J v) = Some (PDict d) \<and>
    (\<forall>k. map_of d k = map_option val (m k))"
proof -
  obtain v where v: "j_members v = Some m" "out = head @ j_write J v"
    using assms(1) by (auto simp: answers_def)
  obtain d where d: "val v = PDict d" "distinct (map fst d)" "\<forall>k. map_of d k = map_option val (m k)"
    using val_members [OF v(1) assms(2)] by blast
  have "sendable k \<and> sendable_py sendable y" if "(k, y) \<in> set d" for k y
  proof -
    have "map_of d k = Some y" using d(2) that by simp
    then obtain x where "m k = Some x" "y = val x" using d(3) by auto
    with assms(3) show ?thesis by blast
  qed
  then have "sendable_py sendable (val v)" using d(1,2) by auto
  from loads_written [OF this] v(2) d(1,3) show ?thesis by metis
qed

end

section \<open>Hashes, blocks and files\<close>

text \<open>The hexadecimal digits of a hash, and the blocks \<open>split\<close> cuts a file into.\<close>

definition hash_key :: "string \<Rightarrow> bool" where
  "hash_key k \<longleftrightarrow> length k \<le> 64 \<and>
     (\<forall>c \<in> set k. is_digit c \<or> 97 \<le> (of_char c :: nat) \<and> (of_char c :: nat) \<le> 102)"

definition block_ok :: "string \<Rightarrow> bool" where
  "block_ok v \<longleftrightarrow> length v \<le> 4194304 \<and> v \<noteq> ''Operation failed''"

lemma hash_key_char:
  assumes "hash_key k" "c \<in> set k"
  shows "48 \<le> (of_char c :: nat)" "(of_char c :: nat) \<le> 102" "(of_char c :: nat) \<notin> {61, 92}"
  using assms by (auto simp: hash_key_def is_digit_def)

lemma hash_key_facts:
  assumes "hash_key k"
  shows "url_key k" "plain k" "clean k" "hash_ok k" "key_ok k" "CHR 0x27 \<notin> set k"
proof -
  note c = hash_key_char [OF assms]
  show "url_key k" using assms c unfolding url_key_def hash_key_def by fastforce
  have not: "x \<notin> set k" if "(of_char x :: nat) < 48 \<or> (of_char x :: nat) \<in> {61, 92}" for x
    using c [of x] that by auto
  show "plain k" "key_ok k" "CHR 0x27 \<notin> set k"
    by (simp_all add: plain_def key_ok_def not)
  show "clean k" using c not [of "CHR 0x27"] not [of "CHR 0x5C"]
    unfolding clean_def printable_def by fastforce
  then show "hash_ok k" using assms not [of "CHR '' ''"] by (auto simp: hash_ok_def hash_key_def dest: last_in_set)
qed

lemma block_admitted:
  assumes "hash_key k" "block_ok v"
  shows "entry_admitted k v"
  using assms hash_key_facts(5) [OF assms(1)]
  by (auto simp: entry_admitted_def fits_def put_command_def hash_key_def block_ok_def MSG_SIZE_def)

text \<open>
  \<open>archive sha m\<close>: every block is stored under its hash. \<open>published F m\<close>: every hash in a list of
  the metadata server names a stored block.
\<close>

definition archive :: "(string \<Rightarrow> string) \<Rightarrow> (string \<rightharpoonup> string) \<Rightarrow> bool" where
  "archive sha m \<longleftrightarrow> (\<forall>k v. m k = Some v \<longrightarrow> sha v = k \<and> block_ok v)"

definition published :: "files \<Rightarrow> (string \<rightharpoonup> string) \<Rightarrow> bool" where
  "published F m \<longleftrightarrow> (\<forall>u f. \<forall>h \<in> set (fst (F u f)). hash_key h \<and> m h \<noteq> None)"

lemma archive_upd: "archive sha m \<Longrightarrow> block_ok v \<Longrightarrow> archive sha (m(sha v \<mapsto> v))"
  by (auto simp: archive_def)

lemma published_mono: "published F m \<Longrightarrow> m \<subseteq>\<^sub>m m' \<Longrightarrow> published F m'"
  unfolding published_def map_le_def by (metis domI domD domIff)

lemma published_set:
  assumes "published F m" "\<forall>h \<in> set hs. hash_key h \<and> m h \<noteq> None"
  shows "published (set_file coll u f (stamped hs v) F) m"
  using assms by (auto simp: published_def set_file_def stamped_def)

text \<open>A hash the metadata server knows is in one of its lists, up to the collation.\<close>

lemma known_in_files:
  assumes "represents coll d F" "hash_known coll d x" "\<And>y. coll y y"
  shows "\<exists>u f. \<exists>h \<in> set (fst (F u f)). coll h x"
proof -
  obtain r where r: "r \<in># fileblock d" "coll (fb_hash r) x"
    using assms(2) by (auto simp: hash_known_def filter_mset_eq_conv dest: multi_nonempty_split)
  let ?u = "fb_user r" and ?f = "fb_file r"
  obtain u0 f0 where h: "holds_file (file_rows coll ?u ?f d) u0 f0 (fst (F ?u ?f)) (snd (F ?u ?f))"
    using represents_file [OF assms(1)] by metis
  have "r \<in># file_rows coll ?u ?f d" using r(1) assms(3) by (simp add: file_rows_def same_file_def)
  then have "untimed r \<in># image_mset untimed (file_rows coll ?u ?f d)" by simp
  then have "untimed r \<in> block_row u0 f0 (snd (F ?u ?f)) (fst (F ?u ?f)) ` {0..<length (fst (F ?u ?f))}"
    using h unfolding holds_file_def by simp
  then obtain i where "i < length (fst (F ?u ?f))" "untimed r = block_row u0 f0 (snd (F ?u ?f)) (fst (F ?u ?f)) i"
    by auto
  then have "fb_hash r = fst (F ?u ?f) ! i" "fb_hash r \<in> set (fst (F ?u ?f))"
    by (auto simp: untimed_def block_row_def dest: arg_cong [where f = fb_hash])
  with r(2) show ?thesis by blast
qed

text \<open>The dictionary \<open>hash_to_file\<close> of the client names a file with the right content.\<close>

lemma hash_to_file_right:
  assumes "distinct (map fst pieces)" "k \<in> set (map (\<lambda>(p, v). sha v) pieces)"
  shows "\<exists>p v. map_of (rev (zip (map (\<lambda>(p, v). sha v) pieces) (map fst pieces))) k = Some p \<and>
    map_of pieces p = Some v \<and> sha v = k \<and> (p, v) \<in> set pieces"
proof -
  let ?z = "rev (zip (map (\<lambda>(p, v). sha v) pieces) (map fst pieces))"
  have z: "set ?z = (\<lambda>(p, v). (sha v, p)) ` set pieces"
    by (induction pieces) auto
  then have "k \<in> fst ` set ?z" using assms(2) by force
  then obtain p where p: "map_of ?z k = Some p" by (meson map_of_eq_None_iff not_None_eq)
  then have "(k, p) \<in> set ?z" by (rule map_of_SomeD)
  then obtain v where v: "(p, v) \<in> set pieces" "sha v = k" unfolding z by auto
  then have "map_of pieces p = Some v" using assms(1) by simp
  with p v show ?thesis by blast
qed

text \<open>Without collisions a block stored under a hash is the one with that hash.\<close>

lemma archived_content:
  assumes "archive sha m" "inj_on sha (ran m \<union> V)" "v \<in> V" "m (sha v) \<noteq> None"
  shows "m (sha v) = Some v"
proof -
  obtain w where w: "m (sha v) = Some w" using assms(4) by auto
  then have "sha w = sha v" using assms(1) by (auto simp: archive_def)
  moreover have "w \<in> ran m" using w by (rule ranI)
  ultimately have "w = v" using assms(2,3) by (auto dest: inj_onD)
  with w show ?thesis by simp
qed

section \<open>The client and the servers together\<close>

definition field_names :: "string list" where
  "field_names = [''user_id'', ''file_name'', ''block_list'', ''version'', ''nb'', ''needed_blocks'', ''metadata_updated'']"

lemma error_reply: "p_status (http_reply (cgi_result (outputErrorMessage @ body))) = 400"
proof -
  let ?l1 = "''Status: 400''" and ?l2 = "''Content-type: text/html''"
  obtain rest where out: "outputErrorMessage @ body = ?l1 @ crlf @ ?l2 @ crlf @ crlf @ rest"
    by (auto simp: outputErrorMessage_def)
  have "header_lines (Suc (Suc (Suc 7))) (?l1 @ crlf @ ?l2 @ crlf @ crlf @ rest) = ([?l1, ?l2], rest)"
    by (intro header_lines_line header_lines_end) simp_all
  then have "header_lines 10 (outputErrorMessage @ body) = ([?l1, ?l2], rest)"
    unfolding out by (simp only: numeral_eq_Suc pred_numeral_simps BitM.simps)
  moreover have "header_field ''Status'' [?l1, ?l2] = Some ''400''" by code_simp
  moreover have "atoi ''400'' = 400" by code_simp
  ultimately show ?thesis by (simp add: http_reply_def cgi_result_def)
qed

lemma json_reply:
  "http_reply (cgi_result (outputNormalMessage @ body)) = \<lparr>p_status = 200, p_content = body, p_origin = None\<rparr>"
  by (simp add: http_reply_def header_json)

text \<open>The answer to a store, as \<open>curl\<close> prints it.\<close>

lemma stored_reply:
  assumes "out = ''Status: '' @ c_str (show_int code) @ crlf @ ''Content-Type:  text/html'' @ crlf @ crlf @ page"
  shows "p_content (cgi_reply out) = page"
proof -
  let ?l1 = "''Status: '' @ show_int code" and ?l2 = "''Content-Type:  text/html''"
  have "CHR 0x0D \<notin> set (show_int code)" by (auto simp: show_int_def show_nat_no_cr)
  then have "header_lines (Suc (Suc (Suc 7))) (?l1 @ crlf @ ?l2 @ crlf @ crlf @ page) = ([?l1, ?l2], page)"
    by (intro header_lines_line header_lines_end) simp_all
  moreover have "c_str (show_int code) = show_int code" by (rule c_str_id) simp
  with assms have "out = ?l1 @ crlf @ ?l2 @ crlf @ crlf @ page" by simp
  ultimately have "header_lines 10 out = ([?l1, ?l2], page)"
    by (simp only: numeral_eq_Suc pred_numeral_simps BitM.simps)
  then show ?thesis by (simp add: cgi_reply_def http_reply_def cgi_result_def)
qed

lemma says_stored:
  assumes "prefix ''<html><p> 200 OK'' page"
  shows "find_sub ''200 OK'' (c_str page) \<noteq> None"
proof -
  obtain rest where "page = ''<html><p> 200 OK'' @ rest" using assms by (auto simp: prefix_def)
  then have c: "c_str page = ''<html><p> 200 OK'' @ c_str rest" by (simp add: c_str_def nul_def)
  then have "10 \<le> length (c_str page)" "prefix ''200 OK'' (drop 10 (c_str page))" by simp_all
  then show ?thesis using find_sub_None [of "''200 OK''" "c_str page"] by blast
qed

text \<open>The dictionary of a query; a commit adds the version.\<close>

definition query_fields :: "string \<Rightarrow> string \<Rightarrow> string list \<Rightarrow> (string \<times> py) list" where
  "query_fields u f hs =
     [(''user_id'', PStr u), (''file_name'', PStr f), (''block_list'', PList (map PStr hs))]"

locale synced =
  balabox J j_elems j_members sendable M tables pending coll up L store usable B bstore busable tries +
  exchange: json_exchange J j_elems j_members sendable loads dumps val
  for J :: "'j jsoncpp" and j_elems :: "'j \<Rightarrow> 'j list option"
    and j_members :: "'j \<Rightarrow> (string \<rightharpoonup> 'j) option" and sendable :: "string \<Rightarrow> bool"
    and M :: "'c mysql_api" and tables :: "'c \<Rightarrow> db" and pending :: "'c \<Rightarrow> row list"
    and coll :: "string \<Rightarrow> string \<Rightarrow> bool" and up :: "'c \<Rightarrow> bool"
    and L :: "'d leveldb" and store :: "'d \<Rightarrow> string \<rightharpoonup> string" and usable :: "'d \<Rightarrow> bool"
    and B :: "'b leveldb" and bstore :: "'b \<Rightarrow> string \<rightharpoonup> string" and busable :: "'b \<Rightarrow> bool"
    and tries :: "'b \<Rightarrow> nat"
    and loads :: "string \<Rightarrow> py option" and dumps :: "(string \<times> py) list \<Rightarrow> string" and val :: "'j \<Rightarrow> py" +
  fixes N :: "'n sockets" and push :: "'n \<Rightarrow> string \<Rightarrow> 'n" and eth0 :: "string list" and ip :: string
    and junk :: operation and host :: string and sha :: "string \<Rightarrow> string"
  assumes sockets: "sending N push" "s_socket N q = (q, True)" "s_resolve N q"
      "s_connect N q loopback_address prefetch_portno = (q, True)"
    and address: "getIPAddress eth0 [] = Inr (0, ip)"
    and cache_host: "CHR ''/'' \<notin> set host" "CHR 0x27 \<notin> set host" "host \<noteq> ''metaserver.raycoll.me''"
    and digest: "hash_key (sha v)"
    and coll_digests: "hash_key x \<Longrightarrow> hash_key y \<Longrightarrow> coll x y \<Longrightarrow> x = y"
    and sendable_digests: "hash_key k \<Longrightarrow> sendable k"
    and sendable_fields: "k \<in> set field_names \<Longrightarrow> sendable k"
begin

abbreviation E where
  "E \<equiv> web_client J M (machine L junk) (block_gateway B eth0) N loads dumps sha"

lemma coll_same: "coll x x"
  by (rule meta.db.coll_refl)

lemma field_sendable [simp]:
  "sendable ''user_id''" "sendable ''file_name''" "sendable ''block_list''" "sendable ''version''"
  "sendable ''nb''" "sendable ''needed_blocks''" "sendable ''metadata_updated''"
  by (simp_all add: sendable_fields field_names_def)

lemma E_simps [simp]:
  "rq_send E = web_send J M (machine L junk) (block_gateway B eth0) N"
  "rq_json E = loads" "py_dumps E = dumps" "sha256 E = sha"
  "py_shell E = run_curl (web_send J M (machine L junk) (block_gateway B eth0) N)"
  by (simp_all add: web_client_def)

text \<open>A request to the metadata server.\<close>

lemma meta_send:
  assumes "url = ''http://metaserver.raycoll.me'' @ path" "hd path = CHR ''/''"
    and "full = path @ (if form_fields params = [] then [] else ''?'' @ render_query (form_fields params))"
    and "map_of worker_paths (path_name full) = Some w"
    and "worker_request w J M c (gateway_request full data) = Inr (c', out)"
  shows "send_request E (s, (c, b), q) method url params data = Inr ((s, (c', b), q), http_reply (cgi_result out))"
proof -
  have "split_url (''http://'' @ ''metaserver.raycoll.me'' @ path) = (''metaserver.raycoll.me'', path)"
    using assms(2) by (intro split_url_host) simp_all
  then have u: "split_url url = (''metaserver.raycoll.me'', path)" by (simp add: assms(1))
  show ?thesis
    unfolding send_request_def E_simps web_send_def u using assms(3-5) by (simp add: meta_gateway_def)
qed

text \<open>The answer of a worker, as a dictionary of Python.\<close>

lemma read_members:
  assumes "answers J j_members outputNormalMessage m out" "m \<noteq> Map.empty"
    and "\<And>k x. m k = Some x \<Longrightarrow> sendable k \<and> sendable_py sendable (val x)"
  shows "requestOK (http_reply (cgi_result out))"
    and "\<exists>v. reply_json E (http_reply (cgi_result out)) = Inr v \<and>
      (\<forall>k x. m k = Some x \<longrightarrow> item v k = Inr (val x))"
proof -
  obtain v d where v: "out = outputNormalMessage @ j_write J v" "loads (j_write J v) = Some (PDict d)"
    "\<forall>k. map_of d k = map_option val (m k)"
    using exchange.loads_answer [OF assms] by blast
  show "requestOK (http_reply (cgi_result out))" by (simp add: requestOK_def v(1) json_reply)
  show "\<exists>v. reply_json E (http_reply (cgi_result out)) = Inr v \<and>
      (\<forall>k x. m k = Some x \<longrightarrow> item v k = Inr (val x))"
    using v by (intro exI [of _ "PDict d"]) (simp add: reply_json_def json_reply item_def)
qed

lemma list_query:
  assumes "plain u" "plain f" "length u + length f < 2 ^ 30"
  shows "asks (gateway_request (''/block_list?'' @ render_query [(''file_name'', f), (''user_id'', u)]) [])
    [(''user_id'', u), (''file_name'', f)]"
proof (rule asks_gateway)
  show "path_query (''/block_list?'' @ render_query [(''file_name'', f), (''user_id'', u)]) =
      Some (render_query [(''file_name'', f), (''user_id'', u)])"
    by (simp add: path_query_def)
  show "plain_params [(''file_name'', f), (''user_id'', u)]"
    using assms(1,2) by (simp add: plain_params_def plain_def)
  show "short (render_query [(''file_name'', f), (''user_id'', u)])" using assms(3) by simp
qed (simp add: plain_def suffix_def)

lemma getBlockList_reply:
  assumes "represents coll (tables c) F" "\<forall>h \<in> set (fst (F u f)). hash_key h"
    and "clean u" "clean f" "plain u" "plain f" "length u + length f < 2 ^ 30"
  shows "\<exists>c' v. getBlockList E (s, (c, b), q) f u = Inr ((s, (c', b), q), Some v) \<and> tables c' = tables c \<and>
    item v ''block_list'' = Inr (if fst (F u f) = [] then PNone else PList (map PStr (fst (F u f)))) \<and>
    item v ''version'' = Inr (PInt (int (snd (F u f))))"
proof -
  let ?full = "''/block_list?'' @ render_query [(''file_name'', f), (''user_id'', u)]"
  let ?hs = "fst (F u f)" and ?n = "word_of_nat (snd (F u f)) :: 32 word"
  obtain c' out bl where w: "block_list_request J M c (gateway_request ?full []) = Inr (c', out)"
    "tables c' = tables c" "j_elems bl = Some (map (j_string J) ?hs)" "?hs = [] \<longrightarrow> bl = j_null J"
    "answers J j_members outputNormalMessage [''block_list'' \<mapsto> bl, ''version'' \<mapsto> j_uint J ?n] out"
    using meta.block_list_answer [OF list_query [OF assms(5-7)] assms(3,4,1)] by blast
  have bl: "val bl = (if ?hs = [] then PNone else PList (map PStr ?hs))"
    using exchange.val_strings [OF w(3)] w(4) exchange.val_null by simp
  have "snd (F u f) < 2 ^ 32" using represents_file [OF assms(1)] by metis
  then have n: "val (j_uint J ?n) = PInt (int (snd (F u f)))"
    by (simp add: exchange.val_uint uint_nat unat_of_nat)
  have send: "send_request E (s, (c, b), q) ''GET'' ''http://metaserver.raycoll.me/block_list''
      [(''file_name'', PStr f), (''user_id'', PStr u)] [] = Inr ((s, (c', b), q), http_reply (cgi_result out))"
  proof (rule meta_send)
    have "path_name ?full = ''/block_list''" by (simp add: path_name_def)
    then show "map_of worker_paths (path_name ?full) = Some W_block_list" by (simp add: worker_paths_def)
    show "worker_request W_block_list J M c (gateway_request ?full []) = Inr (c', out)" using w(1) by simp
  qed simp_all
  have members: "sendable k \<and> sendable_py sendable (val x)"
    if "[''block_list'' \<mapsto> bl, ''version'' \<mapsto> j_uint J ?n] k = Some x" for k x
    using that bl n assms(2) sendable_digests by (auto split: if_splits)
  note r = read_members [OF w(5) _ this]
  obtain v where v: "reply_json E (http_reply (cgi_result out)) = Inr v"
    "\<forall>k x. [''block_list'' \<mapsto> bl, ''version'' \<mapsto> j_uint J ?n] k = Some x \<longrightarrow> item v k = Inr (val x)"
    using r(2) by auto
  have "item v ''block_list'' = Inr (val bl)" "item v ''version'' = Inr (val (j_uint J ?n))" using v(2) by auto
  then show ?thesis using send r(1) v(1) w(2) bl n by (simp add: getBlockList_def)
qed

lemma posted_fields:
  assumes "sendable u" "sendable f" "\<forall>h \<in> set hs. sendable h" "d = query_fields u f hs @ vs"
    and "vs = [] \<or> (\<exists>vt. vs = [(''version'', PStr vt)] \<and> sendable vt)"
    and "length (dumps d) \<le> STDIN_MAX"
  shows "\<exists>m a. posts J j_members (gateway_request path (dumps d)) m \<and>
    m ''user_id'' = Some (j_string J u) \<and> m ''file_name'' = Some (j_string J f) \<and>
    m ''block_list'' = Some a \<and> \<not> j_is_null J a \<and> j_elems a = Some (map (j_string J) hs) \<and>
    (\<forall>vt. map_of vs ''version'' = Some (PStr vt) \<longrightarrow> m ''version'' = Some (j_string J vt))"
proof -
  have d: "sendable_py sendable (PDict d)" using assms(1-5) by (auto simp: query_fields_def)
  have "\<forall>v \<in> snd ` set d. (\<exists>s. v = PStr s) \<or> (\<exists>ss. v = PList (map PStr ss))"
    using assms(4,5) by (auto simp: query_fields_def)
  from exchange.dumped [OF d this] obtain root m where t: "dumps d \<noteq> []" "nul \<notin> set (dumps d)"
    "j_parse J (dumps d) = (True, root)" "j_members root = Some m"
    "\<forall>k s. map_of d k = Some (PStr s) \<longrightarrow> m k = Some (j_string J s)"
    "\<forall>k ss. map_of d k = Some (PList (map PStr ss)) \<longrightarrow>
       (\<exists>a. m k = Some a \<and> \<not> j_is_null J a \<and> j_elems a = Some (map (j_string J) ss))" by blast
  have k: "map_of d ''user_id'' = Some (PStr u)" "map_of d ''file_name'' = Some (PStr f)"
    "map_of d ''block_list'' = Some (PList (map PStr hs))"
    by (simp_all add: assms(4) query_fields_def)
  have "map_of d ''version'' = map_of vs ''version''" by (simp add: assms(4) query_fields_def)
  moreover have "posts J j_members (gateway_request path (dumps d)) m"
    using assms(6) t(1-4) by (intro posts_gateway)
  moreover obtain a where "m ''block_list'' = Some a" "\<not> j_is_null J a" "j_elems a = Some (map (j_string J) hs)"
    using t(6) k(3) by blast
  ultimately show ?thesis using t(5) k(1,2) by (intro exI [of _ m] exI [of _ a]) simp
qed

lemma getBlockQuery_reply:
  assumes "sendable u" "sendable f" "hs \<noteq> [] \<or> my_unset_null M (fst (connect M c))"
    and "\<forall>h \<in> set hs. hash_key h" "length (dumps (query_fields u f hs)) \<le> STDIN_MAX" "size (fileblock (tables c)) < 2 ^ 31"
  shows "\<exists>c' v. getBlockQuery E (s, (c, b), q) f hs u = Inr ((s, (c', b), q), Some v) \<and> tables c' = tables c \<and>
    (let missing = filter (\<lambda>x. \<not> hash_known coll (tables c) x) hs in
     if missing = [] then item v ''nb'' = Inr (PBool False)
     else item v ''nb'' = Inr (PBool True) \<and> item v ''needed_blocks'' = Inr (PList (map PStr missing)))"
proof -
  let ?d = "query_fields u f hs" and ?missing = "filter (\<lambda>x. \<not> hash_known coll (tables c) x) hs"
  have hs: "\<forall>h \<in> set hs. sendable h" "\<forall>h \<in> set hs. clean h"
    using assms(4) sendable_digests hash_key_facts(3) by blast+
  obtain m a where m: "posts J j_members (gateway_request ''/block_query'' (dumps ?d)) m"
    "m ''user_id'' = Some (j_string J u)" "m ''file_name'' = Some (j_string J f)"
    "m ''block_list'' = Some a" "\<not> j_is_null J a" "j_elems a = Some (map (j_string J) hs)"
    using posted_fields [OF assms(1,2) hs(1), of ?d "[]" "''/block_query''"] assms(5) by auto
  note nn = meta.json.not_null_string
  obtain c' out where w: "block_query_request J M c (gateway_request ''/block_query'' (dumps ?d)) = Inr (c', out)"
    "tables c' = tables c"
    "if ?missing = [] then answers J j_members outputNormalMessage [''nb'' \<mapsto> j_bool J False] out
     else \<exists>nb. j_elems nb = Some (map (j_string J) ?missing) \<and>
       answers J j_members outputNormalMessage [''nb'' \<mapsto> j_bool J True, ''needed_blocks'' \<mapsto> nb] out"
    using meta.block_query_answer [OF m(1,2) nn m(3) nn m(4-6) assms(3) hs(2) assms(6)]
    unfolding Let_def by blast
  have send: "send_request E (s, (c, b), q) ''GET'' ''http://metaserver.raycoll.me/block_query'' [] (dumps ?d) =
      Inr ((s, (c', b), q), http_reply (cgi_result out))"
  proof (rule meta_send)
    show "map_of worker_paths (path_name ''/block_query'') = Some W_block_query"
      by (simp add: path_name_def worker_paths_def)
  qed (use w(1) in simp_all)
  have answered: ?thesis
    if "requestOK (http_reply (cgi_result out))" "reply_json E (http_reply (cgi_result out)) = Inr v"
      "if ?missing = [] then item v ''nb'' = Inr (PBool False)
       else item v ''nb'' = Inr (PBool True) \<and> item v ''needed_blocks'' = Inr (PList (map PStr ?missing))" for v
    using that send w(2) by (simp add: getBlockQuery_def Let_def query_fields_def)
  show ?thesis
  proof (cases "?missing = []")
    case True
    with w(3) have a: "answers J j_members outputNormalMessage [''nb'' \<mapsto> j_bool J False] out" by simp
    have "sendable k \<and> sendable_py sendable (val x)" if "[''nb'' \<mapsto> j_bool J False] k = Some x" for k x
      using that by (auto simp: exchange.val_bool split: if_splits)
    note r = read_members [OF a _ this]
    then show ?thesis using answered True exchange.val_bool by fastforce
  next
    case False
    with w(3) obtain nb where a: "j_elems nb = Some (map (j_string J) ?missing)"
      "answers J j_members outputNormalMessage [''nb'' \<mapsto> j_bool J True, ''needed_blocks'' \<mapsto> nb] out" by auto
    have nb: "val nb = PList (map PStr ?missing)" using exchange.val_strings [OF a(1) False] .
    have "sendable k \<and> sendable_py sendable (val x)"
      if "[''nb'' \<mapsto> j_bool J True, ''needed_blocks'' \<mapsto> nb] k = Some x" for k x
      using that nb hs(1) by (auto simp: exchange.val_bool split: if_splits)
    note r = read_members [OF a(2) _ this]
    obtain v where v: "reply_json E (http_reply (cgi_result out)) = Inr v"
      "\<forall>k x. [''nb'' \<mapsto> j_bool J True, ''needed_blocks'' \<mapsto> nb] k = Some x \<longrightarrow> item v k = Inr (val x)"
      using r(2) by auto
    have "item v ''nb'' = Inr (val (j_bool J True))" "item v ''needed_blocks'' = Inr (val nb)" using v(2) by auto
    then show ?thesis using answered [OF _ v(1)] r(1) False nb exchange.val_bool by auto
  qed
qed

lemma postFileCommit_reply:
  assumes "represents coll (tables c) F" "name_ok u" "name_ok f" "sendable u" "sendable f" "sendable vt"
    and "\<forall>h \<in> set hs. hash_key h" "length hs < 2 ^ 31" "0 \<le> sint (commit_version vt)"
    and "length (dumps (query_fields u f hs @ [(''version'', PStr vt)])) \<le> STDIN_MAX"
  shows "\<exists>c'. postFileCommit E (s, (c, b), q) f hs u vt =
      Inr ((s, (c', b), q), accepts (fst (F u f)) (snd (F u f)) (commit_version vt)) \<and>
    represents coll (tables c')
      (if accepts (fst (F u f)) (snd (F u f)) (commit_version vt)
       then set_file coll u f (stamped hs (unat (commit_version vt))) F else F)"
proof -
  let ?d = "query_fields u f hs @ [(''version'', PStr vt)]" and ?x = "Commit u f hs (commit_version vt)"
  let ?acc = "accepts (fst (F u f)) (snd (F u f)) (commit_version vt)"
  have hs: "\<forall>h \<in> set hs. sendable h" "\<forall>h \<in> set hs. hash_ok h"
    using assms(7) sendable_digests hash_key_facts(4) by blast+
  obtain m a where m: "posts J j_members (gateway_request ''/file_commit'' (dumps ?d)) m"
    "m ''user_id'' = Some (j_string J u)" "m ''file_name'' = Some (j_string J f)"
    "m ''block_list'' = Some a" "\<not> j_is_null J a" "j_elems a = Some (map (j_string J) hs)"
    "m ''version'' = Some (j_string J vt)"
    using posted_fields [OF assms(4,5) hs(1), of ?d "[(''version'', PStr vt)]" "''/file_commit''"] assms(6,10)
    by auto
  have fields: "commit_fields J j_elems m u f hs vt"
    using m(2-7) meta.json.not_null_string meta.json.as_string_string by (simp add: commit_fields_def)
  have ok: "op_ok ?x" using assms(2,3,8,9) hs(2) by simp
  obtain c' out where w: "file_commit_request J M c (gateway_request ''/file_commit'' (dumps ?d)) = Inr (c', out)"
    "represents coll (tables c') (fst (spec_step coll F ?x))"
    "if snd (spec_step coll F ?x) = Status 0
     then answers J j_members outputNormalMessage [''metadata_updated'' \<mapsto> j_bool J True] out
     else answers J j_members outputErrorMessage
       [''metadata_updated'' \<mapsto> j_bool J False, ''message'' \<mapsto> j_string J ''Old client version.''] out"
    using meta.file_commit_answer [OF m(1) fields ok assms(1)] by blast
  have send: "send_request E (s, (c, b), q) ''POST'' ''http://metaserver.raycoll.me/file_commit'' [] (dumps ?d) =
      Inr ((s, (c', b), q), http_reply (cgi_result out))"
  proof (rule meta_send)
    show "map_of worker_paths (path_name ''/file_commit'') = Some W_file_commit"
      by (simp add: path_name_def worker_paths_def)
  qed (use w(1) in simp_all)
  show ?thesis
  proof (cases ?acc)
    case True
    with w(3) have a: "answers J j_members outputNormalMessage [''metadata_updated'' \<mapsto> j_bool J True] out" by simp
    have "sendable k \<and> sendable_py sendable (val x)" if "[''metadata_updated'' \<mapsto> j_bool J True] k = Some x" for k x
      using that by (auto simp: exchange.val_bool split: if_splits)
    note r = read_members [OF a _ this]
    obtain v where "reply_json E (http_reply (cgi_result out)) = Inr v" "item v ''metadata_updated'' = Inr (PBool True)"
      using r(2) exchange.val_bool by fastforce
    with r(1) send True w(2) show ?thesis
      by (simp add: postFileCommit_def Let_def query_fields_def is_true_def)
  next
    case False
    with w(3) obtain body where "out = outputErrorMessage @ body" by (auto simp: answers_def EVERS_def)
    then have "\<not> requestOK (http_reply (cgi_result out))" by (simp add: requestOK_def error_reply)
    with send False w(2) show ?thesis by (simp add: postFileCommit_def Let_def query_fields_def)
  qed
qed

text \<open>A request to the cache machine.\<close>

lemma cache_send:
  assumes "url = ''http://'' @ host @ path" "hd path = CHR ''/''" "path \<noteq> []"
    and "full = path @ (if form_fields params = [] then [] else ''?'' @ render_query (form_fields params))"
    and "cache_site (machine L junk) (internet (meta_gateway J M) (block_gateway B eth0)) N w full data = (w', r)"
  shows "web_send J M (machine L junk) (block_gateway B eth0) N w method url params data = (w', Some r)"
proof -
  have "split_url (''http://'' @ host @ path) = (host, path)"
    using cache_host assms(2) by (intro split_url_host) simp_all
  then have u: "split_url url = (host, path)" by (simp add: assms(1))
  show ?thesis unfolding web_send_def u using assms(4,5) cache_host(3) by simp
qed

lemma store_request:
  assumes "hash_key k" "plain u" "length u < 2 ^ 29" "length v \<le> STORE_STDIN_MAX"
    and "r = gateway_request (''/cache_block_store?hash='' @ k @ ''&user='' @ u) v"
  shows "\<exists>b' out. cache_block_store_request (internet MX (block_gateway B eth0)) (c, b) r = Inr ((c, b'), out) \<and>
    bstore b' = (bstore b)(k \<mapsto> v) \<and> find_sub ''200 OK'' (p_content (cgi_reply out)) \<noteq> None"
proof -
  note k = hash_key_facts [OF assms(1)]
  obtain b' code page where d: "n_dispatch (block_gateway B eth0) b (c_str block_ip) (c_str ''POST'')
      (c_str (''/block_store?hash='' @ k)) v =
      (b', \<lparr>r_ok = True, r_code = code, r_type = Some ''text/html'', r_pieces = [page]\<rparr>)"
    "prefix ''<html><p> 200 OK'' page" "bstore b' = (bstore b)(k \<mapsto> v)"
    using remote.gateway_store [OF k(1) assms(4) address, of b "c_str block_ip" "c_str ''POST''"] by auto
  have "length k < 2 ^ 29" using assms(1) by (simp add: hash_key_def)
  with assms(3) have l: "length k + length u < 2 ^ 30" by simp
  have r: "query_string r = Some (render_query [(''hash'', k), (''user'', u)])" "stdin_bytes r = v"
    by (simp_all add: assms(5) gateway_request_def path_query_def)
  let ?out = "''Status: '' @ c_str (show_int code) @ crlf @ ''Content-Type:  '' @ c_str ''text/html'' @ crlf @ crlf @ c_str page"
  have "cache_block_store_request (internet MX (block_gateway B eth0)) (c, b) r = Inr ((c, b'), ?out)"
    using d(1) r fetch_query(1) [OF k(2) assms(2) l]
    by (simp add: cache_block_store_request_def storeToBlockServer_def sendHttpRequest_def internet_def
        read_stdin_all Let_def)
  moreover have "c_str ''text/html'' = ''text/html''" by code_simp
  then have "p_content (cgi_reply ?out) = c_str page" by (intro stored_reply) simp
  ultimately show ?thesis using d(3) says_stored [OF d(2)] by metis
qed

lemma postBlockStore_reply:
  assumes "hash_key k" "plain u" "clean u" "length u < 2 ^ 29" "length v \<le> STORE_STDIN_MAX"
    and "files path = Some v" "CHR '' '' \<notin> set path"
  shows "\<exists>b'. postBlockStore E host files (s, (c, b), q) path k u = ((s, (c, b'), q), True) \<and>
    bstore b' = (bstore b)(k \<mapsto> v)"
proof -
  let ?path = "''/cache_block_store?hash='' @ k @ ''&user='' @ u" and ?X = "internet (meta_gateway J M) (block_gateway B eth0)"
  let ?url = "''http://'' @ host @ ?path" and ?prog = "''curl -s --data-binary @''"
  obtain b' out where w: "cache_block_store_request ?X (c, b) (gateway_request ?path v) = Inr ((c, b'), out)"
    "bstore b' = (bstore b)(k \<mapsto> v)" "find_sub ''200 OK'' (p_content (cgi_reply out)) \<noteq> None"
    using store_request [OF assms(1,2,4,5) refl, where MX = "meta_gateway J M" and c = c and b = b] by blast
  have "path_name ?path = ''/cache_block_store''" by (simp add: path_name_def)
  then have "cache_site (machine L junk) ?X N (s, (c, b), q) ?path v = ((s, (c, b'), q), cgi_reply out)"
    using w(1) by (simp add: cache_site_def)
  then have send: "web_send J M (machine L junk) (block_gateway B eth0) N (s, (c, b), q) ''POST'' ?url [] v =
      ((s, (c, b'), q), Some (cgi_reply out))"
    by (intro cache_send [of _ ?path]) simp_all
  have cmd: "curl_command path host k u = ?prog @ path @ CHR '' '' # CHR 0x27 # ?url @ [CHR 0x27]"
    by (simp add: curl_command_def)
  have quote: "CHR 0x27 \<notin> set ?url"
    using hash_key_facts(6) [OF assms(1)] cache_host(2) assms(3) by (auto simp: clean_def)
  have "takeWhile (\<lambda>c. c \<noteq> CHR '' '') (path @ CHR '' '' # CHR 0x27 # ?url @ [CHR 0x27]) = path"
    "dropWhile (\<lambda>c. c \<noteq> CHR '' '') (path @ CHR '' '' # CHR 0x27 # ?url @ [CHR 0x27]) =
       CHR '' '' # CHR 0x27 # ?url @ [CHR 0x27]"
    "takeWhile (\<lambda>c. c \<noteq> CHR 0x27) (?url @ [CHR 0x27]) = ?url"
    using split_at_char [OF assms(7)] split_at_char [OF quote] by simp_all
  then have "run_curl (web_send J M (machine L junk) (block_gateway B eth0) N) (s, (c, b), q) files
      (curl_command path host k u) = ((s, (c, b'), q), p_content (cgi_reply out))"
    unfolding cmd run_curl_def Let_def using send assms(6)
    by (simp del: append_assoc)
  with w(2,3) show ?thesis by (simp add: postBlockStore_def)
qed

text \<open>The blocks the metadata server asks for are stored, the others stay.\<close>

lemma store_needed_all:
  assumes "plain u" "clean u" "length u < 2 ^ 29" "archive sha (bstore b)"
    and "\<forall>k \<in> set ks. \<exists>p. hash_to_file k = Some p \<and> files p = Some (blk k) \<and> CHR '' '' \<notin> set p \<and>
      sha (blk k) = k \<and> block_ok (blk k) \<and> (bstore b k = None \<or> bstore b k = Some (blk k))"
  shows "\<exists>b'. store_needed E host files hash_to_file u (s, (c, b), q) (map PStr ks) = Inr ((s, (c, b'), q), True) \<and>
    archive sha (bstore b') \<and> bstore b \<subseteq>\<^sub>m bstore b' \<and> (\<forall>k \<in> set ks. bstore b' k = Some (blk k))"
  using assms(4,5)
proof (induction ks arbitrary: b)
  case (Cons k ks)
  obtain p where p: "hash_to_file k = Some p" "files p = Some (blk k)" "CHR '' '' \<notin> set p"
    "sha (blk k) = k" "block_ok (blk k)" "bstore b k = None \<or> bstore b k = Some (blk k)"
    using Cons.prems(2) by auto
  have "length (blk k) \<le> STORE_STDIN_MAX" using p(5) by (simp add: block_ok_def STORE_STDIN_MAX_def)
  then obtain b1 where b1: "postBlockStore E host files (s, (c, b), q) p k u = ((s, (c, b1), q), True)"
    "bstore b1 = (bstore b)(k \<mapsto> blk k)"
    using postBlockStore_reply [of k u "blk k" files p s c b q] digest [of "blk k"] p(2-4) assms(1-3) by auto
  have a: "archive sha (bstore b1)" using archive_upd [OF Cons.prems(1) p(5)] p(4) b1(2) by simp
  have le: "bstore b \<subseteq>\<^sub>m bstore b1" using p(6) b1(2) by (auto simp: map_le_def)
  have "\<forall>k' \<in> set ks. \<exists>p. hash_to_file k' = Some p \<and> files p = Some (blk k') \<and> CHR '' '' \<notin> set p \<and>
      sha (blk k') = k' \<and> block_ok (blk k') \<and> (bstore b1 k' = None \<or> bstore b1 k' = Some (blk k'))"
    using Cons.prems(2) b1(2) by auto
  from Cons.IH [OF a this] obtain b2 where b2: "store_needed E host files hash_to_file u (s, (c, b1), q) (map PStr ks) =
      Inr ((s, (c, b2), q), True)" "archive sha (bstore b2)" "bstore b1 \<subseteq>\<^sub>m bstore b2"
    "\<forall>k \<in> set ks. bstore b2 k = Some (blk k)" by blast
  have "bstore b2 k = Some (blk k)" using b2(3) b1(2) by (auto simp: map_le_def dom_def)
  moreover have "bstore b \<subseteq>\<^sub>m bstore b2" using le b2(3) by (rule map_le_trans)
  ultimately show ?case using p(1) b1(1) b2 by simp
qed auto

text \<open>A block fetched through the cache machine, and the blocks of a list.\<close>

lemma cache_admitted:
  assumes "archive sha (bstore b)" "machine_contents store s \<subseteq>\<^sub>m bstore b"
  shows "map_admitted (machine_contents store s)"
  unfolding map_admitted_def
proof (intro allI impI)
  fix k v
  assume "machine_contents store s k = Some v"
  then have "bstore b k = Some v" using assms(2) by (auto simp: map_le_def dom_def)
  then have "sha v = k" "block_ok v" using assms(1) by (auto simp: archive_def)
  then show "entry_admitted k v" using block_admitted [of k v] digest [of v] by simp
qed

lemma getBlockFetch_reply:
  assumes "machine_ready usable s" "machine_contents store s \<subseteq>\<^sub>m bstore b" "archive sha (bstore b)"
    and "bstore b k = Some v" "plain u" "length u \<le> 100"
  shows "\<exists>s' b' q'. getBlockFetch E host (s, (c, b), q) (PStr k) u = Inr ((s', (c, b'), q'), Some v) \<and>
    machine_ready usable s' \<and> machine_contents store s' \<subseteq>\<^sub>m bstore b' \<and> bstore b' = bstore b"
proof -
  let ?X = "internet (meta_gateway J M) (block_gateway B eth0)"
  let ?full = "''/cache_block_fetch?'' @ render_query [(''hash'', k), (''user'', u)]"
  define r where "r = gateway_request ?full []"
  have kv: "sha v = k" "block_ok v" using assms(3,4) by (auto simp: archive_def)
  then have hk: "hash_key k" using digest [of v] by simp
  note k = hash_key_facts [OF hk]
  have len: "length k \<le> 64" using hk by (simp add: hash_key_def)
  have coh: "whole.coherent s (c, b)" "whole.requestable (c, b) k"
    using assms(1-4) cache_admitted block_admitted [OF hk kv(2)] k(1)
    by (simp_all add: whole.coherent_def whole.requestable_def)
  have fq: "HttpHelper_getQueryParam (render_query [(''hash'', k), (''user'', u)]) ''hash'' [] = Inr (0, k)"
    "HttpHelper_getQueryParam (render_query [(''hash'', k), (''user'', u)]) ''user'' [] = Inr (0, u)"
    by (rule fetch_query; use k(2) assms(5,6) len in simp)+
  have r: "query_string r = Some (render_query [(''hash'', k), (''user'', u)])"
    by (simp add: r_def gateway_request_def path_query_def)
  have "length (prefetch_message u k) \<le> PREFETCH_MSG_SIZE"
    using assms(6) len by (simp add: length_prefetch_message PREFETCH_MSG_SIZE_def)
  note msg = sendMsg_fits [OF sockets this]
  obtain s1 st1 out where f: "cache_block_fetch_request (machine L junk) ?X N (s, (c, b), q) r =
      Inr ((s1, st1, s_close N (push q (padded (prefetch_message u k)))), out)" "whole.right_answer (c, b) k out"
    "whole.coherent s1 st1" "bstore (snd st1) = bstore b"
    using whole.fetch_request_outcome [OF coh r fq msg [of q], of junk eth0] by auto
  have "fst st1 = c" using fetch_request_host [OF f(1) r] by simp
  then obtain b1 where b1: "st1 = (c, b1)" by (cases st1) simp
  let ?w = "(s1, (c, b1), s_close N (push q (padded (prefetch_message u k))))"
  have "path_name ?full = ''/cache_block_fetch''" by (simp add: path_name_def)
  then have "cache_site (machine L junk) ?X N (s, (c, b), q) ?full [] = (?w, cgi_reply out)"
    using f(1) b1 by (simp add: cache_site_def r_def)
  then have send: "web_send J M (machine L junk) (block_gateway B eth0) N (s, (c, b), q) ''POST''
      (''http://'' @ host @ ''/cache_block_fetch'') [(''hash'', PStr k), (''user'', PStr u)] [] = (?w, Some (cgi_reply out))"
    by (intro cache_send) simp_all
  have "\<exists>o'. cgi_reply out = \<lparr>p_status = 200, p_content = v, p_origin = Some o'\<rparr>"
    using f(2) assms(4) cgi_reply_cached cgi_reply_forwarded by (auto simp: whole.right_answer_def)
  then have "getBlockFetch E host (s, (c, b), q) (PStr k) u = Inr (?w, Some v)"
    using send by (auto simp: getBlockFetch_def send_request_def requestOK_def)
  with f(3,4) b1 show ?thesis by (auto simp: whole.coherent_def)
qed

lemma down_blocks_all:
  assumes "plain u" "length u \<le> 100" "machine_ready usable s" "machine_contents store s \<subseteq>\<^sub>m bstore b"
    and "archive sha (bstore b)" "\<forall>k \<in> set ks. bstore b k \<noteq> None"
  shows "\<exists>s' b' q'. down_blocks E host u (s, (c, b), q) i (map PStr ks) =
      Inr ((s', (c, b'), q'),
        Some (zip (map number_name [i..<i + length ks]) (map (\<lambda>k. the (bstore b k)) ks))) \<and>
    machine_ready usable s' \<and> machine_contents store s' \<subseteq>\<^sub>m bstore b' \<and> bstore b' = bstore b"
  using assms(3-6)
proof (induction ks arbitrary: s b q i)
  case (Cons k ks)
  then obtain v where v: "bstore b k = Some v" by auto
  obtain s1 b1 q1 where f: "getBlockFetch E host (s, (c, b), q) (PStr k) u = Inr ((s1, (c, b1), q1), Some v)"
    "machine_ready usable s1" "machine_contents store s1 \<subseteq>\<^sub>m bstore b1" "bstore b1 = bstore b"
    using getBlockFetch_reply [OF Cons.prems(1-3) v assms(1,2)] by blast
  from Cons.IH [OF f(2,3), where i = "Suc i" and q = q1] Cons.prems(3,4) f(4) obtain s2 b2 q2 where
    "down_blocks E host u (s1, (c, b1), q1) (Suc i) (map PStr ks) = Inr ((s2, (c, b2), q2),
      Some (zip (map number_name [Suc i..<Suc i + length ks]) (map (\<lambda>k. the (bstore b k)) ks)))"
    "machine_ready usable s2" "machine_contents store s2 \<subseteq>\<^sub>m bstore b2" "bstore b2 = bstore b"
    by auto
  with f(1) v show ?case by (simp add: upt_rec)
qed auto

lemma known_stored:
  assumes "represents coll (tables c) F" "published F m" "hash_key h" "hash_known coll (tables c) h"
  shows "m h \<noteq> None"
proof -
  obtain u f h' where "h' \<in> set (fst (F u f))" "coll h' h"
    using known_in_files [OF assms(1,4) coll_same] by blast
  then show ?thesis using assms(2,3) coll_digests [of h' h] unfolding published_def by blast
qed

text \<open>The blocks of a file that the server asks for.\<close>

lemma upload_blocks:
  assumes "archive sha (bstore b)" "inj_on sha (ran (bstore b) \<union> snd ` set pieces)"
    and "distinct (map fst pieces)" "\<forall>(p, v) \<in> set pieces. CHR '' '' \<notin> set p \<and> block_ok v"
    and "hs = map (\<lambda>(p, v). sha v) pieces" "set ks \<subseteq> set hs" "plain u" "clean u" "length u < 2 ^ 29"
  shows "\<exists>b'. store_needed E host (map_of pieces) (map_of (rev (zip hs (map fst pieces)))) u (s, (c, b), q)
      (map PStr ks) = Inr ((s, (c, b'), q), True) \<and>
    archive sha (bstore b') \<and> bstore b \<subseteq>\<^sub>m bstore b' \<and>
    (\<forall>(p, v) \<in> set pieces. sha v \<in> set ks \<longrightarrow> bstore b' (sha v) = Some v)"
proof -
  let ?h2f = "map_of (rev (zip hs (map fst pieces)))"
  define blk where "blk k = the (map_of pieces (the (?h2f k)))" for k
  have path: "\<exists>p. ?h2f k = Some p \<and> map_of pieces p = Some (blk k) \<and> sha (blk k) = k \<and> (p, blk k) \<in> set pieces"
    if "k \<in> set hs" for k
    using hash_to_file_right [OF assms(3), of k sha] that assms(5) by (auto simp: blk_def)
  have "\<exists>p. ?h2f k = Some p \<and> map_of pieces p = Some (blk k) \<and> CHR '' '' \<notin> set p \<and>
      sha (blk k) = k \<and> block_ok (blk k) \<and> (bstore b k = None \<or> bstore b k = Some (blk k))"
    if k: "k \<in> set ks" for k
  proof -
    obtain p where p: "?h2f k = Some p" "map_of pieces p = Some (blk k)" "sha (blk k) = k" "(p, blk k) \<in> set pieces"
      using path k assms(6) by blast
    then have "blk k \<in> snd ` set pieces" by force
    from archived_content [OF assms(1,2) this] p(3) have "bstore b k = None \<or> bstore b k = Some (blk k)" by metis
    with p assms(4) show ?thesis by blast
  qed
  then have "\<forall>k \<in> set ks. \<exists>p. ?h2f k = Some p \<and> map_of pieces p = Some (blk k) \<and> CHR '' '' \<notin> set p \<and>
      sha (blk k) = k \<and> block_ok (blk k) \<and> (bstore b k = None \<or> bstore b k = Some (blk k))" by blast
  from store_needed_all [OF assms(7-9,1) this, of s c q] obtain b' where
    b': "store_needed E host (map_of pieces) ?h2f u (s, (c, b), q) (map PStr ks) = Inr ((s, (c, b'), q), True)"
    "archive sha (bstore b')" "bstore b \<subseteq>\<^sub>m bstore b'" "\<forall>k \<in> set ks. bstore b' k = Some (blk k)"
    by blast
  have "bstore b' (sha v) = Some v" if pv: "(p, v) \<in> set pieces" and ks: "sha v \<in> set ks" for p v
  proof -
    obtain p' where "(p', blk (sha v)) \<in> set pieces" "sha (blk (sha v)) = sha v"
      using path ks assms(6) by blast
    then have "blk (sha v) = v" using assms(2) pv by (auto dest!: inj_onD intro: rev_image_eqI)
    with b'(4) ks show ?thesis by metis
  qed
  with b' show ?thesis by blast
qed

text \<open>
  An upload: the version decides, as the specification says, whether the commit is taken; in
  either case the blocks are stored, no block is lost or changed, and every list of the metadata
  server names stored blocks only.
\<close>

lemma upFile_effect:
  assumes F: "represents coll (tables c) F" "published F (bstore b)" "archive sha (bstore b)"
      "size (fileblock (tables c)) < 2 ^ 31"
    and pieces: "pieces \<noteq> []" "distinct (map fst pieces)" "length pieces < 2 ^ 31"
      "\<forall>(p, v) \<in> set pieces. CHR '' '' \<notin> set p \<and> block_ok v"
      "inj_on sha (ran (bstore b) \<union> snd ` set pieces)"
    and names: "name_ok u" "plain u" "sendable u" "name_ok f" "sendable f" "sendable vt"
      "0 \<le> sint (commit_version vt)"
    and hs: "hs = map (\<lambda>(p, v). sha v) pieces"
    and size: "length (dumps (query_fields u f hs)) \<le> STDIN_MAX"
      "length (dumps (query_fields u f hs @ [(''version'', PStr vt)])) \<le> STDIN_MAX"
    and acc: "acc = accepts (fst (F u f)) (snd (F u f)) (commit_version vt)"
    and F': "F' = (if acc then set_file coll u f (stamped hs (unat (commit_version vt))) F else F)"
  shows "\<exists>c' b'. upFile E host u (s, (c, b), q) f vt pieces = Inr ((s, (c', b'), q), acc) \<and>
    represents coll (tables c') F' \<and> published F' (bstore b') \<and> archive sha (bstore b') \<and>
    bstore b \<subseteq>\<^sub>m bstore b' \<and> (\<forall>(p, v) \<in> set pieces. bstore b' (sha v) = Some v)"
proof -
  define missing where "missing = filter (\<lambda>x. \<not> hash_known coll (tables c) x) hs"
  have hk: "\<forall>h \<in> set hs. hash_key h" "hs \<noteq> []" "length hs < 2 ^ 31" using hs digest pieces(1,3) by auto
  have u: "clean u" "length u < 2 ^ 29" using names(1) by (auto simp: name_ok_def)
  obtain c1 v where q1: "getBlockQuery E (s, (c, b), q) f hs u = Inr ((s, (c1, b), q), Some v)"
    "tables c1 = tables c" "if missing = [] then item v ''nb'' = Inr (PBool False)
     else item v ''nb'' = Inr (PBool True) \<and> item v ''needed_blocks'' = Inr (PList (map PStr missing))"
    using getBlockQuery_reply [OF names(3,5) disjI1 [OF hk(2)] hk(1) size(1) F(4), of s b q] unfolding missing_def Let_def by auto
  have "set missing \<subseteq> set hs" by (simp add: missing_def)
  from upload_blocks [OF F(3) pieces(5,2,4) hs this names(2) u, of s c1 q] obtain b' where
    st: "store_needed E host (map_of pieces) (map_of (rev (zip hs (map fst pieces)))) u (s, (c1, b), q)
      (map PStr missing) = Inr ((s, (c1, b'), q), True)"
    "archive sha (bstore b')" "bstore b \<subseteq>\<^sub>m bstore b'"
    "\<forall>(p, v) \<in> set pieces. sha v \<in> set missing \<longrightarrow> bstore b' (sha v) = Some v" by blast
  have stored: "bstore b' (sha v) = Some v" if v: "(p, v) \<in> set pieces" for p v
  proof (cases "sha v \<in> set missing")
    case False
    have "sha v \<in> set hs" "v \<in> snd ` set pieces" using v hs by force+
    then have "bstore b (sha v) = Some v"
      using known_stored [OF F(1,2)] archived_content [OF F(3) pieces(5)] digest False by (simp add: missing_def)
    then show ?thesis using st(3) by (auto simp: map_le_def dom_def)
  qed (use st(4) v in blast)
  obtain c2 where c2: "postFileCommit E (s, (c1, b'), q) f hs u vt = Inr ((s, (c2, b'), q), acc)"
    "represents coll (tables c2) F'"
    using postFileCommit_reply [OF F(1) [folded q1(2)] names(1,4,3,5,6) hk(1,3) names(7) size(2), of s b' q]
    by (auto simp: acc F')
  have h: "map (\<lambda>(path, content). sha256 E content) pieces = hs" using hs by simp
  have "upFile E host u (s, (c, b), q) f vt pieces = Inr ((s, (c2, b'), q), acc)"
    using q1(1,3) st(1) c2(1) unfolding upFile_def Let_def h
    by (cases "missing = []") (simp_all add: is_false_def is_true_def elements_def)
  moreover have "\<forall>h \<in> set hs. hash_key h \<and> bstore b' h \<noteq> None" using hk stored hs by force
  then have "published F' (bstore b')"
    using published_mono [OF F(2) st(3)] by (auto simp: F' intro: published_set)
  ultimately show ?thesis using c2(2) st(2,3) stored by blast
qed

text \<open>A download brings back the blocks of the list, one after the other.\<close>

lemma downFile_reply:
  assumes "archive sha (bstore b)" "\<forall>k \<in> set ks. bstore b k \<noteq> None" "length ks \<le> 99999"
    and "machine_ready usable s" "machine_contents store s \<subseteq>\<^sub>m bstore b" "plain u" "length u \<le> 100"
  shows "\<exists>s' b' q'. downFile E host u (s, (c, b), q) (PList (map PStr ks)) =
      Inr ((s', (c, b'), q'), Some (concat (map (\<lambda>k. the (bstore b k)) ks))) \<and>
    machine_ready usable s' \<and> machine_contents store s' \<subseteq>\<^sub>m bstore b' \<and> bstore b' = bstore b"
proof -
  let ?vs = "map (\<lambda>k. the (bstore b k)) ks"
  obtain s' b' q' where down: "down_blocks E host u (s, (c, b), q) 1 (map PStr ks) =
      Inr ((s', (c, b'), q'), Some (zip (map number_name [1..<1 + length ks]) ?vs))"
    "machine_ready usable s'" "machine_contents store s' \<subseteq>\<^sub>m bstore b'" "bstore b' = bstore b"
    using down_blocks_all [OF assms(6,7,4,5,1,2), of c q 1] by blast
  have "concat (map snd (sort_key fst (zip (map number_name [1..<1 + length ks]) ?vs))) = concat ?vs"
    using joined_in_order [of ?vs] assms(3) by simp
  with down(1) have "downFile E host u (s, (c, b), q) (PList (map PStr ks)) = Inr ((s', (c, b'), q'), Some (concat ?vs))"
    by (simp add: downFile_def elements_def del: upt_Suc)
  with down(2-4) show ?thesis by blast
qed

lemma download:
  assumes "represents coll (tables c) F" "published F (bstore b)" "archive sha (bstore b)"
    and "machine_ready usable s" "machine_contents store s \<subseteq>\<^sub>m bstore b" "fst (F u f) \<noteq> []"
    and "name_ok u" "name_ok f" "plain u" "plain f" "length (fst (F u f)) \<le> 99999"
  shows "\<exists>c' v w'. getBlockList E (s, (c, b), q) f u = Inr ((s, (c', b), q), Some v) \<and>
    item v ''version'' = Inr (PInt (int (snd (F u f)))) \<and>
    item v ''block_list'' = Inr (PList (map PStr (fst (F u f)))) \<and>
    downFile E host u (s, (c', b), q) (PList (map PStr (fst (F u f)))) =
      Inr (w', Some (concat (map (\<lambda>k. the (bstore b k)) (fst (F u f)))))"
proof -
  let ?hs = "fst (F u f)"
  have n: "clean u" "clean f" "length u \<le> 100" "length u + length f < 2 ^ 30"
    using assms(7,8) by (auto simp: name_ok_def)
  have hs: "\<forall>h \<in> set ?hs. hash_key h" "\<forall>h \<in> set ?hs. bstore b h \<noteq> None"
    using assms(2) by (auto simp: published_def)
  obtain c' v where "getBlockList E (s, (c, b), q) f u = Inr ((s, (c', b), q), Some v)"
    "item v ''block_list'' = Inr (PList (map PStr ?hs))" "item v ''version'' = Inr (PInt (int (snd (F u f))))"
    using getBlockList_reply [OF assms(1) hs(1) n(1,2) assms(9,10) n(4), of s b q] assms(6) by auto
  with downFile_reply [OF assms(3) hs(2) assms(11,4,5,9) n(3), of c' q] show ?thesis by blast
qed

text \<open>
  A file without content has no blocks. When the worker for block queries dies of the empty list,
  the client gives up; when it survives, the empty list is committed as the version decides, which
  leaves the server without the file.
\<close>

lemma empty_query_dies:
  assumes "sendable u" "sendable f" "length (dumps (query_fields u f [])) \<le> STDIN_MAX"
    and "\<not> my_unset_null M (fst (connect M c))"
  shows "upFile E host u (s, (c, b), q) f vt [] = Inr ((s, (c, b), q), False)"
proof -
  let ?d = "query_fields u f []" and ?r = "gateway_request ''/block_query'' (dumps (query_fields u f []))"
  obtain m a where m: "posts J j_members ?r m"
    "m ''user_id'' = Some (j_string J u)" "m ''file_name'' = Some (j_string J f)"
    "m ''block_list'' = Some a" "\<not> j_is_null J a" "j_elems a = Some (map (j_string J) [])"
    using posted_fields [OF assms(1,2) _ _ _ assms(3), of "[]" "[]" "''/block_query''"]
    by (auto simp: query_fields_def)
  obtain body root where b: "snd (gstdin STDIN_MAX ?r) \<noteq> 0" "response_body ?r = Inr body"
    "j_parse J body = (True, root)" "j_members root = Some m"
    using m(1) by (auto simp: posts_def)
  note g = meta.json.get_member [OF b(4)]
  have "jsonToString J a [] = Inr []" using meta.json.jsonToString_elems [OF m(6), of "[]"] by simp
  moreover obtain c1 where c1: "connect M c = (c1, True, 0)" using meta.db.connect_up by blast
  ultimately have crash: "block_query_request J M c ?r = Inl Uninitialised_Pointer"
    using b m(2-5) meta.json.not_null_string assms(4) c1
    by (simp add: block_query_request_def g getMissingBlockHashes_def)
  have "split_url (''http://'' @ ''metaserver.raycoll.me'' @ ''/block_query'') = (''metaserver.raycoll.me'', ''/block_query'')"
    by (intro split_url_host) simp_all
  then have "web_send J M (machine L junk) (block_gateway B eth0) N (s, (c, b), q) ''GET''
      ''http://metaserver.raycoll.me/block_query'' [] (dumps ?d) = ((s, (c, b), q), Some (http_reply bad_gateway))"
    using crash by (simp add: web_send_def meta_gateway_def path_name_def worker_paths_def)
  moreover have "\<not> requestOK (http_reply bad_gateway)"
    by (simp add: requestOK_def http_reply_def bad_gateway_def)
  ultimately have "getBlockQuery E (s, (c, b), q) f [] u = Inr ((s, (c, b), q), None)"
    by (simp add: getBlockQuery_def send_request_def query_fields_def)
  then show ?thesis by (simp add: upFile_def)
qed

lemma empty_query_survives:
  assumes "represents coll (tables c) F" "size (fileblock (tables c)) < 2 ^ 31"
    and "name_ok u" "name_ok f" "sendable u" "sendable f" "sendable vt" "0 \<le> sint (commit_version vt)"
    and "length (dumps (query_fields u f [])) \<le> STDIN_MAX"
      "length (dumps (query_fields u f [] @ [(''version'', PStr vt)])) \<le> STDIN_MAX"
    and "my_unset_null M (fst (connect M c))" "acc = accepts (fst (F u f)) (snd (F u f)) (commit_version vt)"
  shows "\<exists>c'. upFile E host u (s, (c, b), q) f vt [] = Inr ((s, (c', b), q), acc) \<and>
    represents coll (tables c') (if acc then set_file coll u f ([], 0) F else F)"
proof -
  obtain c1 v where q1: "getBlockQuery E (s, (c, b), q) f [] u = Inr ((s, (c1, b), q), Some v)"
    "tables c1 = tables c" "item v ''nb'' = Inr (PBool False)"
    using getBlockQuery_reply [OF assms(5,6) disjI2 [OF assms(11)] _ assms(9,2), of s b q] by auto
  have stamp: "stamped [] n = ([], 0)" for n by (simp add: stamped_def)
  obtain c2 where "postFileCommit E (s, (c1, b), q) f [] u vt = Inr ((s, (c2, b), q), acc)"
    "represents coll (tables c2) (if acc then set_file coll u f ([], 0) F else F)"
    using postFileCommit_reply [OF assms(1) [folded q1(2)] assms(3-7) _ _ assms(8,10), of s b q]
    unfolding stamp by (auto simp: assms(12))
  with q1(1,3) show ?thesis by (auto simp: upFile_def is_false_def)
qed

lemma empty_upload:
  assumes "represents coll (tables c) F" "size (fileblock (tables c)) < 2 ^ 31"
    and "name_ok u" "name_ok f" "sendable u" "sendable f" "sendable vt" "0 \<le> sint (commit_version vt)"
    and "length (dumps (query_fields u f [])) \<le> STDIN_MAX"
      "length (dumps (query_fields u f [] @ [(''version'', PStr vt)])) \<le> STDIN_MAX"
    and "taken = (my_unset_null M (fst (connect M c)) \<and> accepts (fst (F u f)) (snd (F u f)) (commit_version vt))"
  shows "\<exists>c'. upFile E host u (s, (c, b), q) f vt [] = Inr ((s, (c', b), q), taken) \<and>
    represents coll (tables c') (if taken then set_file coll u f ([], 0) F else F)"
proof (cases "my_unset_null M (fst (connect M c))")
  case True
  with empty_query_survives [OF assms(1-10) True refl] show ?thesis by (simp add: assms(11))
next
  case False
  with empty_query_dies [OF assms(5,6,9) False] assms(1) show ?thesis by (auto simp: assms(11))
qed

end

end
