(* ===== verification/Sync_Main.thy ===== *)
theory Sync_Main
  imports Sync_Client
begin

text \<open>
  The rest of \<open>client/sync.py\<close>: the record of versions, the decision what to do with a file, the
  two loops over the files of the directory and of the metadata server, and the option
  \<open>--download\<close>. A run is a function of the servers, of the directory and of the clock; an
  exception nobody catches ends it.
\<close>

section \<open>The directory\<close>

text \<open>
  The files of the directory with their content and the time of their last modification, and the
  object in \<open>versions.json\<close>, which gives for a file its version and the time of its last
  synchronisation. Times are local times in seconds, as \<open>ctime\<close> and \<open>strftime\<close> print them. The
  script alone writes \<open>versions.json\<close>, so its entries are well formed.
\<close>

record disk =
  d_files :: "string \<rightharpoonup> string \<times> int"
  d_versions :: "string \<rightharpoonup> int \<times> int"

definition addToVersionFile :: "disk \<Rightarrow> string \<Rightarrow> int \<Rightarrow> int \<Rightarrow> disk" where
  "addToVersionFile d fi version sync_time = d\<lparr>d_versions := (d_versions d)(fi \<mapsto> (version, sync_time))\<rparr>"

definition delete_version :: "disk \<Rightarrow> string \<Rightarrow> disk" where
  "delete_version d fi = d\<lparr>d_versions := (d_versions d)(fi := None)\<rparr>"

text \<open>
  A version the server sent, as a number. The workers send no other kind of value; Python would
  compare values of other kinds by the names of their types, which is outside of the model: the
  run of the model ends there.
\<close>

definition number :: "py \<Rightarrow> int exec" where
  "number v = (case v of PInt i \<Rightarrow> Inr i | PBool b \<Rightarrow> Inr (of_bool b) | _ \<Rightarrow> Inl (Raised ''not a version''))"

text \<open>The command \<open>cat\<close> of \<open>downFile\<close> writes the file, at the time \<open>written\<close>.\<close>

definition download_to ::
  "'w client \<Rightarrow> string \<Rightarrow> string \<Rightarrow> int \<Rightarrow> 'w \<Rightarrow> disk \<Rightarrow> string \<Rightarrow> py \<Rightarrow> ('w \<times> disk \<times> bool) exec" where
  "download_to E host user written w d fi block_list =
     bind_exec (downFile E host user w block_list) (\<lambda>(w, got).
     case got of
       None \<Rightarrow> Inr (w, d, False)
     | Some content \<Rightarrow> Inr (w, d\<lparr>d_files := (d_files d)(fi \<mapsto> (content, written))\<rparr>, True))"

text \<open>
  \<open>split fi content\<close>: the files \<open>split -b 4m\<close> makes of a file, with their paths, in the order of
  their names.
\<close>

definition upload_from ::
  "'w client \<Rightarrow> (string \<Rightarrow> string \<Rightarrow> (string \<times> string) list) \<Rightarrow> string \<Rightarrow> string \<Rightarrow> 'w \<Rightarrow> disk \<Rightarrow> string \<Rightarrow> int \<Rightarrow>
   ('w \<times> bool) exec" where
  "upload_from E split host user w d fi version =
     upFile E host user w fi (show_int version)
       (case d_files d fi of None \<Rightarrow> [] | Some (content, _) \<Rightarrow> split fi content)"

section \<open>One file of the directory\<close>

text \<open>
  The state of the first loop: the servers, the directory and the files that failed. \<open>written\<close>
  and \<open>now\<close> are the times at which this turn writes the file and the record of its version.
\<close>

definition uploaded ::
  "string \<Rightarrow> int \<Rightarrow> int \<Rightarrow> disk \<Rightarrow> string list \<Rightarrow> 'w \<times> bool \<Rightarrow> 'w \<times> disk \<times> string list" where
  "uploaded fi version now d failed = (\<lambda>(w, success).
     if success then (w, addToVersionFile d fi version now, failed) else (w, d, failed @ [fi]))"

definition downloaded ::
  "string \<Rightarrow> py \<Rightarrow> int \<Rightarrow> string list \<Rightarrow> 'w \<times> disk \<times> bool \<Rightarrow> ('w \<times> disk \<times> string list) exec" where
  "downloaded fi version now failed = (\<lambda>(w, d, success).
     if success then bind_exec (number version) (\<lambda>n. Inr (w, addToVersionFile d fi n now, failed))
     else Inr (w, d, failed @ [fi]))"

definition sync_file ::
  "'w client \<Rightarrow> (string \<Rightarrow> string \<Rightarrow> (string \<times> string) list) \<Rightarrow> string \<Rightarrow> string \<Rightarrow> string \<Rightarrow> int \<times> int \<Rightarrow>
   'w \<times> disk \<times> string list \<Rightarrow> ('w \<times> disk \<times> string list) exec" where
  "sync_file E split host user fi = (\<lambda>(written, now) (w, d, failed).
     bind_exec (getBlockList E w fi user) (\<lambda>(w, block_list_json).
     case block_list_json of
       None \<Rightarrow> Inr (w, d, failed)
     | Some v \<Rightarrow>
         bind_exec (item v ''block_list'') (\<lambda>block_list.
         bind_exec (item v ''version'') (\<lambda>version.
         case d_versions d fi of
           None \<Rightarrow>
             if block_list = PNone then
               bind_exec (upload_from E split host user w d fi 0) (\<lambda>r.
               Inr (uploaded fi 0 now d failed r))
             else
               bind_exec (download_to E host user written w d fi block_list) 
                 (downloaded fi version now failed)
         | Some (client_version, saved_mod_time) \<Rightarrow>
             if block_list \<noteq> PNone then
               bind_exec (number version) (\<lambda>meta_version.
               case d_files d fi of
                 None \<Rightarrow> Inl (Raised ''OSError'')
               | Some (_, actual_mod_time) \<Rightarrow>
                   if actual_mod_time \<le> saved_mod_time then
                     if client_version < meta_version then
                       bind_exec (download_to E host user written w d fi block_list) 
                         (downloaded fi version now failed)
                     else Inr (w, d, failed)
                   else if client_version < meta_version then
                     bind_exec (upload_from E split host user w d fi (meta_version + 1)) (\<lambda>r.
                     Inr (uploaded fi (meta_version + 1) now d failed r))
                   else
                     bind_exec (upload_from E split host user w d fi (client_version + 1)) (\<lambda>r.
                     Inr (uploaded fi (client_version + 1) now d failed r)))
             else
               (case d_files d fi of
                  None \<Rightarrow> Inl (Raised ''OSError'')
                | Some _ \<Rightarrow>
                    Inr (w, delete_version (d\<lparr>d_files := (d_files d)(fi := None)\<rparr>) fi, failed))))))"

text \<open>The loop over \<open>files\<close>; the \<open>i\<close>-th file is synchronised at the times \<open>clock i\<close>.\<close>

fun sync_files ::
  "'w client \<Rightarrow> (string \<Rightarrow> string \<Rightarrow> (string \<times> string) list) \<Rightarrow> string \<Rightarrow> string \<Rightarrow> (nat \<Rightarrow> int \<times> int) \<Rightarrow> nat \<Rightarrow>
   string list \<Rightarrow> 'w \<times> disk \<times> string list \<Rightarrow> ('w \<times> disk \<times> string list) exec" where
  "sync_files E split host user clock i [] st = Inr st"
| "sync_files E split host user clock i (fi # files) st =
     bind_exec (if fi = ''sync.py'' \<or> fi = ''versions.json'' then Inr st
                else sync_file E split host user fi (clock i) st) (\<lambda>st.
     sync_files E split host user clock (Suc i) files st)"

section \<open>The files of the metadata server\<close>

definition getFileList :: "'w client \<Rightarrow> 'w \<Rightarrow> string \<Rightarrow> ('w \<times> py option) exec" where
  "getFileList E w user =
     bind_exec (send_request E w ''GET'' ''http://metaserver.raycoll.me/file_list'' [(''user_id'', PStr user)] [])
       (\<lambda>(w, r).
     if \<not> requestOK r then Inr (w, None)
     else bind_exec (reply_json E r) (\<lambda>v. Inr (w, Some v)))"

definition postFileDelete :: "'w client \<Rightarrow> 'w \<Rightarrow> string \<Rightarrow> string \<Rightarrow> ('w \<times> py option) exec" where
  "postFileDelete E w fi user =
     bind_exec (send_request E w ''POST'' ''http://metaserver.raycoll.me/file_delete''
                  [(''file_name'', PStr fi), (''user_id'', PStr user)] []) (\<lambda>(w, r).
     if \<not> requestOK r then Inr (w, None)
     else bind_exec (reply_json E r) (\<lambda>v. Inr (w, Some v)))"

text \<open>\<open>x[0]\<close>.\<close>

definition first_item :: "py \<Rightarrow> py exec" where
  "first_item v =
     (case v of
        PList (x # _) \<Rightarrow> Inr x
      | PList [] \<Rightarrow> Inl (Raised ''IndexError'')
      | PStr (c # _) \<Rightarrow> Inr (PStr [c])
      | PStr [] \<Rightarrow> Inl (Raised ''IndexError'')
      | PDict _ \<Rightarrow> Inl (Raised ''KeyError'')
      | _ \<Rightarrow> Inl (Raised ''TypeError''))"

fun first_items :: "py list \<Rightarrow> py list exec" where
  "first_items [] = Inr []"
| "first_items (v # vs) = bind_exec (first_item v) (\<lambda>x. bind_exec (first_items vs) (\<lambda>xs. Inr (x # xs)))"

text \<open>
  A file the server lists: fetched when it has never been here, deleted from the server when it
  has been here and is gone. Without an answer \<open>None["is_delete"]\<close> is an error.
\<close>

definition check_file ::
  "'w client \<Rightarrow> string \<Rightarrow> string \<Rightarrow> py \<Rightarrow> int \<times> int \<Rightarrow> 'w \<times> disk \<times> string list \<Rightarrow>
   ('w \<times> disk \<times> string list) exec" where
  "check_file E host user file = (\<lambda>(written, now) (w, d, failed).
     case file of
       PStr f \<Rightarrow>
         (if d_files d f \<noteq> None then Inr (w, d, failed)
          else case d_versions d f of
            None \<Rightarrow>
              bind_exec (getBlockList E w f user) (\<lambda>(w, block_list_json).
              case block_list_json of
                None \<Rightarrow> Inr (w, d, failed)
              | Some v \<Rightarrow>
                  bind_exec (item v ''block_list'') (\<lambda>block_list.
                  bind_exec (download_to E host user written w d f block_list) (\<lambda>(w, d, success).
                  if success then
                    bind_exec (item v ''version'') (\<lambda>version.
                    bind_exec (number version) (\<lambda>n. Inr (w, addToVersionFile d f n now, failed)))
                  else Inr (w, d, failed @ [f]))))
          | Some _ \<Rightarrow>
              bind_exec (postFileDelete E w f user) (\<lambda>(w, file_delete_json).
              bind_exec (item (case file_delete_json of None \<Rightarrow> PNone | Some v \<Rightarrow> v) ''is_delete'') (\<lambda>x.
              Inr (if is_false x then (w, d, failed @ [f]) else (w, delete_version d f, failed)))))
     | _ \<Rightarrow> Inl (Raised ''TypeError''))"

fun check_files ::
  "'w client \<Rightarrow> string \<Rightarrow> string \<Rightarrow> (nat \<Rightarrow> int \<times> int) \<Rightarrow> nat \<Rightarrow> py list \<Rightarrow> 'w \<times> disk \<times> string list \<Rightarrow>
   ('w \<times> disk \<times> string list) exec" where
  "check_files E host user clock i [] st = Inr st"
| "check_files E host user clock i (f # file_list) st =
     bind_exec (check_file E host user f (clock i) st) (\<lambda>st.
     check_files E host user clock (Suc i) file_list st)"

definition check_listed ::
  "'w client \<Rightarrow> string \<Rightarrow> string \<Rightarrow> (nat \<Rightarrow> int \<times> int) \<Rightarrow> 'w \<Rightarrow> disk \<Rightarrow> ('w \<times> disk \<times> string list) exec" where
  "check_listed E host user clock w d =
     bind_exec (getFileList E w user) (\<lambda>(w, file_list_json).
     case file_list_json of
       None \<Rightarrow> Inr (w, d, [])
     | Some v \<Rightarrow>
         bind_exec (item v ''files'') (\<lambda>files.
         if files = PNone then Inr (w, d, [])
         else
           bind_exec (elements files) (\<lambda>xs.
           bind_exec (first_items xs) (\<lambda>file_list.
           check_files E host user clock 0 file_list (w, d, [])))))"

text \<open>
  A run without \<open>--download\<close>: the state it leaves behind, the local files that failed and the
  files of the server that failed. \<open>listing\<close>: the names in the directory, as \<open>os.listdir\<close> gives
  them; \<open>clock1\<close>, \<open>clock2\<close>: the times of the two loops.
\<close>

definition sync_main ::
  "'w client \<Rightarrow> (string \<Rightarrow> string \<Rightarrow> (string \<times> string) list) \<Rightarrow> string \<Rightarrow> string \<Rightarrow> (nat \<Rightarrow> int \<times> int) \<Rightarrow>
   (nat \<Rightarrow> int \<times> int) \<Rightarrow> string list \<Rightarrow> 'w \<Rightarrow> disk \<Rightarrow> ('w \<times> disk \<times> string list \<times> string list) exec" where
  "sync_main E split host user clock1 clock2 listing w d =
     (let files = filter (\<lambda>f. d_files d f \<noteq> None) listing in
      bind_exec (sync_files E split host user clock1 0 files (w, d, [])) (\<lambda>(w, d, local_failed).
      bind_exec (check_listed E host user clock2 w d) (\<lambda>(w, d, meta_failed).
      Inr (w, d, local_failed, meta_failed))))"

section \<open>The option --download\<close>

text \<open>
  For a file with a record the branch uses names of the loop further down, which Python does not
  know yet.
\<close>

definition download_option ::
  "'w client \<Rightarrow> string \<Rightarrow> string \<Rightarrow> string \<Rightarrow> int \<times> int \<Rightarrow> 'w \<Rightarrow> disk \<Rightarrow> ('w \<times> disk) exec" where
  "download_option E host user download_file = (\<lambda>(written, now) w d.
     bind_exec (getBlockList E w download_file user) (\<lambda>(w, block_list_json).
     case block_list_json of
       None \<Rightarrow> Inr (w, d)
     | Some v \<Rightarrow>
         bind_exec (item v ''block_list'') (\<lambda>block_list.
         if block_list = PNone then Inr (w, d)
         else
           bind_exec (item v ''version'') (\<lambda>version.
           case d_versions d download_file of
             None \<Rightarrow>
               bind_exec (download_to E host user written w d download_file block_list) (\<lambda>(w, d, success).
               if success then
                 bind_exec (number version) (\<lambda>block_list_version.
                 Inr (w, addToVersionFile d download_file block_list_version now))
               else Inr (w, d))
           | Some (version_saved, saved_mod_time) \<Rightarrow>
               (case d_files d download_file of
                  Some (_, actual_mod_time) \<Rightarrow>
                    if actual_mod_time \<le> saved_mod_time then
                      bind_exec (number version) (\<lambda>block_list_version.
                      if version_saved < block_list_version then Inl (Raised ''NameError'') else Inr (w, d))
                    else Inr (w, d)
                | None \<Rightarrow>
                    bind_exec (download_to E host user written w d download_file block_list) (\<lambda>(w, d, success).
                    if success then Inl (Raised ''NameError'') else Inr (w, d)))))))"

end
