(* ===== verification/Sync_Contract.thy ===== *)
theory Sync_Contract
  imports Client_Contract Sync_Main
begin

text \<open>
  What a turn of the loop over the files does, proved in the locale \<open>site\<close>: the system of
  \<open>synced\<close> and a command \<open>split\<close> that cuts a file into blocks. The decision of the script is a
  plan; each plan changes the directory and the files of the metadata server in one way.
\<close>

section \<open>Plans\<close>

text \<open>What to do with a file of the directory, modified last at \<open>mtime\<close>, from its record and the
  entry of the server.\<close>

datatype plan = Keep | Download | Upload int | Remove_Local

definition sync_plan :: "(int \<times> int) option \<Rightarrow> int \<Rightarrow> string list \<times> nat \<Rightarrow> plan" where
  "sync_plan record mtime entry =
     (case (record, entry) of
        (None, (hs, _)) \<Rightarrow> if hs = [] then Upload 0 else Download
      | (Some (version, synced_at), (hs, newest)) \<Rightarrow>
          if hs = [] then Remove_Local
          else if mtime \<le> synced_at then if version < int newest then Download else Keep
          else Upload (max version (int newest) + 1))"

text \<open>The content of a file on the server, and what the plans do.\<close>

definition server_text :: "(string \<rightharpoonup> string) \<Rightarrow> string list \<Rightarrow> string" where
  "server_text m hs = concat (map (\<lambda>k. the (m k)) hs)"

fun planned_disk :: "plan \<Rightarrow> (string \<rightharpoonup> string) \<Rightarrow> string list \<times> nat \<Rightarrow> string \<Rightarrow> int \<times> int \<Rightarrow> disk \<Rightarrow> disk" where
  "planned_disk Keep m entry f clock d = d"
| "planned_disk Download m (hs, newest) f (written, now) d =
     addToVersionFile (d\<lparr>d_files := (d_files d)(f \<mapsto> (server_text m hs, written))\<rparr>) f (int newest) now"
| "planned_disk (Upload n) m entry f (written, now) d = addToVersionFile d f n now"
| "planned_disk Remove_Local m entry f clock d = delete_version (d\<lparr>d_files := (d_files d)(f := None)\<rparr>) f"

fun planned_files ::
  "(string \<Rightarrow> string \<Rightarrow> bool) \<Rightarrow> plan \<Rightarrow> string \<Rightarrow> string \<Rightarrow> string list \<Rightarrow> files \<Rightarrow> files" where
  "planned_files coll (Upload n) u f hs F = set_file coll u f (stamped hs (nat n)) F"
| "planned_files coll _ u f hs F = F"

section \<open>Names and sizes\<close>

text \<open>A name the shell, the query strings and SQL take as it is.\<close>

definition word_char :: "char \<Rightarrow> bool" where
  "word_char c \<longleftrightarrow> is_digit c \<or> 65 \<le> (of_char c :: nat) \<and> (of_char c :: nat) \<le> 90 \<or>
     97 \<le> (of_char c :: nat) \<and> (of_char c :: nat) \<le> 122 \<or> c \<in> {CHR ''.'', CHR ''_'', CHR ''-''}"

definition word_name :: "string \<Rightarrow> bool" where
  "word_name s \<longleftrightarrow> s \<noteq> [] \<and> hd s \<noteq> CHR ''-'' \<and> length s \<le> 100 \<and> (\<forall>c \<in> set s. word_char c)"

lemma word_char_not: "c \<in> set s \<Longrightarrow> \<not> word_char c \<Longrightarrow> \<not> word_name s"
  by (auto simp: word_name_def)

lemma word_name_facts:
  assumes "word_name s"
  shows "name_ok s" "plain s" "clean s" "length s \<le> 100" "length s < 2 ^ 29"
proof -
  have no: "c \<notin> set s" if "\<not> word_char c" for c using word_char_not that assms by blast
  have "printable c" if "word_char c" for c
    using that by (auto simp: word_char_def is_digit_def printable_def)
  then show "clean s" using assms no [of "CHR 0x27"] no [of "CHR 0x5C"]
    by (auto simp: clean_def word_name_def word_char_def is_digit_def)
  then show "name_ok s" using assms by (simp add: name_ok_def word_name_def)
  show "plain s" using no by (simp add: plain_def word_char_def is_digit_def)
  show "length s \<le> 100" "length s < 2 ^ 29" using assms by (simp_all add: word_name_def)
qed

lemma word_name_number:
  assumes "n < 2 ^ 31"
  shows "word_name (show_nat n)"
proof -
  have d: "is_digit c" if "c \<in> set (show_nat n)" for c using that by (rule show_nat_digits)
  have "n < 10 ^ 10" using assms by simp
  then have "length (show_nat n) \<le> 100" using length_show_nat [of n 10] by simp
  moreover have "hd (show_nat n) \<noteq> CHR ''-''" using d [of "hd (show_nat n)"] by (auto simp: is_digit_def)
  ultimately show ?thesis using d by (simp add: word_name_def word_char_def)
qed

text \<open>
  The bounds under which a version of a file is uploaded: blocks \<open>split\<close> makes and the LevelDB
  servers take, no two of them with one hash, and JSON texts the workers read whole.
\<close>

definition uploadable ::
  "(string \<Rightarrow> string) \<Rightarrow> ((string \<times> py) list \<Rightarrow> string) \<Rightarrow> (string \<rightharpoonup> string) \<Rightarrow> string \<Rightarrow> string \<Rightarrow> int \<Rightarrow>
   (string \<times> string) list \<Rightarrow> bool" where
  "uploadable sha dumps m u f n pieces \<longleftrightarrow>
     0 \<le> n \<and> n < 2 ^ 31 \<and> pieces \<noteq> [] \<and> length pieces \<le> 99999 \<and> (\<forall>(p, v) \<in> set pieces. block_ok v) \<and>
     inj_on sha (ran m \<union> snd ` set pieces) \<and>
     (let fields = query_fields u f (map (\<lambda>(p, v). sha v) pieces)
      in length (dumps fields) \<le> STDIN_MAX \<and>
         length (dumps (fields @ [(''version'', PStr (show_int n))])) \<le> STDIN_MAX)"

text \<open>The servers and a cache machine that hold the files \<open>F\<close>.\<close>

definition holds_files ::
  "(string \<Rightarrow> string \<Rightarrow> bool) \<Rightarrow> ('c \<Rightarrow> db) \<Rightarrow> ('b \<Rightarrow> (string \<rightharpoonup> string)) \<Rightarrow> (string \<Rightarrow> string) \<Rightarrow> files \<Rightarrow> 'c \<times> 'b \<Rightarrow> bool" where
  "holds_files coll tables bstore sha F = (\<lambda>(c, b).
     represents coll (tables c) F \<and> published F (bstore b) \<and> archive sha (bstore b))"

definition in_front ::
  "('d \<Rightarrow> bool) \<Rightarrow> ('d \<Rightarrow> (string \<rightharpoonup> string)) \<Rightarrow> ('b \<Rightarrow> (string \<rightharpoonup> string)) \<Rightarrow> 'd loop \<Rightarrow> 'c \<times> 'b \<Rightarrow> bool" where
  "in_front usable store bstore s = (\<lambda>(c, b).
     machine_ready usable s \<and> machine_contents store s \<subseteq>\<^sub>m bstore b)"

text \<open>The list of a user's files names every one of them once.\<close>

definition lists_names :: "(string \<Rightarrow> string \<Rightarrow> bool) \<Rightarrow> files \<Rightarrow> string \<Rightarrow> string list \<Rightarrow> bool" where
  "lists_names coll F u fs \<longleftrightarrow> distinct fs \<and> (\<forall>f \<in> set fs. word_name f \<and> fst (F u f) \<noteq> []) \<and>
     (\<forall>f. fst (F u f) \<noteq> [] \<longrightarrow> (\<exists>g \<in> set fs. coll f g))"

section \<open>Turns\<close>

locale site = synced +
  fixes split :: "string \<Rightarrow> string \<Rightarrow> (string \<times> string) list"
  assumes split_parts: "word_name f \<Longrightarrow> concat (map snd (split f v)) = v"
    and split_paths: "word_name f \<Longrightarrow> distinct (map fst (split f v)) \<and> (\<forall>p \<in> fst ` set (split f v). CHR '' '' \<notin> set p)"
    and sendable_names: "word_name k \<Longrightarrow> sendable k"
begin

lemma holds_files_tables: "tables c' = tables c \<Longrightarrow> holds_files coll tables bstore sha F (c', b) = holds_files coll tables bstore sha F (c, b)"
  by (simp add: holds_files_def)

lemma in_front_mono:
  "in_front usable store bstore s (c, b) \<Longrightarrow> bstore b \<subseteq>\<^sub>m bstore b' \<Longrightarrow> in_front usable store bstore s (c', b')"
  by (auto simp: in_front_def intro: map_le_trans)

lemma download_effect:
  assumes "holds_files coll tables bstore sha F (c, b)" "in_front usable store bstore s (c, b)"
    and "length (fst (F u f)) \<le> 99999" "word_name u"
  shows "\<exists>s' b' q'. download_to E host u written (s, (c, b), q) d f (PList (map PStr (fst (F u f)))) =
      Inr ((s', (c, b'), q'),
        d\<lparr>d_files := (d_files d)(f \<mapsto> (server_text (bstore b) (fst (F u f)), written))\<rparr>, True) \<and>
    holds_files coll tables bstore sha F (c, b') \<and> in_front usable store bstore s' (c, b') \<and> bstore b' = bstore b"
proof -
  have "\<forall>h \<in> set (fst (F u f)). bstore b h \<noteq> None" "archive sha (bstore b)"
    using assms(1) by (auto simp: holds_files_def published_def)
  from downFile_reply [OF this(2,1) assms(3) _ _ word_name_facts(2,4) [OF assms(4)], of s c q] assms(2)
  obtain s' b' q' where "downFile E host u (s, (c, b), q) (PList (map PStr (fst (F u f)))) =
      Inr ((s', (c, b'), q'), Some (server_text (bstore b) (fst (F u f))))"
    "machine_ready usable s'" "machine_contents store s' \<subseteq>\<^sub>m bstore b'" "bstore b' = bstore b"
    by (auto simp: in_front_def server_text_def)
  with assms(1) show ?thesis by (simp add: download_to_def holds_files_def in_front_def)
qed

lemma version_text:
  assumes "0 \<le> n" "n < 2 ^ 31"
  shows "unat (commit_version (show_int n)) = nat n" "0 \<le> sint (commit_version (show_int n))"
    "word_name (show_int n)"
proof -
  have n: "show_int n = show_nat (nat n)" "nat n < 2 ^ 31"
    using assms by (simp_all add: show_int_def nat_less_iff)
  have "c_str (show_int n) = show_int n" by (rule c_str_id [OF nul_notin_show_int])
  then have v: "commit_version (show_int n) = word_of_int (atoi (show_nat (nat n)))" using n(1) by (simp add: commit_version_def)
  show "unat (commit_version (show_int n)) = nat n" "0 \<le> sint (commit_version (show_int n))"
    unfolding v by (rule limit_word [OF n(2)])+
  show "word_name (show_int n)" using word_name_number [OF n(2)] n(1) by simp
qed

lemma upload_effect:
  assumes "holds_files coll tables bstore sha F (c, b)" "in_front usable store bstore s (c, b)"
    and "size (fileblock (tables c)) < 2 ^ 31" "word_name u" "word_name f" "d_files d f = Some (v, mtime)"
    and "uploadable sha dumps (bstore b) u f n (split f v)"
    and "fst (F u f) = [] \<and> n = 0 \<or> fst (F u f) \<noteq> [] \<and> int (snd (F u f)) < n"
    and "hs = map (\<lambda>(p, v). sha v) (split f v)"
  shows "\<exists>c' b'. upload_from E split host u (s, (c, b), q) d f n = Inr ((s, (c', b'), q), True) \<and>
    holds_files coll tables bstore sha (set_file coll u f (stamped hs (nat n)) F) (c', b') \<and>
    in_front usable store bstore s (c', b') \<and> bstore b \<subseteq>\<^sub>m bstore b' \<and> server_text (bstore b') hs = v"
proof -
  let ?vt = "show_int n"
  have up: "0 \<le> n" "n < 2 ^ 31" "split f v \<noteq> []" "length (split f v) < 2 ^ 31" "\<forall>(p, v) \<in> set (split f v). block_ok v"
    "inj_on sha (ran (bstore b) \<union> snd ` set (split f v))"
    "length (dumps (query_fields u f hs)) \<le> STDIN_MAX"
    "length (dumps (query_fields u f hs @ [(''version'', PStr ?vt)])) \<le> STDIN_MAX"
    using assms(7) by (simp_all add: uploadable_def Let_def assms(9))
  note vt = version_text [OF up(1,2)] and su = sendable_names [OF assms(4)] and sf = sendable_names [OF assms(5)]
  have paths: "distinct (map fst (split f v))" "\<forall>(p, v) \<in> set (split f v). CHR '' '' \<notin> set p \<and> block_ok v"
    using split_paths [OF assms(5), of v] up(5) by (auto 0 3)
  have h: "represents coll (tables c) F" "published F (bstore b)" "archive sha (bstore b)"
    using assms(1) by (simp_all add: holds_files_def)
  have "commit_version ?vt = 0 \<longleftrightarrow> n = 0" using vt(1) up(1) by (metis nat_0_iff antisym unat_eq_zero)
  then have acc: "True = accepts (fst (F u f)) (snd (F u f)) (commit_version ?vt)"
    using assms(8) vt(1) up(1) by (auto simp: accepts_def)
  from upFile_effect [OF h assms(3) up(3) paths(1) up(4) paths(2) up(6) word_name_facts(1,2) [OF assms(4)] su
      word_name_facts(1) [OF assms(5)] sf sendable_names [OF vt(3)] vt(2) assms(9) up(7,8) acc refl, of s q]
  obtain c' b' where u: "upFile E host u (s, (c, b), q) f ?vt (split f v) = Inr ((s, (c', b'), q), True)"
    "represents coll (tables c') (set_file coll u f (stamped hs (nat n)) F)"
    "published (set_file coll u f (stamped hs (nat n)) F) (bstore b')" "archive sha (bstore b')"
    "bstore b \<subseteq>\<^sub>m bstore b'" "\<forall>(p, v) \<in> set (split f v). bstore b' (sha v) = Some v"
    unfolding vt(1) by auto
  have "map (\<lambda>k. the (bstore b' k)) hs = map snd (split f v)" using u(6) by (auto simp: assms(9))
  then have "server_text (bstore b') hs = v" using split_parts [OF assms(5), of v] by (simp add: server_text_def)
  moreover have "upload_from E split host u (s, (c, b), q) d f n = Inr ((s, (c', b'), q), True)"
    using u(1) assms(6) by (simp add: upload_from_def)
  ultimately show ?thesis using u(2-5) in_front_mono [OF assms(2) u(5)] by (auto simp: holds_files_def)
qed

text \<open>The entry of the server for a file.\<close>

lemma listed_entry:
  assumes "holds_files coll tables bstore sha F (c, b)" "in_front usable store bstore s (c, b)"
    and "word_name u" "word_name f"
  obtains c1 w where "getBlockList E (s, (c, b), q) f u = Inr ((s, (c1, b), q), Some w)" "tables c1 = tables c"
    "item w ''block_list'' = Inr (if fst (F u f) = [] then PNone else PList (map PStr (fst (F u f))))"
    "item w ''version'' = Inr (PInt (int (snd (F u f))))"
    "holds_files coll tables bstore sha F (c1, b)" "in_front usable store bstore s (c1, b)"
proof -
  note u = word_name_facts [OF assms(3)] and f = word_name_facts [OF assms(4)]
  have "\<forall>h \<in> set (fst (F u f)). hash_key h" "represents coll (tables c) F"
    using assms(1) by (auto simp: holds_files_def published_def)
  moreover have "length u + length f < 2 ^ 30" using u(5) f(5) by simp
  ultimately obtain c1 w where l: "getBlockList E (s, (c, b), q) f u = Inr ((s, (c1, b), q), Some w)"
    "tables c1 = tables c"
    "item w ''block_list'' = Inr (if fst (F u f) = [] then PNone else PList (map PStr (fst (F u f))))"
    "item w ''version'' = Inr (PInt (int (snd (F u f))))"
    using getBlockList_reply [of c F u f s b q] u(2,3) f(2,3) by blast
  with assms(1,2) that show thesis by (simp add: holds_files_def in_front_def)
qed

text \<open>A turn carries out its plan.\<close>

lemma sync_file_effect:
  assumes "holds_files coll tables bstore sha F (c, b)" "in_front usable store bstore s (c, b)"
    and "word_name u" "word_name f" "d_files d f = Some (v, mtime)"
    and "length (fst (F u f)) \<le> 99999" "p = sync_plan (d_versions d f) mtime (F u f)"
    and "\<forall>n. p = Upload n \<longrightarrow> size (fileblock (tables c)) < 2 ^ 31 \<and> uploadable sha dumps (bstore b) u f n (split f v)"
    and "hs = map (\<lambda>(p, v). sha v) (split f v)"
  shows "\<exists>s' c' b' q'. sync_file E split host u f (written, now) ((s, (c, b), q), d, failed) =
      Inr ((s', (c', b'), q'), planned_disk p (bstore b) (F u f) f (written, now) d, failed) \<and>
    holds_files coll tables bstore sha (planned_files coll p u f hs F) (c', b') \<and>
    in_front usable store bstore s' (c', b') \<and> bstore b \<subseteq>\<^sub>m bstore b' \<and>
    (if \<exists>n. p = Upload n then server_text (bstore b') hs = v else tables c' = tables c \<and> bstore b' = bstore b)"
proof -
  let ?hs = "fst (F u f)" and ?version = "int (snd (F u f))"
  obtain c1 w where l: "getBlockList E (s, (c, b), q) f u = Inr ((s, (c1, b), q), Some w)"
    "tables c1 = tables c" "item w ''block_list'' = Inr (if ?hs = [] then PNone else PList (map PStr ?hs))"
    "item w ''version'' = Inr (PInt ?version)"
    and h: "holds_files coll tables bstore sha F (c1, b)" "in_front usable store bstore s (c1, b)"
    using listed_entry [OF assms(1-4)] by blast
  note turn = sync_file_def l(1,3,4) number_def
  show ?thesis
  proof (cases p)
    case Keep
    then have "sync_file E split host u f (written, now) ((s, (c, b), q), d, failed) = Inr ((s, (c1, b), q), d, failed)"
      using assms(5,7) by (auto simp: turn sync_plan_def split: prod.splits option.splits if_splits)
    with Keep h l(2) show ?thesis by auto
  next
    case Download
    obtain s' b' q' where "download_to E host u written (s, (c1, b), q) d f (PList (map PStr ?hs)) =
        Inr ((s', (c1, b'), q'), d\<lparr>d_files := (d_files d)(f \<mapsto> (server_text (bstore b) ?hs, written))\<rparr>, True)"
      "holds_files coll tables bstore sha F (c1, b')" "in_front usable store bstore s' (c1, b')" "bstore b' = bstore b"
      using download_effect [OF h assms(6,3)] by blast
    moreover have "?hs \<noteq> []" using Download assms(7) by (auto simp: sync_plan_def split: option.splits if_splits prod.splits)
    ultimately show ?thesis using Download assms(5,7) l(2)
      by (cases "F u f") (auto simp: turn sync_plan_def downloaded_def split: option.splits if_splits)
  next
    case (Upload n)
    then have n: "fst (F u f) = [] \<and> n = 0 \<or> fst (F u f) \<noteq> [] \<and> int (snd (F u f)) < n"
      using assms(7) by (auto simp: sync_plan_def split: option.splits if_splits prod.splits)
    have up: "size (fileblock (tables c1)) < 2 ^ 31" "uploadable sha dumps (bstore b) u f n (split f v)"
      using assms(8) Upload l(2) by simp_all
    obtain c' b' where "upload_from E split host u (s, (c1, b), q) d f n = Inr ((s, (c', b'), q), True)"
      "holds_files coll tables bstore sha (set_file coll u f (stamped hs (nat n)) F) (c', b')"
      "in_front usable store bstore s (c', b')" "bstore b \<subseteq>\<^sub>m bstore b'" "server_text (bstore b') hs = v"
      using upload_effect [OF h up(1) assms(3-5) up(2) n assms(9), of q] by blast
    then show ?thesis using Upload assms(5,7)
      by (cases "F u f") (auto simp: turn sync_plan_def uploaded_def max_def split: option.splits if_splits)
  next
    case Remove_Local
    then have "sync_file E split host u f (written, now) ((s, (c, b), q), d, failed) =
        Inr ((s, (c1, b), q), delete_version (d\<lparr>d_files := (d_files d)(f := None)\<rparr>) f, failed)"
      using assms(5,7) by (auto simp: turn sync_plan_def split: prod.splits option.splits if_splits)
    with Remove_Local h l(2) show ?thesis by auto
  qed
qed

text \<open>The list of the files of the user.\<close>

lemma read_answer:
  assumes "answers J j_members outputNormalMessage [k \<mapsto> x] out" "sendable k" "sendable_py sendable (val x)"
  shows "requestOK (http_reply (cgi_result out))"
    and "\<exists>v. reply_json E (http_reply (cgi_result out)) = Inr v \<and> item v k = Inr (val x)"
proof -
  have "sendable k' \<and> sendable_py sendable (val x')" if "[k \<mapsto> x] k' = Some x'" for k' x'
    using that assms(2,3) by (auto split: if_splits)
  note r = read_members [OF assms(1) _ this]
  show "requestOK (http_reply (cgi_result out))" using r(1) by simp
  show "\<exists>v. reply_json E (http_reply (cgi_result out)) = Inr v \<and> item v k = Inr (val x)" using r(2) by auto
qed

lemma val_pair:
  assumes "j_elems p = Some [j_string J f, j_int J i]"
  shows "val p = PList [PStr f, PInt i]"
  using exchange.val_elems [OF assms] by (simp add: exchange.val_string exchange.val_int)

lemma lists_files_names:
  assumes "lists_files coll u d fs vs" "represents coll d F" "\<forall>r \<in># user_blocks coll u d. word_name (fb_file r)"
  shows "lists_names coll F u fs"
proof -
  note coll = meta.db.coll_refl meta.db.coll_sym meta.db.coll_trans
  have rows: "fst (F u f) \<noteq> [] \<longleftrightarrow> file_rows coll u f d \<noteq> {#}" for f
  proof -
    obtain u0 f0 where "holds_file (file_rows coll u f d) u0 f0 (fst (F u f)) (snd (F u f))"
      using represents_file [OF assms(2)] by metis
    then show ?thesis by (metis holds_file_empty holds_file_nil)
  qed
  have "word_name f \<and> fst (F u f) \<noteq> []" if "f \<in> set fs" for f
  proof -
    have "length fs = length vs" using assms(1) by (simp add: lists_files_def)
    from in_set_impl_in_set_zip1 [OF this that] obtain v where "(f, v) \<in> set (zip fs vs)" .
    then obtain r where r: "r \<in># user_blocks coll u d" "fb_file r = f"
      using assms(1) unfolding lists_files_def by blast
    then have "r \<in># file_rows coll u f d" by (auto simp: user_blocks_def file_rows_def same_file_def coll(1))
    then have "file_rows coll u f d \<noteq> {#}" by auto
    with rows assms(3) r show ?thesis by blast
  qed
  moreover have "\<exists>g \<in> set fs. coll f g" if "fst (F u f) \<noteq> []" for f
  proof -
    have "file_rows coll u f d \<noteq> {#}" using rows that by blast
    then obtain r where "r \<in># file_rows coll u f d" by (meson multiset_nonemptyE)
    then have r: "r \<in># user_blocks coll u d" "coll (fb_file r) f"
      by (auto simp: user_blocks_def file_rows_def same_file_def)
    then obtain g where "g \<in> set fs" "coll (fb_file r) g" using assms(1) unfolding lists_files_def by blast
    with r(2) show ?thesis by (meson coll)
  qed
  moreover have "distinct fs"
    using assms(1) coll(1) unfolding lists_files_def by (auto simp: distinct_conv_nth sorted_wrt_iff_nth_less) (metis linorder_neqE_nat)
  ultimately show ?thesis by (simp add: lists_names_def)
qed

lemma getFileList_reply:
  assumes "represents coll (tables c) F" "word_name u" "\<forall>r \<in># user_blocks coll u (tables c). word_name (fb_file r)"
  shows "\<exists>c' v fs xs. getFileList E (s, (c, b), q) u = Inr ((s, (c', b), q), Some v) \<and> tables c' = tables c \<and>
    item v ''files'' = Inr (if fs = [] then PNone else PList xs) \<and> first_items xs = Inr (map PStr fs) \<and>
    lists_names coll F u fs"
proof -
  note u = word_name_facts [OF assms(2)]
  let ?full = "''/file_list?'' @ render_query [(''user_id'', u)]"
  have "asks (gateway_request ?full []) [(''user_id'', u)]"
  proof (rule asks_gateway)
    show "path_query ?full = Some (render_query [(''user_id'', u)])" by (simp add: path_query_def)
    show "plain_params [(''user_id'', u)]" using u(2) by (simp add: plain_params_def plain_def)
    show "short (render_query [(''user_id'', u)])" using u(5) by simp
  qed (simp add: plain_def suffix_def)
  from meta.file_list_answer [OF this u(3) meta.db.represents_fb_inv [OF assms(1)]]
  obtain c' out files ps fs vs where w: "file_list_request J M c (gateway_request ?full []) = Inr (c', out)"
    "tables c' = tables c" "lists_files coll u (tables c) fs vs" "j_elems files = Some ps"
    "map j_elems ps = map (\<lambda>(f, v). Some [j_string J f, j_int J (atoi v)]) (zip fs vs)"
    "fs = [] \<longrightarrow> files = j_null J" "answers J j_members outputNormalMessage [''files'' \<mapsto> files] out"
    by blast
  let ?xs = "map val ps"
  have names: "lists_names coll F u fs" by (rule lists_files_names [OF w(3) assms(1,3)])
  have len: "length fs = length vs" "length ps = length fs"
    using w(3) arg_cong [OF w(5), of length] by (simp_all add: lists_files_def)
  have pair: "?xs ! i = PList [PStr (fs ! i), PInt (atoi (vs ! i))]" if "i < length fs" for i
    using arg_cong [OF w(5), of "\<lambda>l. l ! i"] that len val_pair by simp
  then have xs: "?xs = map (\<lambda>(f, v). PList [PStr f, PInt (atoi v)]) (zip fs vs)"
    using len by (intro nth_equalityI) simp_all
  have first: "first_items (map (\<lambda>(f, v). PList [PStr f, PInt (atoi v)]) (zip fs vs)) = Inr (map PStr fs)"
    using len(1) by (induction fs vs rule: list_induct2) (simp_all add: first_item_def)
  have files: "val files = (if fs = [] then PNone else PList ?xs)"
    using exchange.val_elems [OF w(4)] w(6) exchange.val_null len(2) by (cases "fs = []"; cases "ps = []") simp_all
  have send: "send_request E (s, (c, b), q) ''GET'' ''http://metaserver.raycoll.me/file_list''
      [(''user_id'', PStr u)] [] = Inr ((s, (c', b), q), http_reply (cgi_result out))"
  proof (rule meta_send)
    have "path_name ?full = ''/file_list''" by (simp add: path_name_def)
    then show "map_of worker_paths (path_name ?full) = Some W_file_list" by (simp add: worker_paths_def)
    show "worker_request W_file_list J M c (gateway_request ?full []) = Inr (c', out)" using w(1) by simp
  qed simp_all
  have "word_name ''files''" by (simp add: word_name_def word_char_def)
  moreover have "sendable_py sendable (val files)"
    using names sendable_names len(1) unfolding files xs by (auto simp: lists_names_def dest!: set_zip_leftD)
  ultimately obtain v where "requestOK (http_reply (cgi_result out))"
    "reply_json E (http_reply (cgi_result out)) = Inr v" "item v ''files'' = Inr (val files)"
    using read_answer [OF w(7)] sendable_names by blast
  then have "getFileList E (s, (c, b), q) u = Inr ((s, (c', b), q), Some v)" "item v ''files'' = Inr (val files)"
    using send by (simp_all add: getFileList_def)
  then show ?thesis using w(2) names first files xs
    by (intro exI [of _ c'] exI [of _ v] exI [of _ fs] exI [of _ ?xs]) simp
qed

text \<open>The removal of a file.\<close>

lemma postFileDelete_reply:
  assumes "represents coll (tables c) F" "word_name u" "word_name f"
  shows "\<exists>c' v. postFileDelete E (s, (c, b), q) f u = Inr ((s, (c', b), q), Some v) \<and>
    represents coll (tables c') (set_file coll u f ([], 0) F) \<and>
    size (fileblock (tables c')) \<le> size (fileblock (tables c)) \<and> item v ''is_delete'' = Inr (PBool True)"
proof -
  note u = word_name_facts [OF assms(2)] and f = word_name_facts [OF assms(3)]
  let ?full = "''/file_delete?'' @ render_query [(''file_name'', f), (''user_id'', u)]"
  have "asks (gateway_request ?full []) [(''user_id'', u), (''file_name'', f)]"
  proof (rule asks_gateway)
    show "path_query ?full = Some (render_query [(''file_name'', f), (''user_id'', u)])" by (simp add: path_query_def)
    show "plain_params [(''file_name'', f), (''user_id'', u)]" using u(2) f(2) by (simp add: plain_params_def plain_def)
    show "short (render_query [(''file_name'', f), (''user_id'', u)])" using u(5) f(5) by simp
  qed (simp add: plain_def suffix_def)
  from meta.file_delete_rows [OF this u(3) f(3) assms(1)] obtain c' out where
    w: "file_delete_request J M c (gateway_request ?full []) = Inr (c', out)"
    "represents coll (tables c') (set_file coll u f ([], 0) F)"
    "size (fileblock (tables c')) \<le> size (fileblock (tables c))"
    "answers J j_members outputNormalMessage [''is_delete'' \<mapsto> j_bool J True] out"
    by blast
  have send: "send_request E (s, (c, b), q) ''POST'' ''http://metaserver.raycoll.me/file_delete''
      [(''file_name'', PStr f), (''user_id'', PStr u)] [] = Inr ((s, (c', b), q), http_reply (cgi_result out))"
  proof (rule meta_send)
    have "path_name ?full = ''/file_delete''" by (simp add: path_name_def)
    then show "map_of worker_paths (path_name ?full) = Some W_file_delete" by (simp add: worker_paths_def)
    show "worker_request W_file_delete J M c (gateway_request ?full []) = Inr (c', out)" using w(1) by simp
  qed simp_all
  have "word_name ''is_delete''" by (simp add: word_name_def word_char_def)
  then obtain v where "requestOK (http_reply (cgi_result out))"
    "reply_json E (http_reply (cgi_result out)) = Inr v" "item v ''is_delete'' = Inr (PBool True)"
    using read_answer [OF w(4)] sendable_names exchange.val_bool by fastforce
  with send w(2,3) show ?thesis by (intro exI [of _ c'] exI [of _ v]) (simp add: postFileDelete_def)
qed

text \<open>A file with a record that is gone here is removed from the server.\<close>

lemma check_file_removed:
  assumes "holds_files coll tables bstore sha F (c, b)" "in_front usable store bstore s (c, b)"
    and "word_name u" "word_name f" "d_files d f = None" "d_versions d f \<noteq> None"
  shows "\<exists>c'. check_file E host u (PStr f) clock ((s, (c, b), q), d, failed) =
      Inr ((s, (c', b), q), delete_version d f, failed) \<and>
    holds_files coll tables bstore sha (set_file coll u f ([], 0) F) (c', b) \<and>
    in_front usable store bstore s (c', b) \<and> size (fileblock (tables c')) \<le> size (fileblock (tables c))"
proof -
  have F: "represents coll (tables c) F" "published F (bstore b)" "archive sha (bstore b)"
    using assms(1) by (simp_all add: holds_files_def)
  obtain c' v where p: "postFileDelete E (s, (c, b), q) f u = Inr ((s, (c', b), q), Some v)"
    "represents coll (tables c') (set_file coll u f ([], 0) F)" "item v ''is_delete'' = Inr (PBool True)"
    "size (fileblock (tables c')) \<le> size (fileblock (tables c))"
    using postFileDelete_reply [OF F(1) assms(3,4)] by blast
  have "published (set_file coll u f ([], 0) F) (bstore b)"
    using F(2) by (auto simp: published_def set_file_def)
  with p F(3) assms(2,5,6) show ?thesis
    by (cases clock) (auto simp: check_file_def is_false_def holds_files_def in_front_def)
qed

text \<open>The option \<open>--download\<close> for a file with a record.\<close>

lemma download_option_fails:
  assumes "holds_files coll tables bstore sha F (c, b)" "in_front usable store bstore s (c, b)"
    and "word_name u" "word_name f" "fst (F u f) \<noteq> []" "length (fst (F u f)) \<le> 99999"
    and "d_versions d f = Some (n, t)"
    and "case d_files d f of None \<Rightarrow> True | Some (v, mtime) \<Rightarrow> mtime \<le> t \<and> n < int (snd (F u f))"
  shows "download_option E host u f clock (s, (c, b), q) d = Inl (Raised ''NameError'')"
proof -
  obtain written now where clock: "clock = (written, now)" by (cases clock)
  obtain c1 w where l: "getBlockList E (s, (c, b), q) f u = Inr ((s, (c1, b), q), Some w)" "tables c1 = tables c"
    "item w ''block_list'' = Inr (if fst (F u f) = [] then PNone else PList (map PStr (fst (F u f))))"
    "item w ''version'' = Inr (PInt (int (snd (F u f))))"
    and h: "holds_files coll tables bstore sha F (c1, b)" "in_front usable store bstore s (c1, b)"
    by (rule listed_entry [OF assms(1-4)])
  have bl: "item w ''block_list'' = Inr (PList (map PStr (fst (F u f))))" using l(3) assms(5) by simp
  show ?thesis
  proof (cases "d_files d f")
    case None
    from download_effect [OF h assms(6,3), of written q d] show ?thesis
      using l(1,4) bl assms(7) None by (auto simp: download_option_def clock)
  next
    case (Some x)
    with l(1,4) bl assms(7,8) show ?thesis by (cases x) (simp add: download_option_def clock number_def)
  qed
qed

end

end
