(* ===== verification/Sync_Clients.thy ===== *)
theory Sync_Clients
  imports Sync_Contract
begin

text \<open>
  Several clients of one user, each with its directory and a cache machine of its own: the steps
  they take, and what holds in every state they reach. A record of a client is honest when it is
  not ahead of the server, and when a file that was not touched since is the version it names.
\<close>

section \<open>Records that tell the truth\<close>

definition in_sync :: "(string \<rightharpoonup> string) \<Rightarrow> string list \<times> nat \<Rightarrow> disk \<Rightarrow> string \<Rightarrow> bool" where
  "in_sync m entry d f \<longleftrightarrow>
     (\<exists>mtime synced_at. fst entry \<noteq> [] \<and> mtime \<le> synced_at \<and>
        d_files d f = Some (server_text m (fst entry), mtime) \<and>
        d_versions d f = Some (int (snd entry), synced_at))"

definition honest :: "(string \<rightharpoonup> string) \<Rightarrow> (string \<Rightarrow> string list \<times> nat) \<Rightarrow> disk \<Rightarrow> bool" where
  "honest m G d \<longleftrightarrow>
     (\<forall>f version synced_at. d_versions d f = Some (version, synced_at) \<longrightarrow>
        fst (G f) \<noteq> [] \<and> 0 \<le> version \<and> version \<le> int (snd (G f)) \<and>
        (\<forall>v mtime. d_files d f = Some (v, mtime) \<longrightarrow> mtime \<le> synced_at \<longrightarrow> version = int (snd (G f)) \<longrightarrow>
           v = server_text m (fst (G f))))"

lemma honest_record:
  "honest m G d \<Longrightarrow> d_versions d f = Some (n, t) \<Longrightarrow> fst (G f) \<noteq> [] \<and> 0 \<le> n \<and> n \<le> int (snd (G f))"
  unfolding honest_def by blast

text \<open>No file and no record is from the future.\<close>

definition up_to :: "int \<Rightarrow> disk \<Rightarrow> bool" where
  "up_to now d \<longleftrightarrow> (\<forall>(v, t) \<in> ran (d_files d). t \<le> now) \<and> (\<forall>(n, t) \<in> ran (d_versions d). t \<le> now)"

lemma server_text_mono:
  assumes "m \<subseteq>\<^sub>m m'" "\<forall>k \<in> set hs. m k \<noteq> None"
  shows "server_text m' hs = server_text m hs"
proof -
  have "map (\<lambda>k. the (m' k)) hs = map (\<lambda>k. the (m k)) hs"
    using assms by (auto simp: map_le_def dom_def)
  then show ?thesis by (simp only: server_text_def)
qed

lemma honest_mono:
  assumes "honest m (F u) d" "m \<subseteq>\<^sub>m m'" "published F m"
  shows "honest m' (F u) d"
proof -
  have "server_text m' (fst (F u f)) = server_text m (fst (F u f))" for f
    using server_text_mono [OF assms(2)] assms(3) by (auto simp: published_def)
  with assms(1) show ?thesis by (simp add: honest_def)
qed

text \<open>An upload of a file makes every record of it old.\<close>

lemma honest_upload:
  assumes "honest m (F u) d" "hs \<noteq> []" "coll u u" "\<And>g. coll f g \<Longrightarrow> F u g = F u f"
    and "fst (F u f) \<noteq> [] \<longrightarrow> snd (F u f) < n"
  shows "honest m (set_file coll u f (stamped hs n) F u) d"
  unfolding honest_def
proof (intro allI impI)
  fix g version synced_at
  assume "d_versions d g = Some (version, synced_at)"
  with assms(1) have h: "fst (F u g) \<noteq> []" "0 \<le> version" "version \<le> int (snd (F u g))"
    "\<forall>v mtime. d_files d g = Some (v, mtime) \<longrightarrow> mtime \<le> synced_at \<longrightarrow> version = int (snd (F u g)) \<longrightarrow>
       v = server_text m (fst (F u g))"
    unfolding honest_def by blast+
  show "fst (set_file coll u f (stamped hs n) F u g) \<noteq> [] \<and> 0 \<le> version \<and>
      version \<le> int (snd (set_file coll u f (stamped hs n) F u g)) \<and>
      (\<forall>v mtime. d_files d g = Some (v, mtime) \<longrightarrow> mtime \<le> synced_at \<longrightarrow>
        version = int (snd (set_file coll u f (stamped hs n) F u g)) \<longrightarrow>
        v = server_text m (fst (set_file coll u f (stamped hs n) F u g)))"
  proof (cases "coll f g")
    case True
    then have "set_file coll u f (stamped hs n) F u g = (hs, n)" "version < int n"
      using assms(2-5) h(1,3) by (auto simp: set_file_def stamped_def)
    with assms(2) h(2) show ?thesis by simp
  next
    case False
    then have "set_file coll u f (stamped hs n) F u g = F u g" by (simp add: set_file_def)
    with h show ?thesis by simp
  qed
qed

text \<open>A turn leaves the other records of the client alone.\<close>

lemma honest_turn:
  assumes "honest m G d" "in_sync m (G f) d' f"
    and "\<And>g. g \<noteq> f \<Longrightarrow> d_files d' g = d_files d g \<and> d_versions d' g = d_versions d g"
  shows "honest m G d'"
  unfolding honest_def
proof (intro allI impI)
  fix g version synced_at
  assume "d_versions d' g = Some (version, synced_at)"
  then show "fst (G g) \<noteq> [] \<and> 0 \<le> version \<and> version \<le> int (snd (G g)) \<and>
      (\<forall>v mtime. d_files d' g = Some (v, mtime) \<longrightarrow> mtime \<le> synced_at \<longrightarrow> version = int (snd (G g)) \<longrightarrow>
         v = server_text m (fst (G g)))"
    using assms(1) assms(2) assms(3) [of g] by (cases "g = f") (auto simp: honest_def in_sync_def)
qed

lemma planned_disk_other:
  "g \<noteq> f \<Longrightarrow> d_files (planned_disk p m entry f clock d) g = d_files d g \<and>
     d_versions (planned_disk p m entry f clock d) g = d_versions d g"
  by (induction p m entry f clock d rule: planned_disk.induct)
    (simp_all add: addToVersionFile_def delete_version_def)

lemma honest_remove:
  assumes "honest m G d"
  shows "honest m G (d\<lparr>d_files := (d_files d)(f := None)\<rparr>)"
  using assms unfolding honest_def by auto

lemma up_to_remove: "up_to now d \<Longrightarrow> up_to now (d\<lparr>d_files := (d_files d)(f := None)\<rparr>)"
  by (auto simp: up_to_def ran_def split: if_splits)

lemma honest_edit:
  assumes "honest m G d" "up_to now d" "now < t"
  shows "honest m G (d\<lparr>d_files := (d_files d)(f \<mapsto> (v, t))\<rparr>)"
  unfolding honest_def
proof (intro allI impI)
  fix g version synced_at
  assume "d_versions (d\<lparr>d_files := (d_files d)(f \<mapsto> (v, t))\<rparr>) g = Some (version, synced_at)"
  then have g: "d_versions d g = Some (version, synced_at)" by simp
  then have "synced_at < t" using assms(2,3) by (fastforce simp: up_to_def ran_def)
  with g assms(1) show "fst (G g) \<noteq> [] \<and> 0 \<le> version \<and> version \<le> int (snd (G g)) \<and>
      (\<forall>v' mtime. d_files (d\<lparr>d_files := (d_files d)(f \<mapsto> (v, t))\<rparr>) g = Some (v', mtime) \<longrightarrow> mtime \<le> synced_at \<longrightarrow>
         version = int (snd (G g)) \<longrightarrow> v' = server_text m (fst (G g)))"
    unfolding honest_def by (cases "g = f") auto
qed

lemma up_to_mono: "up_to now d \<Longrightarrow> now \<le> t \<Longrightarrow> up_to t d"
  unfolding up_to_def by fastforce

lemma ran_upd: "ran (m(k \<mapsto> x)) \<subseteq> insert x (ran m)" "ran (m(k := None)) \<subseteq> ran m"
  by (auto simp: ran_def split: if_splits)

lemma up_to_turn:
  assumes "up_to now0 d" "now0 \<le> written" "written \<le> now"
  shows "up_to now (planned_disk p m entry f (written, now) d)"
proof -
  have d: "up_to now d" using up_to_mono [OF assms(1)] assms(2,3) by simp
  then show ?thesis using assms(3)
    by (induction p m entry f "(written, now)" d rule: planned_disk.induct)
      (auto simp: up_to_def addToVersionFile_def delete_version_def dest!: subsetD [OF ran_upd(1)] subsetD [OF ran_upd(2)])
qed

section \<open>After a turn the file is the same on both sides\<close>

lemma plan_in_sync:
  assumes "honest m (F u) d" "written \<le> now" "published F m" "m \<subseteq>\<^sub>m m'"
    and "d_files d f = Some (v, mtime)" "p = sync_plan (d_versions d f) mtime (F u f)"
    and "\<forall>n. p = Upload n \<longrightarrow> server_text m' hs = v \<and> hs \<noteq> [] \<and> mtime \<le> now \<and> coll u u \<and> coll f f"
  shows "in_sync m' (planned_files coll p u f hs F u f) (planned_disk p m (F u f) f (written, now) d) f"
proof -
  have same: "server_text m' (fst (F u f)) = server_text m (fst (F u f))"
    using server_text_mono [OF assms(4)] assms(3) by (auto simp: published_def)
  show ?thesis
  proof (cases p)
    case Keep
    then obtain version synced_at where r: "d_versions d f = Some (version, synced_at)" "mtime \<le> synced_at"
      "\<not> version < int (snd (F u f))"
      using assms(6) by (auto simp: sync_plan_def split: option.splits if_splits prod.splits)
    with assms(1,5) have "fst (F u f) \<noteq> []" "version = int (snd (F u f))" "v = server_text m (fst (F u f))"
      unfolding honest_def by force+
    with Keep r assms(5) same show ?thesis by (simp add: in_sync_def)
  next
    case Download
    then have "fst (F u f) \<noteq> []"
      using assms(6) by (auto simp: sync_plan_def split: option.splits if_splits prod.splits)
    with Download assms(2) same show ?thesis
      by (cases "F u f") (simp add: in_sync_def addToVersionFile_def)
  next
    case (Upload n)
    then have "0 \<le> n"
      using assms(6) by (auto simp: sync_plan_def max_def split: option.splits if_splits prod.splits)
    with Upload assms(5,7) show ?thesis
      by (auto simp: in_sync_def addToVersionFile_def set_file_def stamped_def)
  next
    case Remove_Local
    then have "fst (F u f) = []" "d_versions d f \<noteq> None"
      using assms(6) by (auto simp: sync_plan_def split: option.splits if_splits prod.splits)
    with assms(1) show ?thesis by (auto simp: honest_def)
  qed
qed

section \<open>The steps of the clients\<close>

text \<open>
  The bounds for a turn with the file \<open>f\<close>: its list is no longer than five digits can number,
  and for a version that has to go up the tables have room and it is \<open>uploadable\<close>.
\<close>

definition within_bounds ::
  "(string \<Rightarrow> string \<Rightarrow> bool) \<Rightarrow> ('c \<Rightarrow> db) \<Rightarrow> ('b \<Rightarrow> (string \<rightharpoonup> string)) \<Rightarrow> (string \<Rightarrow> string) \<Rightarrow>
   ((string \<times> py) list \<Rightarrow> string) \<Rightarrow> (string \<Rightarrow> string \<Rightarrow> (string \<times> string) list) \<Rightarrow> string \<Rightarrow> 'c \<times> 'b \<Rightarrow> disk \<Rightarrow>
   string \<Rightarrow> bool" where
  "within_bounds coll tables bstore sha dumps split u = (\<lambda>(c, b) d f.
     word_name f \<and> (\<forall>F. represents coll (tables c) F \<longrightarrow> length (fst (F u f)) \<le> 99999 \<and>
        (\<forall>v mtime n. d_files d f = Some (v, mtime) \<longrightarrow> sync_plan (d_versions d f) mtime (F u f) = Upload n \<longrightarrow>
           size (fileblock (tables c)) < 2 ^ 31 \<and> uploadable sha dumps (bstore b) u f n (split f v))))"

text \<open>
  A state: the time, the servers, and for every client its cache machine, the sockets there and
  its directory. A step takes time; an edit comes at least a second after whatever was before.
\<close>

type_synonym ('s, 'c, 'b, 'n) clients = "int \<times> ('c \<times> 'b) \<times> (nat \<Rightarrow> 's \<times> 'n \<times> disk)"

inductive client_step ::
  "('s \<times> ('c \<times> 'b) \<times> 'n) client \<Rightarrow> (string \<Rightarrow> string \<Rightarrow> (string \<times> string) list) \<Rightarrow> (nat \<Rightarrow> string) \<Rightarrow> string \<Rightarrow>
   ('c \<times> 'b \<Rightarrow> disk \<Rightarrow> string \<Rightarrow> bool) \<Rightarrow> ('s, 'c, 'b, 'n) clients \<Rightarrow> ('s, 'c, 'b, 'n) clients \<Rightarrow> bool"
  for E split host user fits where
  edit: "desk i = (s, q, d) \<Longrightarrow> now < t \<Longrightarrow>
    client_step E split host user fits (now, cb, desk)
      (t, cb, desk(i := (s, q, d\<lparr>d_files := (d_files d)(f \<mapsto> (v, t))\<rparr>)))"
| remove: "desk i = (s, q, d) \<Longrightarrow> now \<le> t \<Longrightarrow>
    client_step E split host user fits (now, cb, desk)
      (t, cb, desk(i := (s, q, d\<lparr>d_files := (d_files d)(f := None)\<rparr>)))"
| turn: "desk i = (s, q, d) \<Longrightarrow> d_files d f \<noteq> None \<Longrightarrow> fits cb d f \<Longrightarrow> now \<le> t1 \<Longrightarrow> t1 \<le> t2 \<Longrightarrow>
    sync_file E split (host i) user f (t1, t2) ((s, cb, q), d, []) = Inr ((s', cb', q'), d', failed) \<Longrightarrow>
    client_step E split host user fits (now, cb, desk) (t2, cb', desk(i := (s', q', d')))"
| fetch: "desk i = (s, q, d) \<Longrightarrow> d_files d f = None \<Longrightarrow> d_versions d f = None \<Longrightarrow> fits cb d f \<Longrightarrow> now \<le> t1 \<Longrightarrow> t1 \<le> t2 \<Longrightarrow>
    check_file E (host i) user (PStr f) (t1, t2) ((s, cb, q), d, []) = Inr ((s', cb', q'), d', failed) \<Longrightarrow>
    client_step E split host user fits (now, cb, desk) (t2, cb', desk(i := (s', q', d')))"

definition all_honest ::
  "(string \<Rightarrow> string \<Rightarrow> bool) \<Rightarrow> ('c \<Rightarrow> db) \<Rightarrow> ('b \<Rightarrow> (string \<rightharpoonup> string)) \<Rightarrow> ('d \<Rightarrow> bool) \<Rightarrow> ('d \<Rightarrow> (string \<rightharpoonup> string)) \<Rightarrow>
   (string \<Rightarrow> string) \<Rightarrow> string \<Rightarrow> files \<Rightarrow> ('d loop, 'c, 'b, 'n) clients \<Rightarrow> bool" where
  "all_honest coll tables bstore usable store sha u F = (\<lambda>(now, cb, desk).
     holds_files coll tables bstore sha F cb \<and>
     (\<forall>i. case desk i of (s, q, d) \<Rightarrow>
        in_front usable store bstore s cb \<and> honest (bstore (snd cb)) (F u) d \<and> up_to now d))"

lemma all_honestD:
  assumes "all_honest coll tables bstore usable store sha u F (now, (c, b), desk)" "desk i = (s, q, d)"
  shows "holds_files coll tables bstore sha F (c, b)" "in_front usable store bstore s (c, b)"
    "honest (bstore b) (F u) d" "up_to now d"
  using assms unfolding all_honest_def by (auto dest!: spec [of _ i])

text \<open>The tables determine the files, up to the collation.\<close>

lemma holds_file_unique:
  assumes "holds_file R u f hs v" "holds_file R u' f' hs' v'"
  shows "hs = hs'" "hs \<noteq> [] \<Longrightarrow> v = v'"
proof -
  obtain rs where rs: "mset rs = R" using ex_mset by blast
  let ?xs = "sort_key fb_num rs"
  have xs: "mset ?xs = R" "sorted (map fb_num ?xs)" using rs by simp_all
  note h = holds_file_hashes [OF assms(1) xs] holds_file_hashes [OF assms(2) xs]
  from h(1,3) show "hs = hs'" by simp
  with h(2,4) show "v = v'" if "hs \<noteq> []" using that by (cases hs) auto
qed

lemma represents_unique:
  assumes "represents coll d F" "represents coll d G"
  shows "F = G"
proof (intro ext)
  fix u f
  obtain u1 f1 where 1: "holds_file (file_rows coll u f d) u1 f1 (fst (F u f)) (snd (F u f))"
    "fst (F u f) = [] \<Longrightarrow> snd (F u f) = 0" using represents_file [OF assms(1)] by metis
  obtain u2 f2 where 2: "holds_file (file_rows coll u f d) u2 f2 (fst (G u f)) (snd (G u f))"
    "fst (G u f) = [] \<Longrightarrow> snd (G u f) = 0" using represents_file [OF assms(2)] by metis
  from holds_file_unique [OF 1(1) 2(1)] 1(2) 2(2) show "F u f = G u f" by (metis prod_eqI)
qed

context site
begin

lemma same_name_same_file:
  assumes "represents coll (tables c) F" "coll f g"
  shows "F u g = F u f"
proof -
  have rows: "file_rows coll u g (tables c) = file_rows coll u f (tables c)"
    using meta.db.file_rows_same [of u u f g] coll_same assms(2) by simp
  obtain u1 f1 where 1: "holds_file (file_rows coll u f (tables c)) u1 f1 (fst (F u f)) (snd (F u f))"
    "fst (F u f) = [] \<Longrightarrow> snd (F u f) = 0" using represents_file [OF assms(1)] by metis
  obtain u2 f2 where 2: "holds_file (file_rows coll u f (tables c)) u2 f2 (fst (F u g)) (snd (F u g))"
    "fst (F u g) = [] \<Longrightarrow> snd (F u g) = 0" using represents_file [OF assms(1)] rows by metis
  from holds_file_unique [OF 1(1) 2(1)] 1(2) 2(2) show ?thesis by (metis prod_eqI)
qed

lemma honest_planned:
  assumes "holds_files coll tables bstore sha F (c, b)" "bstore b \<subseteq>\<^sub>m m" "p = sync_plan record mtime (F u f)"
    and "\<forall>n. p = Upload n \<longrightarrow> hs \<noteq> []" "honest (bstore b) (F u) d"
  shows "honest m (planned_files coll p u f hs F u) d"
proof -
  have F: "represents coll (tables c) F" "published F (bstore b)" using assms(1) by (simp_all add: holds_files_def)
  have h: "honest m (F u) d" by (rule honest_mono [OF assms(5,2) F(2)])
  show ?thesis
  proof (cases p)
    case (Upload n)
    then have "fst (F u f) \<noteq> [] \<longrightarrow> snd (F u f) < nat n"
      using assms(3) by (auto simp: sync_plan_def split: option.splits if_splits prod.splits)
    then have "honest m (set_file coll u f (stamped hs (nat n)) F u) d"
      using Upload assms(4) coll_same same_name_same_file [OF F(1)] h
      by (intro honest_upload [where F = F]) simp_all
    with Upload show ?thesis by simp
  qed (use h in simp_all)
qed

text \<open>A turn within the bounds: it succeeds, and afterwards the file is in sync.\<close>

lemma turn_good:
  assumes "holds_files coll tables bstore sha F (c, b)" "in_front usable store bstore s (c, b)"
    and "honest (bstore b) (F u) d" "up_to now d" "now \<le> t1" "t1 \<le> t2" "word_name u"
    and "within_bounds coll tables bstore sha dumps split u (c, b) d f" "d_files d f = Some (v, mtime)"
    and "p = sync_plan (d_versions d f) mtime (F u f)" "F' = planned_files coll p u f (map (\<lambda>(p, v). sha v) (split f v)) F"
    and "d' = planned_disk p (bstore b) (F u f) f (t1, t2) d"
  shows "\<exists>s' c' b' q'. sync_file E split host u f (t1, t2) ((s, (c, b), q), d, failed) =
      Inr ((s', (c', b'), q'), d', failed) \<and>
    holds_files coll tables bstore sha F' (c', b') \<and> in_front usable store bstore s' (c', b') \<and>
    bstore b \<subseteq>\<^sub>m bstore b' \<and> in_sync (bstore b') (F' u f) d' f \<and> honest (bstore b') (F' u) d' \<and> up_to t2 d' \<and>
    (\<forall>dd. honest (bstore b) (F u) dd \<longrightarrow> honest (bstore b') (F' u) dd)"
proof -
  let ?hs = "map (\<lambda>(p, v). sha v) (split f v)"
  have F: "represents coll (tables c) F" "published F (bstore b)" using assms(1) by (simp_all add: holds_files_def)
  have w: "word_name f" "length (fst (F u f)) \<le> 99999"
    "\<forall>n. p = Upload n \<longrightarrow> size (fileblock (tables c)) < 2 ^ 31 \<and> uploadable sha dumps (bstore b) u f n (split f v)"
    using assms(8,9) F(1) by (auto simp: within_bounds_def assms(10))
  have some: "\<forall>n. p = Upload n \<longrightarrow> ?hs \<noteq> []" using w(3) by (simp add: uploadable_def)
  obtain s' c' b' q' where t: "sync_file E split host u f (t1, t2) ((s, (c, b), q), d, failed) =
      Inr ((s', (c', b'), q'), d', failed)"
    "holds_files coll tables bstore sha F' (c', b')" "in_front usable store bstore s' (c', b')"
    "bstore b \<subseteq>\<^sub>m bstore b'" "(\<exists>n. p = Upload n) \<longrightarrow> server_text (bstore b') ?hs = v"
    unfolding assms(11,12)
    using sync_file_effect [OF assms(1,2,7) w(1) assms(9) w(2) assms(10) w(3) refl, of t1 t2 q failed]
    by (auto split: if_splits)
  have old: "mtime \<le> t2" using assms(4-6,9) by (fastforce simp: up_to_def ran_def)
  have sync: "in_sync (bstore b') (F' u f) d' f"
    unfolding assms(11,12)
    by (rule plan_in_sync [OF assms(3,6) F(2) t(4) assms(9,10)]) (use t(5) some old coll_same in blast)
  have others: "\<forall>dd. honest (bstore b) (F u) dd \<longrightarrow> honest (bstore b') (F' u) dd"
    unfolding assms(11) using honest_planned [OF assms(1) t(4) assms(10) some] by blast
  have "honest (bstore b') (F' u) d'"
    using honest_turn [OF others [rule_format, OF assms(3)] sync] planned_disk_other unfolding assms(12) by blast
  moreover have "up_to t2 d'" unfolding assms(12) by (rule up_to_turn [OF assms(4-6)])
  ultimately show ?thesis using t(1-4) sync others by blast
qed

text \<open>A file of the server that has never been here is fetched.\<close>

lemma check_file_fetch:
  assumes "holds_files coll tables bstore sha F (c, b)" "in_front usable store bstore s (c, b)"
    and "word_name u" "word_name f" "length (fst (F u f)) \<le> 99999" "d_files d f = None" "d_versions d f = None"
  shows "if fst (F u f) = []
    then check_file E host u (PStr f) (t1, t2) ((s, (c, b), q), d, failed) = Inl (Raised ''TypeError'')
    else \<exists>s' c' b' q'. check_file E host u (PStr f) (t1, t2) ((s, (c, b), q), d, failed) =
        Inr ((s', (c', b'), q'), planned_disk Download (bstore b) (F u f) f (t1, t2) d, failed) \<and>
      tables c' = tables c \<and> holds_files coll tables bstore sha F (c', b') \<and>
      in_front usable store bstore s' (c', b') \<and> bstore b' = bstore b"
proof -
  let ?hs = "fst (F u f)" and ?version = "int (snd (F u f))"
  obtain c1 w where l: "getBlockList E (s, (c, b), q) f u = Inr ((s, (c1, b), q), Some w)"
    "tables c1 = tables c" "item w ''block_list'' = Inr (if ?hs = [] then PNone else PList (map PStr ?hs))"
    "item w ''version'' = Inr (PInt ?version)"
    and h: "holds_files coll tables bstore sha F (c1, b)" "in_front usable store bstore s (c1, b)"
    using listed_entry [OF assms(1-4)] by blast
  show ?thesis
  proof (cases "?hs = []")
    case True
    then show ?thesis using l assms(6,7)
      by (simp add: check_file_def download_to_def downFile_def elements_def)
  next
    case False
    obtain s' b' q' where "download_to E host u t1 (s, (c1, b), q) d f (PList (map PStr ?hs)) =
        Inr ((s', (c1, b'), q'), d\<lparr>d_files := (d_files d)(f \<mapsto> (server_text (bstore b) ?hs, t1))\<rparr>, True)"
      "holds_files coll tables bstore sha F (c1, b')" "in_front usable store bstore s' (c1, b')" "bstore b' = bstore b"
      using download_effect [OF h assms(5,3)] by blast
    with False l assms(6,7) show ?thesis by (cases "F u f") (simp add: check_file_def number_def)
  qed
qed

text \<open>The loop over the directory, when nothing was edited here: what is old is fetched.\<close>

lemma pull_files:
  assumes "holds_files coll tables bstore sha F (c, b)" "in_front usable store bstore s (c, b)" "word_name u"
    and "honest (bstore b) (F u) d" "distinct files" "\<And>i. fst (clock i) \<le> snd (clock i)"
    and "\<forall>f \<in> set files - {''sync.py'', ''versions.json''}. word_name f \<and> fst (F u f) \<noteq> [] \<and>
      length (fst (F u f)) \<le> 99999 \<and> (\<exists>v mtime. d_files d f = Some (v, mtime) \<and>
        (\<forall>n t. d_versions d f = Some (n, t) \<longrightarrow> mtime \<le> t))"
  shows "\<exists>s' c' b' q' d'. sync_files E split host u clock i files ((s, (c, b), q), d, failed) =
      Inr ((s', (c', b'), q'), d', failed) \<and>
    holds_files coll tables bstore sha F (c', b') \<and> in_front usable store bstore s' (c', b') \<and>
    tables c' = tables c \<and> bstore b' = bstore b \<and>
    (\<forall>f \<in> set files - {''sync.py'', ''versions.json''}. in_sync (bstore b) (F u f) d' f) \<and>
    (\<forall>g. g \<notin> set files - {''sync.py'', ''versions.json''} \<longrightarrow>
       d_files d' g = d_files d g \<and> d_versions d' g = d_versions d g)"
  using assms(1,2,4-7)
proof (induction files arbitrary: s c b q d i)
  case (Cons f files)
  show ?case
  proof (cases "f \<in> {''sync.py'', ''versions.json''}")
    case True
    then have "set (f # files) - {''sync.py'', ''versions.json''} = set files - {''sync.py'', ''versions.json''}" by auto
    with True Cons.IH [OF Cons.prems(1-3) _ Cons.prems(5), of "Suc i" q] Cons.prems(4,6) show ?thesis by auto
  next
    case False
    obtain t1 t2 where clock: "clock i = (t1, t2)" "t1 \<le> t2" using Cons.prems(5) [of i] by (cases "clock i") simp
    have "f \<in> set (f # files) - {''sync.py'', ''versions.json''}" using False by simp
    then obtain v mtime where f: "word_name f" "fst (F u f) \<noteq> []" "length (fst (F u f)) \<le> 99999"
      "d_files d f = Some (v, mtime)" "\<forall>n t. d_versions d f = Some (n, t) \<longrightarrow> mtime \<le> t"
      using Cons.prems(6) by blast
    define p where "p = sync_plan (d_versions d f) mtime (F u f)"
    have p: "p = Keep \<or> p = Download"
      using f(2,5) by (auto simp: p_def sync_plan_def split: option.splits prod.splits)
    then have up: "\<forall>n. p = Upload n \<longrightarrow> size (fileblock (tables c)) < 2 ^ 31 \<and> uploadable sha dumps (bstore b) u f n (split f v)"
      and F: "planned_files coll p u f hs F = F" for hs by auto
    let ?d = "planned_disk p (bstore b) (F u f) f (t1, t2) d"
    obtain s1 c1 b1 q1 where t: "sync_file E split host u f (clock i) ((s, (c, b), q), d, failed) =
        Inr ((s1, (c1, b1), q1), ?d, failed)"
      "holds_files coll tables bstore sha F (c1, b1)" "in_front usable store bstore s1 (c1, b1)"
      "tables c1 = tables c" "bstore b1 = bstore b"
      using sync_file_effect [OF Cons.prems(1,2) assms(3) f(1,4,3) p_def up refl, of t1 t2 q failed] p clock(1) F
      by auto
    have "published F (bstore b)" using Cons.prems(1) by (simp add: holds_files_def)
    from plan_in_sync [OF Cons.prems(3) clock(2) this _ f(4) p_def, of "bstore b" "[]"]
    have sync: "in_sync (bstore b) (F u f) ?d f" using p F by auto
    have "honest (bstore b) (F u) ?d" using honest_turn [OF Cons.prems(3) sync] planned_disk_other by blast
    moreover have "\<forall>g \<in> set files - {''sync.py'', ''versions.json''}. word_name g \<and> fst (F u g) \<noteq> [] \<and>
        length (fst (F u g)) \<le> 99999 \<and> (\<exists>v mtime. d_files ?d g = Some (v, mtime) \<and>
          (\<forall>n t. d_versions ?d g = Some (n, t) \<longrightarrow> mtime \<le> t))"
    proof
      fix g
      assume g: "g \<in> set files - {''sync.py'', ''versions.json''}"
      then have "g \<noteq> f" "g \<in> set (f # files) - {''sync.py'', ''versions.json''}" using Cons.prems(4) by auto
      with planned_disk_other [of g f p "bstore b" "F u f" "(t1, t2)" d] Cons.prems(6)
      show "word_name g \<and> fst (F u g) \<noteq> [] \<and> length (fst (F u g)) \<le> 99999 \<and>
        (\<exists>v mtime. d_files ?d g = Some (v, mtime) \<and> (\<forall>n t. d_versions ?d g = Some (n, t) \<longrightarrow> mtime \<le> t))"
        by (simp only: if_True simp_thms)
    qed
    ultimately obtain s2 c2 b2 q2 d2 where r: "sync_files E split host u clock (Suc i) files ((s1, (c1, b1), q1), ?d, failed) =
        Inr ((s2, (c2, b2), q2), d2, failed)"
      "holds_files coll tables bstore sha F (c2, b2)" "in_front usable store bstore s2 (c2, b2)"
      "tables c2 = tables c1" "bstore b2 = bstore b"
      "\<forall>f \<in> set files - {''sync.py'', ''versions.json''}. in_sync (bstore b) (F u f) d2 f"
      "\<forall>g. g \<notin> set files - {''sync.py'', ''versions.json''} \<longrightarrow> d_files d2 g = d_files ?d g \<and> d_versions d2 g = d_versions ?d g"
      using Cons.IH [OF t(2,3) _ _ Cons.prems(5), of ?d "Suc i" q1] Cons.prems(4) t(5) by auto
    have "f \<notin> set files" using Cons.prems(4) by simp
    then have "in_sync (bstore b) (F u f) d2 f" using sync r(7) by (simp add: in_sync_def)
    moreover have "d_files d2 g = d_files d g \<and> d_versions d2 g = d_versions d g"
      if "g \<notin> set (f # files) - {''sync.py'', ''versions.json''}" for g
    proof -
      have "g \<noteq> f" "g \<notin> set files - {''sync.py'', ''versions.json''}" using that False by auto
      with r(7) planned_disk_other [of g f p "bstore b" "F u f" "(t1, t2)" d] show ?thesis by metis
    qed
    ultimately have "\<forall>g \<in> set (f # files) - {''sync.py'', ''versions.json''}. in_sync (bstore b) (F u g) d2 g"
      "\<forall>g. g \<notin> set (f # files) - {''sync.py'', ''versions.json''} \<longrightarrow>
         d_files d2 g = d_files d g \<and> d_versions d2 g = d_versions d g"
      using r(6) by auto
    moreover have "sync_files E split host u clock i (f # files) ((s, (c, b), q), d, failed) =
        Inr ((s2, (c2, b2), q2), d2, failed)"
      using False t(1) r(1) by simp
    moreover have "tables c2 = tables c" "bstore b2 = bstore b" using r(4,5) t(4) by simp_all
    ultimately show ?thesis using r(2,3) by blast
  qed
qed auto

text \<open>The loop over the files of the server, when none was deleted here.\<close>

lemma pull_listed:
  assumes "holds_files coll tables bstore sha F (c, b)" "in_front usable store bstore s (c, b)" "word_name u"
    and "dom (d_versions d) \<subseteq> dom (d_files d)" "\<And>i. fst (clock i) \<le> snd (clock i)"
    and "\<forall>f \<in> set fs. word_name f \<and> fst (F u f) \<noteq> [] \<and> length (fst (F u f)) \<le> 99999"
  shows "\<exists>w d'. check_files E host u clock i (map PStr fs) ((s, (c, b), q), d, failed) = Inr (w, d', failed) \<and>
    (\<forall>f \<in> set fs. d_files d f = None \<longrightarrow> in_sync (bstore b) (F u f) d' f) \<and>
    (\<forall>g. d_files d g \<noteq> None \<longrightarrow> d_files d' g = d_files d g \<and> d_versions d' g = d_versions d g)"
  using assms(1,2,4-6)
proof (induction fs arbitrary: s c b q d i)
  case (Cons f fs)
  obtain t1 t2 where clock: "clock i = (t1, t2)" "t1 \<le> t2" using Cons.prems(4) [of i] by (cases "clock i") simp
  show ?case
  proof (cases "d_files d f = None")
    case True
    let ?d = "planned_disk Download (bstore b) (F u f) f (t1, t2) d"
    have f: "word_name f" "fst (F u f) \<noteq> []" "length (fst (F u f)) \<le> 99999" "d_versions d f = None"
      using Cons.prems(3,5) True by auto
    obtain s1 c1 b1 q1 where t: "check_file E host u (PStr f) (clock i) ((s, (c, b), q), d, failed) =
        Inr ((s1, (c1, b1), q1), ?d, failed)"
      "holds_files coll tables bstore sha F (c1, b1)" "in_front usable store bstore s1 (c1, b1)" "bstore b1 = bstore b"
      using check_file_fetch [OF Cons.prems(1,2) assms(3) f(1,3) True f(4), of t1 t2 q failed] f(2) clock(1) by auto
    have sync: "in_sync (bstore b) (F u f) ?d f" and d: "d_files ?d f \<noteq> None" "dom (d_versions ?d) \<subseteq> dom (d_files ?d)"
      using f(2) clock(2) Cons.prems(3) by (cases "F u f"; auto simp: in_sync_def addToVersionFile_def)+
    obtain w d' where r: "check_files E host u clock (Suc i) (map PStr fs) ((s1, (c1, b1), q1), ?d, failed) = Inr (w, d', failed)"
      "\<forall>f \<in> set fs. d_files ?d f = None \<longrightarrow> in_sync (bstore b) (F u f) d' f"
      "\<forall>g. d_files ?d g \<noteq> None \<longrightarrow> d_files d' g = d_files ?d g \<and> d_versions d' g = d_versions ?d g"
      using Cons.IH [OF t(2,3) d(2) Cons.prems(4), of "Suc i" q1] Cons.prems(5) t(4) by auto
    have "in_sync (bstore b) (F u f) d' f" using sync r(3) d(1) by (simp add: in_sync_def)
    moreover have "d_files ?d g = d_files d g \<and> d_versions ?d g = d_versions d g" if "g \<noteq> f" for g
      by (rule planned_disk_other [OF that])
    moreover have "in_sync (bstore b) (F u g) d' g" if "g \<in> set fs" "g \<noteq> f" "d_files d g = None" for g
      using r(2) that planned_disk_other [OF that(2)] by auto
    ultimately have "\<forall>g \<in> set (f # fs). d_files d g = None \<longrightarrow> in_sync (bstore b) (F u g) d' g" by auto
    moreover have "\<forall>g. d_files d g \<noteq> None \<longrightarrow> d_files d' g = d_files d g \<and> d_versions d' g = d_versions d g"
      using r(3) True planned_disk_other [of _ f Download "bstore b" "F u f" "(t1, t2)" d] by metis
    moreover have "check_files E host u clock i (map PStr (f # fs)) ((s, (c, b), q), d, failed) = Inr (w, d', failed)"
      using t(1) r(1) by simp
    ultimately show ?thesis by blast
  next
    case False
    then have "check_file E host u (PStr f) (clock i) ((s, (c, b), q), d, failed) = Inr ((s, (c, b), q), d, failed)"
      by (simp add: check_file_def clock(1))
    with Cons.IH [OF Cons.prems(1-4), of "Suc i" q] Cons.prems(5) False show ?thesis by auto
  qed
qed auto

text \<open>
  A whole run of the script by a client that edited and deleted nothing: afterwards every file of
  the server is here as it is there.
\<close>

lemma pull_main:
  assumes "holds_files coll tables bstore sha F (c, b)" "in_front usable store bstore s (c, b)" "word_name u"
    and "honest (bstore b) (F u) d" "dom (d_versions d) \<subseteq> dom (d_files d)"
    and "distinct listing" "dom (d_files d) \<subseteq> set listing"
    and "\<And>i. fst (clock1 i) \<le> snd (clock1 i)" "\<And>i. fst (clock2 i) \<le> snd (clock2 i)"
    and "\<forall>f v mtime. d_files d f = Some (v, mtime) \<longrightarrow> f \<notin> {''sync.py'', ''versions.json''} \<longrightarrow>
      word_name f \<and> fst (F u f) \<noteq> [] \<and> (\<forall>n t. d_versions d f = Some (n, t) \<longrightarrow> mtime \<le> t)"
    and "\<forall>r \<in># user_blocks coll u (tables c). word_name (fb_file r)" "\<forall>f. length (fst (F u f)) \<le> 99999"
  shows "\<exists>w d' fs. sync_main E split host u clock1 clock2 listing (s, (c, b), q) d = Inr (w, d', [], []) \<and>
    lists_names coll F u fs \<and>
    (\<forall>f \<in> (set fs \<union> dom (d_files d)) - {''sync.py'', ''versions.json''}. in_sync (bstore b) (F u f) d' f)"
proof -
  let ?own = "{''sync.py'', ''versions.json''}" and ?files = "filter (\<lambda>f. d_files d f \<noteq> None) listing"
  have files: "set ?files = dom (d_files d)" "distinct ?files" using assms(6,7) by auto
  have "\<forall>f \<in> set ?files - ?own. word_name f \<and> fst (F u f) \<noteq> [] \<and> length (fst (F u f)) \<le> 99999 \<and>
      (\<exists>v mtime. d_files d f = Some (v, mtime) \<and> (\<forall>n t. d_versions d f = Some (n, t) \<longrightarrow> mtime \<le> t))"
    using assms(10,12) unfolding files(1) by fastforce
  from pull_files [where clock = clock1 and i = 0 and q = q and failed = "[]", OF assms(1-4) files(2) assms(8) this] obtain s1 c1 b1 q1 d1 where
    pulled: "sync_files E split host u clock1 0 ?files ((s, (c, b), q), d, []) = Inr ((s1, (c1, b1), q1), d1, [])"
    "holds_files coll tables bstore sha F (c1, b1)" "in_front usable store bstore s1 (c1, b1)"
    "tables c1 = tables c" "bstore b1 = bstore b"
    "\<forall>f \<in> set ?files - ?own. in_sync (bstore b) (F u f) d1 f"
    "\<forall>g. g \<notin> set ?files - ?own \<longrightarrow> d_files d1 g = d_files d g \<and> d_versions d1 g = d_versions d g"
    by (elim exE conjE) (rule that)
  have F: "represents coll (tables c1) F" using pulled(2) by (simp add: holds_files_def)
  obtain c2 v fs xs where l: "getFileList E (s1, (c1, b1), q1) u = Inr ((s1, (c2, b1), q1), Some v)"
    "tables c2 = tables c1" "item v ''files'' = Inr (if fs = [] then PNone else PList xs)"
    "first_items xs = Inr (map PStr fs)" "lists_names coll F u fs"
    using getFileList_reply [OF F assms(3) assms(11) [folded pulled(4)], of s1 b1 q1] by (elim exE conjE) (rule that)
  have h: "holds_files coll tables bstore sha F (c2, b1)" "in_front usable store bstore s1 (c2, b1)"
    using pulled(2,3) l(2) by (simp_all add: holds_files_def in_front_def)
  have here: "d_files d1 g \<noteq> None \<longleftrightarrow> d_files d g \<noteq> None" "d_versions d1 g \<noteq> None \<longrightarrow> d_files d1 g \<noteq> None" for g
  proof -
    consider "g \<in> dom (d_files d) - ?own" | "g \<notin> dom (d_files d) - ?own" by blast
    then have "(d_files d1 g \<noteq> None \<longleftrightarrow> d_files d g \<noteq> None) \<and> (d_versions d1 g \<noteq> None \<longrightarrow> d_files d1 g \<noteq> None)"
    proof cases
      case 1
      then have "in_sync (bstore b) (F u g) d1 g" using pulled(6) unfolding files(1) by blast
      with 1 show ?thesis by (auto simp: in_sync_def)
    next
      case 2
      then have "d_files d1 g = d_files d g" "d_versions d1 g = d_versions d g" using pulled(7) unfolding files(1) by blast+
      with assms(5) show ?thesis by auto
    qed
    then show "d_files d1 g \<noteq> None \<longleftrightarrow> d_files d g \<noteq> None" "d_versions d1 g \<noteq> None \<longrightarrow> d_files d1 g \<noteq> None" by blast+
  qed
  have "dom (d_versions d1) \<subseteq> dom (d_files d1)" using here(2) by (simp add: domIff subset_iff)
  moreover have "\<forall>f \<in> set fs. word_name f \<and> fst (F u f) \<noteq> [] \<and> length (fst (F u f)) \<le> 99999"
    using l(5) assms(12) by (simp add: lists_names_def)
  ultimately have "\<exists>w d2. check_files E host u clock2 0 (map PStr fs) ((s1, (c2, b1), q1), d1, []) = Inr (w, d2, []) \<and>
      (\<forall>f \<in> set fs. d_files d1 f = None \<longrightarrow> in_sync (bstore b1) (F u f) d2 f) \<and>
      (\<forall>g. d_files d1 g \<noteq> None \<longrightarrow> d_files d2 g = d_files d1 g \<and> d_versions d2 g = d_versions d1 g)"
    by (intro pull_listed [OF h assms(3)] assms(9))
  then obtain w d2 where
    2: "check_files E host u clock2 0 (map PStr fs) ((s1, (c2, b1), q1), d1, []) = Inr (w, d2, [])"
    "\<forall>f \<in> set fs. d_files d1 f = None \<longrightarrow> in_sync (bstore b) (F u f) d2 f"
    "\<forall>g. d_files d1 g \<noteq> None \<longrightarrow> d_files d2 g = d_files d1 g \<and> d_versions d2 g = d_versions d1 g"
    unfolding pulled(5) by blast
  have "check_listed E host u clock2 (s1, (c1, b1), q1) d1 = Inr (if fs = [] then (s1, (c2, b1), q1) else w, d2, [])"
    using l(1,3,4) 2(1) by (cases "fs = []") (simp_all add: check_listed_def elements_def)
  then have "sync_main E split host u clock1 clock2 listing (s, (c, b), q) d =
      Inr (if fs = [] then (s1, (c2, b1), q1) else w, d2, [], [])"
    using pulled(1) by (simp add: sync_main_def Let_def)
  moreover have "in_sync (bstore b) (F u f) d2 f" if f: "f \<in> (set fs \<union> dom (d_files d)) - ?own" for f
  proof (cases "d_files d f = None")
    case True
    then have "d_files d1 f = None" "f \<in> set fs" using f here(1) [of f] by (blast, auto)
    with 2(2) show ?thesis by blast
  next
    case False
    then have "in_sync (bstore b) (F u f) d1 f" using pulled(6) f unfolding files(1) by blast
    with 2(3) here(1) False show ?thesis by (simp add: in_sync_def)
  qed
  ultimately show ?thesis using l(5) by blast
qed

end

text \<open>Every step keeps the records honest.\<close>

lemma all_honest_upd:
  assumes "all_honest coll tables bstore usable store sha u F (now, (c, b), desk)"
    and "holds_files coll tables bstore sha F' (c', b')" "in_front usable store bstore s' (c', b')"
    and "honest (bstore b') (F' u) d'" "up_to t d'" "now \<le> t" "bstore b \<subseteq>\<^sub>m bstore b'"
    and "\<forall>dd. honest (bstore b) (F u) dd \<longrightarrow> honest (bstore b') (F' u) dd"
  shows "all_honest coll tables bstore usable store sha u F' (t, (c', b'), desk(i := (s', q', d')))"
proof -
  have "in_front usable store bstore s (c', b') \<and> honest (bstore b') (F' u) d \<and> up_to t d"
    if "desk j = (s, q, d)" for j s q d
  proof -
    note all_honestD(2-4) [OF assms(1) that]
    then show ?thesis
      using assms(6-8) up_to_mono by (auto simp: in_front_def intro: map_le_trans)
  qed
  with assms(2-5) show ?thesis by (auto simp: all_honest_def)
qed

lemma client_step_honest:
  assumes "\<And>i. site J j_elems j_members sendable M tables pending coll up L store usable B bstore busable tries
      loads dumps val N push eth0 ip (host i) sha split"
    and "E = web_client J M (machine L junk) (block_gateway B eth0) N loads dumps sha" "word_name u"
    and "client_step E split host u (within_bounds coll tables bstore sha dumps split u) st st'"
    and "all_honest coll tables bstore usable store sha u F st"
  shows "\<exists>F'. all_honest coll tables bstore usable store sha u F' st'"
  using assms(4)
proof cases
  case (edit desk i s q d now t cb f v)
  obtain c b where cb: "cb = (c, b)" by (cases cb)
  have h: "all_honest coll tables bstore usable store sha u F (now, (c, b), desk)" using assms(5) edit(1) cb by simp
  note i = all_honestD [OF h edit(3)]
  have "up_to t (d\<lparr>d_files := (d_files d)(f \<mapsto> (v, t))\<rparr>)"
    using up_to_mono [OF i(4) less_imp_le [OF edit(4)]] by (auto simp: up_to_def dest!: subsetD [OF ran_upd(1)])
  then show ?thesis
    using all_honest_upd [OF h i(1,2) honest_edit [OF i(3,4) edit(4)], where i = i and q' = q and t = t] edit(2,4) cb
    by auto
next
  case (remove desk i s q d now t cb f)
  obtain c b where cb: "cb = (c, b)" by (cases cb)
  have h: "all_honest coll tables bstore usable store sha u F (now, (c, b), desk)" using assms(5) remove(1) cb by simp
  note i = all_honestD [OF h remove(3)]
  show ?thesis
    using all_honest_upd [OF h i(1,2) honest_remove [OF i(3), of f] up_to_mono [OF up_to_remove [OF i(4), of f] remove(4)] remove(4),
        where i = i and q' = q] remove(2) cb
    by auto
next
  case (turn desk i s q d f cb now t1 t2 s' cb' q' d' failed)
  obtain c b where cb: "cb = (c, b)" by (cases cb)
  have h: "all_honest coll tables bstore usable store sha u F (now, (c, b), desk)" using assms(5) turn(1) cb by simp
  note i = all_honestD [OF h turn(3)]
  obtain v mtime where f: "d_files d f = Some (v, mtime)" using turn(4) by auto
  have fits: "within_bounds coll tables bstore sha dumps split u (c, b) d f" using turn(5) cb by simp
  obtain F' c' b' where r: "cb' = (c', b')" "holds_files coll tables bstore sha F' (c', b')"
    "in_front usable store bstore s' (c', b')" "bstore b \<subseteq>\<^sub>m bstore b'" "honest (bstore b') (F' u) d'" "up_to t2 d'"
    "\<forall>dd. honest (bstore b) (F u) dd \<longrightarrow> honest (bstore b') (F' u) dd"
    using site.turn_good [OF assms(1) [of i] i turn(6,7) assms(3) fits f refl refl refl, where junk = junk and q = q and failed = "[]"] turn(8) cb assms(2)
    by auto
  have "now \<le> t2" using turn(6,7) by simp
  from all_honest_upd [OF h r(2,3,5,6) this r(4,7)] show ?thesis using turn(2) r(1) by blast
next
  case (fetch desk i s q d f cb now t1 t2 s' cb' q' d' failed)
  obtain c b where cb: "cb = (c, b)" by (cases cb)
  have h: "all_honest coll tables bstore usable store sha u F (now, (c, b), desk)" using assms(5) fetch(1) cb by simp
  note i = all_honestD [OF h fetch(3)]
  have F: "represents coll (tables c) F" using i(1) by (simp add: holds_files_def)
  have f: "word_name f" "length (fst (F u f)) \<le> 99999" using fetch(6) F by (auto simp: within_bounds_def cb)
  let ?d = "planned_disk Download (bstore b) (F u f) f (t1, t2) d"
  obtain c' b' where r: "fst (F u f) \<noteq> []" "cb' = (c', b')" "d' = ?d" "holds_files coll tables bstore sha F (c', b')"
    "in_front usable store bstore s' (c', b')" "bstore b' = bstore b"
    using site.check_file_fetch [OF assms(1) [of i] i(1,2) assms(3) f fetch(4,5), where junk = junk and q = q and failed = "[]" and ?t1.0 = t1 and ?t2.0 = t2] fetch(9) cb assms(2)
    by (auto split: if_splits)
  have sync: "in_sync (bstore b) (F u f) ?d f"
    using r(1) fetch(8) by (cases "F u f") (simp add: in_sync_def addToVersionFile_def)
  have "honest (bstore b) (F u) ?d" using honest_turn [OF i(3) sync] planned_disk_other by blast
  moreover have "up_to t2 ?d" by (rule up_to_turn [OF i(4) fetch(7,8)])
  moreover have "now \<le> t2" using fetch(7,8) by simp
  ultimately show ?thesis
    using all_honest_upd [OF h r(4,5), where i = i and q' = q' and t = t2] r(2,3,6) fetch(2) by auto
qed

end
