(* ===== verification/Sync_Removal.thy ===== *)
theory Sync_Removal
  imports Sync_Clients
begin

text \<open>
  Clients that also carry their deletions to the metadata server: the steps of the second loop for
  a file that has a record and is gone. Records of the others may then name versions the server
  never had again; the servers themselves stay sound.
\<close>

inductive script_step ::
  "('s \<times> ('c \<times> 'b) \<times> 'n) client \<Rightarrow> (string \<Rightarrow> string \<Rightarrow> (string \<times> string) list) \<Rightarrow> (nat \<Rightarrow> string) \<Rightarrow> string \<Rightarrow>
   ('c \<times> 'b \<Rightarrow> disk \<Rightarrow> string \<Rightarrow> bool) \<Rightarrow> ('s, 'c, 'b, 'n) clients \<Rightarrow> ('s, 'c, 'b, 'n) clients \<Rightarrow> bool"
  for E split host user fits where
  client: "client_step E split host user fits st st' \<Longrightarrow> script_step E split host user fits st st'"
| delete: "desk i = (s, q, d) \<Longrightarrow> d_files d f = None \<Longrightarrow> d_versions d f \<noteq> None \<Longrightarrow> word_name f \<Longrightarrow>
    now \<le> t1 \<Longrightarrow> t1 \<le> t2 \<Longrightarrow>
    check_file E (host i) user (PStr f) (t1, t2) ((s, cb, q), d, []) = Inr ((s', cb', q'), d', failed) \<Longrightarrow>
    script_step E split host user fits (now, cb, desk) (t2, cb', desk(i := (s', q', d')))"

inductive_cases client_stepE: "client_step E split host user bnd (now, cb, desk) st'"
inductive_cases script_stepE: "script_step E split host user bnd (now, cb, desk) st'"

definition servers_sound ::
  "(string \<Rightarrow> string \<Rightarrow> bool) \<Rightarrow> ('c \<Rightarrow> db) \<Rightarrow> ('b \<Rightarrow> (string \<rightharpoonup> string)) \<Rightarrow> ('d \<Rightarrow> bool) \<Rightarrow> ('d \<Rightarrow> (string \<rightharpoonup> string)) \<Rightarrow>
   (string \<Rightarrow> string) \<Rightarrow> files \<Rightarrow> ('d loop, 'c, 'b, 'n) clients \<Rightarrow> bool" where
  "servers_sound coll tables bstore usable store sha F = (\<lambda>(now, cb, desk).
     holds_files coll tables bstore sha F cb \<and> (\<forall>i. in_front usable store bstore (fst (desk i)) cb))"

lemma servers_soundD:
  "servers_sound coll tables bstore usable store sha F (now, cb, desk) \<Longrightarrow> holds_files coll tables bstore sha F cb"
  "servers_sound coll tables bstore usable store sha F (now, cb, desk) \<Longrightarrow> desk i = (s, q, d) \<Longrightarrow>
    in_front usable store bstore s cb"
  unfolding servers_sound_def by (auto dest!: spec [of _ i])

lemma servers_sound_upd:
  assumes "servers_sound coll tables bstore usable store sha F (now, (c, b), desk)"
    and "holds_files coll tables bstore sha F' (c', b')" "in_front usable store bstore s' (c', b')"
    and "bstore b \<subseteq>\<^sub>m bstore b'"
  shows "servers_sound coll tables bstore usable store sha F' (t, (c', b'), desk(i := (s', q', d')))"
  using assms by (auto simp: servers_sound_def in_front_def intro: map_le_trans)

lemma client_step_sound:
  assumes "\<And>i. site J j_elems j_members sendable M tables pending coll up L store usable B bstore busable tries
      loads dumps val N push eth0 ip (host i) sha split"
    and "E = web_client J M (machine L junk) (block_gateway B eth0) N loads dumps sha" "word_name u"
    and "client_step E split host u (within_bounds coll tables bstore sha dumps split u) (now, (c, b), desk) st'"
    and sound: "servers_sound coll tables bstore usable store sha F (now, (c, b), desk)"
  shows "\<exists>F' c' b'. servers_sound coll tables bstore usable store sha F' st' \<and> fst (snd st') = (c', b') \<and> bstore b \<subseteq>\<^sub>m bstore b'"
  using assms(4)
proof (cases rule: client_stepE [consumes 1, case_names edit remove turn fetch])
  case (edit i s q d t f v)
  from servers_sound_upd [OF sound servers_soundD(1) [OF sound] servers_soundD(2) [OF sound edit(2)]] show ?thesis
    unfolding edit(1) by (metis fst_conv map_le_refl snd_conv)
next
  case (remove i s q d t f)
  from servers_sound_upd [OF sound servers_soundD(1) [OF sound] servers_soundD(2) [OF sound remove(2)]] show ?thesis
    unfolding remove(1) by (metis fst_conv map_le_refl snd_conv)
next
  case (turn i s q d f t1 t2 s' cb' q' d' failed v mtime)
  note h = servers_soundD(1) [OF sound] servers_soundD(2) [OF sound turn(2)]
  note f = turn(7)
  have w: "word_name f" "length (fst (F u f)) \<le> 99999"
    "\<forall>n. sync_plan (d_versions d f) mtime (F u f) = Upload n \<longrightarrow>
       size (fileblock (tables c)) < 2 ^ 31 \<and> uploadable sha dumps (bstore b) u f n (split f v)"
    using turn(3) h(1) f by (auto simp: within_bounds_def holds_files_def)
  obtain F' c' b' where "cb' = (c', b')" "holds_files coll tables bstore sha F' (c', b')"
    "in_front usable store bstore s' (c', b')" "bstore b \<subseteq>\<^sub>m bstore b'"
    using site.sync_file_effect [OF assms(1) [of i] h assms(3) w(1) f w(2) refl w(3) refl, where junk = junk and q = q
        and failed = "[]" and written = t1 and now = t2] turn(6) unfolding assms(2) by auto
  with servers_sound_upd [OF sound this(2-4), of t2 i q' d'] show ?thesis unfolding turn(1) by auto
next
  case (fetch i s q d f t1 t2 s' cb' q' d' failed)
  note h = servers_soundD(1) [OF sound] servers_soundD(2) [OF sound fetch(2)]
  have f: "word_name f" "length (fst (F u f)) \<le> 99999" using fetch(5) h(1) by (auto simp: within_bounds_def holds_files_def)
  obtain c' b' where r: "cb' = (c', b')" "holds_files coll tables bstore sha F (c', b')"
    "in_front usable store bstore s' (c', b')" "bstore b' = bstore b"
    using site.check_file_fetch [OF assms(1) [of i] h assms(3) f fetch(3,4), where junk = junk and q = q and failed = "[]"
        and ?t1.0 = t1 and ?t2.0 = t2] fetch(8) unfolding assms(2)
    by (auto split: if_splits)
  from servers_sound_upd [OF sound r(2,3), of t2 i q' d'] show ?thesis
    unfolding fetch(1) by (intro exI [of _ F]) (simp add: r(1,4))
qed

lemma script_step_sound:
  assumes "\<And>i. site J j_elems j_members sendable M tables pending coll up L store usable B bstore busable tries
      loads dumps val N push eth0 ip (host i) sha split"
    and "E = web_client J M (machine L junk) (block_gateway B eth0) N loads dumps sha" "word_name u"
    and "script_step E split host u (within_bounds coll tables bstore sha dumps split u) (now, (c, b), desk) st'"
    and sound: "servers_sound coll tables bstore usable store sha F (now, (c, b), desk)"
  shows "\<exists>F' c' b'. servers_sound coll tables bstore usable store sha F' st' \<and> fst (snd st') = (c', b') \<and> bstore b \<subseteq>\<^sub>m bstore b'"
  using assms(4)
proof (cases rule: script_stepE [consumes 1, case_names client delete])
  case client
  from client_step_sound [OF assms(1-3) client sound] show ?thesis .
next
  case (delete i s q d f t1 t2 s' cb' q' d' failed n t)
  note h = servers_soundD(1) [OF sound] servers_soundD(2) [OF sound delete(2)]
  obtain c' where r: "cb' = (c', b)" "s' = s" "holds_files coll tables bstore sha (set_file coll u f ([], 0) F) (c', b)"
    "in_front usable store bstore s (c', b)"
    using site.check_file_removed [OF assms(1) [of i] h assms(3) delete(4,3) _, where junk = junk and q = q
        and clock = "(t1, t2)" and failed = "[]"] delete(7,8) unfolding assms(2) by auto
  from servers_sound_upd [OF sound r(3,4), of t2 i q' d'] show ?thesis unfolding delete(1) by (auto simp: r(1,2))
qed

end
