(* ===== verification/Ref_Mysql.thy ===== *)
theory Ref_Mysql
  imports Meta_Invariant "HOL-Library.Product_Lexorder"
begin

text \<open>
  A reference server: it parses the text of the statements of the fragment and runs them on
  tables held as lists, with string equality as the collation. It shows that the laws of
  \<open>mysql\<close> and \<open>reliable_mysql\<close> can hold together, and it is the concrete server of the
  witnesses.
\<close>

section \<open>Parsing the statements\<close>

fun strip :: "string \<Rightarrow> string \<Rightarrow> string option" where
  "strip [] s = Some s"
| "strip (x # xs) [] = None"
| "strip (x # xs) (y # ys) = (if x = y then strip xs ys else None)"

definition parse_literal :: "string \<Rightarrow> (string \<times> string) option" where
  "parse_literal s =
     (case s of [] \<Rightarrow> None
      | q # r \<Rightarrow> if q \<noteq> CHR 0x27 then None
                else case dropWhile (\<lambda>c. c \<noteq> CHR 0x27) r of
                    [] \<Rightarrow> None
                  | q' # rest \<Rightarrow> Some (takeWhile (\<lambda>c. c \<noteq> CHR 0x27) r, rest))"

text \<open>\<open>after t s f\<close>: continue with \<open>f\<close> behind the literal text \<open>t\<close>.\<close>

definition after :: "string \<Rightarrow> string \<Rightarrow> (string \<Rightarrow> 'a option) \<Rightarrow> 'a option" where
  "after t s f = Option.bind (strip t s) f"

definition orelse :: "'a option \<Rightarrow> 'a option \<Rightarrow> 'a option" where
  "orelse a b = (case a of None \<Rightarrow> b | Some x \<Rightarrow> Some x)"

lemma orelse_simps [simp]: "orelse None b = b" "orelse (Some x) b = Some x"
  by (simp_all add: orelse_def)

definition parse_column :: "string \<Rightarrow> (column \<times> string) option" where
  "parse_column s =
     orelse (after ''user_id='' s (\<lambda>r. Some (User_Id, r)))
    (orelse (after ''file_name='' s (\<lambda>r. Some (File_Name, r)))
    (orelse (after ''block_hash='' s (\<lambda>r. Some (Block_Hash, r)))
            (after ''cache_server_ip='' s (\<lambda>r. Some (Cache_Server_Ip, r)))))"

definition parse_condition :: "string \<Rightarrow> (condition \<times> string) option" where
  "parse_condition s =
     (case parse_column s of None \<Rightarrow> None
      | Some (c, r) \<Rightarrow> (case parse_literal r of None \<Rightarrow> None | Some (v, r') \<Rightarrow> Some ((c, v), r')))"

text \<open>A list of items separated by \<open>sep\<close>; the fuel bounds the number of items.\<close>

fun parse_list :: "(string \<Rightarrow> ('a \<times> string) option) \<Rightarrow> string \<Rightarrow> nat \<Rightarrow> string \<Rightarrow> ('a list \<times> string) option" where
  "parse_list p sep 0 s = None"
| "parse_list p sep (Suc n) s =
     (case p s of None \<Rightarrow> None
      | Some (a, r) \<Rightarrow>
          (case strip sep r of None \<Rightarrow> Some ([a], r)
           | Some r' \<Rightarrow>
               (case parse_list p sep n r' of None \<Rightarrow> None
                | Some (as, r'') \<Rightarrow> Some (a # as, r''))))"

definition parse_where :: "string \<Rightarrow> (where_clause \<times> string) option" where
  "parse_where s =
     parse_list (\<lambda>t. parse_list parse_condition '' AND '' (length t) t) '' OR '' (length s) s"

definition parse_nat :: "string \<Rightarrow> (nat \<times> string) option" where
  "parse_nat s = (case read_int s of
     Some (False, v, r) \<Rightarrow> if s \<noteq> [] \<and> is_digit (hd s) then Some (nat v, r) else None
   | _ \<Rightarrow> None)"

definition at_end :: "('a \<times> string) option \<Rightarrow> 'a option" where
  "at_end r = (case r of Some (a, []) \<Rightarrow> Some a | _ \<Rightarrow> None)"

definition where_then :: "string \<Rightarrow> string \<Rightarrow> (where_clause \<times> string) option" where
  "where_then t s = (case parse_where s of None \<Rightarrow> None
     | Some (w, r) \<Rightarrow> map_option (\<lambda>r'. (w, r')) (strip t r))"

definition where_limit :: "string \<Rightarrow> string \<Rightarrow> (where_clause \<times> int) option" where
  "where_limit t s = (case where_then t s of None \<Rightarrow> None
     | Some (w, r) \<Rightarrow> map_option (\<lambda>n. (w, int n)) (at_end (parse_nat r)))"

definition parse_block :: "string \<Rightarrow> stmt option" where
  "parse_block s =
     Option.bind (parse_literal s) (\<lambda>(u, r1). after '','' r1 (\<lambda>r2.
     Option.bind (parse_literal r2) (\<lambda>(f, r3). after '','' r3 (\<lambda>r4.
     Option.bind (parse_literal r4) (\<lambda>(h, r5). after '','' r5 (\<lambda>r6.
     Option.bind (parse_nat r6) (\<lambda>(i, r7). after '','' r7 (\<lambda>r8.
     Option.bind (parse_nat r8) (\<lambda>(v, r9).
     if r9 = '')'' then Some (Insert_Block u f h (int i) (int v)) else None)))))))))"

definition parse_cache :: "string \<Rightarrow> stmt option" where
  "parse_cache s =
     Option.bind (parse_literal s) (\<lambda>(u, r1). after '','' r1 (\<lambda>r2.
     Option.bind (parse_literal r2) (\<lambda>(a, r3).
     if r3 = '')'' then Some (Insert_Cache u a) else None)))"

definition parse_stmt :: "string \<Rightarrow> stmt option" where
  "parse_stmt s =
     orelse (after ''SELECT COUNT(*) FROM FileBlock WHERE '' s
               (\<lambda>r. map_option Count_Blocks (at_end (parse_where r))))
    (orelse (after ''SELECT version FROM FileBlock WHERE '' s
               (\<lambda>r. map_option Select_Version (at_end (parse_where r))))
    (orelse (after ''SELECT block_hash,version FROM FileBlock WHERE '' s
               (\<lambda>r. map_option Select_Blocks (at_end (where_then '' ORDER BY block_number ASC'' r))))
    (orelse (after ''SELECT DISTINCT file_name,version FROM FileBlock WHERE '' s
               (\<lambda>r. map_option Select_Names (at_end (parse_where r))))
    (orelse (after ''SELECT block_hash FROM FileBlock WHERE '' s
               (\<lambda>r. map_option (\<lambda>(w, n). Select_Recent w n)
                  (where_limit '' ORDER BY block_number ASC,time_last_accessed DESC LIMIT '' r)))
    (orelse (after ''SELECT cache_server_ip FROM UserCache WHERE '' s
               (\<lambda>r. map_option (\<lambda>(w, n). Select_Caches w n) (where_limit '' LIMIT '' r)))
    (orelse (after ''INSERT INTO FileBlock(user_id, file_name, block_hash, block_number, version) VALUES('' s
               parse_block)
    (orelse (after ''INSERT INTO UserCache(user_id, cache_server_ip) VALUES('' s parse_cache)
    (orelse (after ''DELETE FROM FileBlock WHERE '' s
               (\<lambda>r. map_option Delete_Blocks (at_end (parse_where r))))
            (after ''DELETE FROM UserCache WHERE '' s
               (\<lambda>r. map_option Delete_Caches (at_end (parse_where r))))))))))))"

section \<open>The parser reads back the printed statements\<close>

lemma strip_append [simp]: "strip p (p @ s) = Some s"
  by (induction p) auto

lemma clean_quote: "clean v \<Longrightarrow> CHR 0x27 \<notin> set v"
  by (auto simp: clean_def)

lemma parse_literal_quoted:
  assumes "clean v"
  shows "parse_literal (quoted v @ r) = Some (v, r)"
    and "parse_literal (CHR 0x27 # v @ CHR 0x27 # r) = Some (v, r)"
proof -
  have v: "\<And>x. x \<in> set v \<Longrightarrow> x \<noteq> CHR 0x27" using clean_quote [OF assms] by auto
  have "takeWhile (\<lambda>c. c \<noteq> CHR 0x27) (v @ CHR 0x27 # r) = v"
    "dropWhile (\<lambda>c. c \<noteq> CHR 0x27) (v @ CHR 0x27 # r) = CHR 0x27 # r"
    using takeWhile_append_stop [of v "\<lambda>c. c \<noteq> CHR 0x27"] dropWhile_append_stop [of v "\<lambda>c. c \<noteq> CHR 0x27"] v
    by auto
  then show "parse_literal (CHR 0x27 # v @ CHR 0x27 # r) = Some (v, r)"
    by (simp add: parse_literal_def)
  then show "parse_literal (quoted v @ r) = Some (v, r)" by (simp add: quoted_def)
qed

lemma parse_column_name: "parse_column (column_name c @ CHR ''='' # r) = Some (c, r)"
  by (cases c) (simp_all add: parse_column_def after_def)

lemma parse_condition_text:
  "clean (snd cv) \<Longrightarrow> parse_condition (condition_text cv @ r) = Some (cv, r)"
  by (cases cv) (simp add: parse_condition_def parse_column_name parse_literal_quoted)

lemma parse_list_join:
  assumes "xs \<noteq> []" "length xs \<le> n" "strip sep r = None"
    and "\<And>x t. x \<in> set xs \<Longrightarrow> t = r \<or> (\<exists>s. t = sep @ s) \<Longrightarrow> p (f x @ t) = Some (x, t)"
  shows "parse_list p sep n (join sep (map f xs) @ r) = Some (xs, r)"
  using assms
proof (induction xs arbitrary: n)
  case (Cons x xs)
  then obtain m where n: "n = Suc m" by (cases n) auto
  show ?case
  proof (cases xs)
    case Nil
    with Cons.prems n show ?thesis by simp
  next
    case (Cons y ys)
    have "parse_list p sep m (join sep (map f xs) @ r) = Some (xs, r)"
      using Cons Cons.prems n by (intro Cons.IH) auto
    moreover have "p (f x @ sep @ join sep (map f xs) @ r) = Some (x, sep @ join sep (map f xs) @ r)"
      using Cons.prems(4) [of x] by auto
    ultimately show ?thesis using n Cons by simp
  qed
qed simp

lemma length_join: "(\<And>x. x \<in> set xs \<Longrightarrow> x \<noteq> []) \<Longrightarrow> length xs \<le> length (join sep xs)"
proof (induction sep xs rule: join.induct)
  case (2 sep x)
  then show ?case by (cases x) auto
next
  case (3 sep x y zs)
  then have "x \<noteq> []" "length (y # zs) \<le> length (join sep (y # zs))" by auto
  then show ?case by (cases x) auto
qed simp

lemma condition_text_nonempty [simp]: "condition_text cv \<noteq> []"
  by (cases cv) (simp add: quoted_def)

lemma join_nonempty: "xs \<noteq> [] \<Longrightarrow> (\<And>x. x \<in> set xs \<Longrightarrow> x \<noteq> []) \<Longrightarrow> join sep xs \<noteq> []"
  using length_join [of xs sep] by (cases xs) auto

lemma parse_where_text:
  assumes "where_ok C w" "strip '' AND '' r = None" "strip '' OR '' r = None"
  shows "parse_where (where_text w @ r) = Some (w, r)"
  unfolding parse_where_def where_text_def
proof (rule parse_list_join)
  let ?f = "\<lambda>cs. join '' AND '' (map condition_text cs)"
  show "w \<noteq> []" using assms(1) by (simp add: where_ok_def)
  have ne: "?f cs \<noteq> []" if "cs \<in> set w" for cs
    using that assms(1) by (intro join_nonempty) (auto simp: where_ok_def)
  have "length (map ?f w) \<le> length (join '' OR '' (map ?f w))"
    using ne by (intro length_join) auto
  then show "length w \<le> length (join '' OR '' (map ?f w) @ r)" by simp
  fix cs t
  assume cs: "cs \<in> set w" and t: "t = r \<or> (\<exists>s. t = '' OR '' @ s)"
  show "parse_list parse_condition '' AND '' (length (?f cs @ t)) (?f cs @ t) = Some (cs, t)"
  proof (rule parse_list_join)
    show "cs \<noteq> []" using cs assms(1) by (simp add: where_ok_def)
    have "length (map condition_text cs) \<le> length (?f cs)"
      by (rule length_join) auto
    then show "length cs \<le> length (?f cs @ t)" by simp
    show "strip '' AND '' t = None" using t assms(2) by auto
    show "parse_condition (condition_text cv @ s) = Some (cv, s)" if "cv \<in> set cs" for cv s
      using that cs assms(1) by (intro parse_condition_text) (fastforce simp: where_ok_def)
  qed
qed (use assms in auto)

lemma parse_nat_show:
  assumes "0 \<le> i" "r = [] \<or> \<not> is_digit (hd r)"
  shows "parse_nat (show_int i @ r) = Some (nat i, r)"
proof -
  have "show_int i = show_nat (nat i)" using assms(1) by (simp add: show_int_def)
  moreover have "is_digit (hd (show_nat (nat i) @ r))"
    using show_nat_digits [of "hd (show_nat (nat i))" "nat i"] by (simp add: hd_append)
  ultimately show ?thesis
    using read_int_digits(1) [OF show_nat_nonempty show_nat_digits assms(2)] assms(1)
    by (simp add: parse_nat_def)
qed

lemma comma_not_digit [simp]: "\<not> is_digit CHR '',''" "\<not> is_digit CHR '')''"
  by (simp_all add: is_digit_def)

lemma parse_sql_text: "stmt_ok st \<Longrightarrow> parse_stmt (sql_text st) = Some st"
proof (cases st)
  case (Insert_Block u f h i v)
  assume "stmt_ok st"
  with Insert_Block show ?thesis
    by (simp add: parse_stmt_def after_def parse_block_def parse_literal_quoted parse_nat_show
        clean_name clean_hash uint_ok_def)
qed (auto simp: parse_stmt_def after_def parse_where_text [where r = "[]", simplified] at_end_def
    where_then_def where_limit_def parse_where_text parse_cache_def parse_literal_quoted
    parse_nat_show [where r = "[]", simplified] clean_name uint_ok_def)

section \<open>Running the statements\<close>

record ref_server =
  ref_blocks :: "fb_row list"
  ref_caches :: "uc_row list"
  ref_clock :: nat
  ref_result :: "row list"
  ref_open :: bool

definition ref_tables :: "ref_server \<Rightarrow> db" where
  "ref_tables c = \<lparr>fileblock = mset (ref_blocks c), usercache = mset (ref_caches c)\<rparr>"

definition fb_select :: "where_clause \<Rightarrow> ref_server \<Rightarrow> fb_row list" where
  "fb_select w c = filter (matches (=) fb_cell w) (ref_blocks c)"

definition uc_select :: "where_clause \<Rightarrow> ref_server \<Rightarrow> uc_row list" where
  "uc_select w c = filter (matches (=) uc_cell w) (ref_caches c)"

fun ref_run :: "stmt \<Rightarrow> ref_server \<Rightarrow> ref_server" where
  "ref_run (Count_Blocks w) c =
     c\<lparr>ref_result := [[Some (show_nat (length (fb_select w c)))]]\<rparr>"
| "ref_run (Select_Version w) c =
     c\<lparr>ref_result := map (\<lambda>r. [version_cell (fb_version r)]) (fb_select w c)\<rparr>"
| "ref_run (Select_Blocks w) c =
     c\<lparr>ref_result := map (\<lambda>r. [Some (fb_hash r), version_cell (fb_version r)])
                          (sort_key fb_num (fb_select w c))\<rparr>"
| "ref_run (Select_Names w) c = c\<lparr>ref_result := remdups (map name_row (fb_select w c))\<rparr>"
| "ref_run (Select_Recent w n) c =
     c\<lparr>ref_result := map (\<lambda>r. [Some (fb_hash r)])
        (take (nat n) (sort_key (\<lambda>r. (fb_num r, - int (fb_time r))) (fb_select w c)))\<rparr>"
| "ref_run (Select_Caches w n) c =
     c\<lparr>ref_result := map (\<lambda>r. [Some (uc_cache r)]) (take (nat n) (uc_select w c))\<rparr>"
| "ref_run (Insert_Block u f h i v) c =
     c\<lparr>ref_blocks := ref_blocks c @ [\<lparr>fb_user = u, fb_file = f, fb_hash = h, fb_num = nat i,
        fb_time = ref_clock c, fb_version = Some (nat v)\<rparr>],
       ref_clock := Suc (ref_clock c), ref_result := []\<rparr>"
| "ref_run (Insert_Cache u a) c =
     c\<lparr>ref_caches := ref_caches c @ [\<lparr>uc_user = u, uc_cache = a\<rparr>], ref_result := []\<rparr>"
| "ref_run (Delete_Blocks w) c =
     c\<lparr>ref_blocks := filter (\<lambda>r. \<not> matches (=) fb_cell w r) (ref_blocks c), ref_result := []\<rparr>"
| "ref_run (Delete_Caches w) c =
     c\<lparr>ref_caches := filter (\<lambda>r. \<not> matches (=) uc_cell w r) (ref_caches c), ref_result := []\<rparr>"

definition ref_query :: "ref_server \<Rightarrow> string \<Rightarrow> ref_server \<times> int" where
  "ref_query c q =
     (if \<not> ref_open c then (c, 1)
      else case parse_stmt q of None \<Rightarrow> (c, 1) | Some st \<Rightarrow> (ref_run st c, 0))"

text \<open>
  The handle is never null; \<open>CR_SERVER_GONE_ERROR\<close> (2006) is the error of a closed
  connection, \<open>ER_PARSE_ERROR\<close> (1064) that of an open one.
\<close>

definition ref_mysql :: "ref_server mysql_api" where
  "ref_mysql = \<lparr>
     my_init = (\<lambda>c. (c\<lparr>ref_open := False\<rparr>, True)),
     my_real_connect = (\<lambda>c host user pass db port. (c\<lparr>ref_open := True\<rparr>, True)),
     my_errno = (\<lambda>h c. if ref_open c then 1064 else 2006),
     my_query = ref_query,
     my_store_result = (\<lambda>c. (c\<lparr>ref_result := []\<rparr>, Some (ref_result c))),
     my_close = (\<lambda>c. c\<lparr>ref_open := False\<rparr>),
     my_unset_null = (\<lambda>c. True)\<rparr>"

definition ref_empty :: ref_server where
  "ref_empty = \<lparr>ref_blocks = [], ref_caches = [], ref_clock = 0, ref_result = [], ref_open = False\<rparr>"

section \<open>The laws hold of it\<close>

lemma ref_run_sem:
  assumes "stmt_ok st"
  shows "sql_sem (=) st (ref_tables c) (ref_tables (ref_run st c)) (ref_result (ref_run st c))"
proof (cases st)
  case (Select_Blocks w)
  then show ?thesis
    by (auto simp: ref_tables_def fb_select_def mset_filter intro!: exI [of _ "sort_key fb_num (fb_select w c)"])
next
  case (Select_Recent w n)
  let ?k = "\<lambda>r. (fb_num r, - int (fb_time r))"
  let ?xs = "sort_key ?k (fb_select w c)"
  have "sorted (map ?k ?xs)" by simp
  then have "sorted_wrt recent_order ?xs"
    unfolding sorted_wrt_map
    by (rule sorted_wrt_mono_rel [rotated]) (auto simp: recent_order_def less_eq_prod_def)
  with Select_Recent show ?thesis
    by (auto simp: ref_tables_def fb_select_def mset_filter intro!: exI [of _ ?xs])
next
  case (Select_Names w)
  then show ?thesis
    by (auto simp: ref_tables_def fb_select_def Let_def same_name_def name_row_def)
qed (auto simp: ref_tables_def fb_select_def uc_select_def simp flip: mset_filter size_mset)

lemma parse_negative_limit:
  assumes "negative_limit st"
  shows "parse_stmt (sql_text st) = None"
proof -
  have "\<not> is_digit (hd (show_int n))" if "n < 0" for n
    using that by (simp add: show_int_def is_digit_def)
  then have pn: "parse_nat (show_int n) = None" if "n < 0" for n
    using that by (auto simp: parse_nat_def split: option.splits bool.splits)
  show ?thesis
    using assms
    by (cases st) (auto simp: parse_stmt_def after_def where_limit_def where_then_def
      parse_where_text at_end_def pn)
qed

interpretation ref: reliable_mysql ref_mysql ref_tables ref_result "(=)" ref_open
proof unfold_locales
  fix st c c'
  assume "stmt_ok st" "my_query ref_mysql c (sql_text st) = (c', 0)"
  then have "c' = ref_run st c"
    by (simp add: ref_mysql_def ref_query_def parse_sql_text split: if_splits)
  then show "sql_sem (=) st (ref_tables c) (ref_tables c') (ref_result c')"
    using ref_run_sem \<open>stmt_ok st\<close> by simp
next
  fix c c' :: ref_server and st
  assume "ref_open c" "stmt_ok st"
  moreover have "ref_open (ref_run st c) = ref_open c" by (cases st) simp_all
  ultimately show "\<exists>c'. my_query ref_mysql c (sql_text st) = (c', 0) \<and> ref_open c'"
    by (simp add: ref_mysql_def ref_query_def parse_sql_text)
next
  fix c c' :: ref_server and st
  assume "ref_open c" "stmt_ok st" "my_query ref_mysql c (sql_text st) = (c', 0)"
  moreover have "ref_open (ref_run st c) = ref_open c" by (cases st) simp_all
  ultimately show "\<exists>c'' rs. my_store_result ref_mysql c' = (c'', Some rs) \<and> ref_open c''"
    by (auto simp: ref_mysql_def ref_query_def parse_sql_text)
qed (auto simp: ref_mysql_def ref_query_def ref_tables_def parse_negative_limit
      split: if_splits option.splits)

end
