(* ===== verification/Ref_Json.thy ===== *)
theory Ref_Json
  imports Jsoncpp
begin

text \<open>
  A JSON library that satisfies the laws of \<open>jsoncpp_values\<close>: values, a writer, and a parser for
  texts without escape sequences and with integers only. \<open>None\<close> stands for the exceptions of
  jsoncpp.
\<close>

datatype json =
    JNull
  | JBool bool
  | JString string
  | JInt int
  | JUint "32 word"
  | JArray "json list"
  | JObject "(string \<times> json) list"

section \<open>Writing\<close>

definition json_quoted :: "string \<Rightarrow> string" where
  "json_quoted s = CHR 0x22 # s @ [CHR 0x22]"

fun json_text :: "json \<Rightarrow> string" and
    json_texts :: "json list \<Rightarrow> string" and
    json_fields :: "(string \<times> json) list \<Rightarrow> string" where
  "json_text JNull = ''null''"
| "json_text (JBool b) = (if b then ''true'' else ''false'')"
| "json_text (JString s) = json_quoted s"
| "json_text (JInt i) = show_int i"
| "json_text (JUint w) = show_nat (unat w)"
| "json_text (JArray vs) = ''['' @ json_texts vs @ '']''"
| "json_text (JObject fs) = ''{'' @ json_fields fs @ ''}''"
| "json_texts [] = []"
| "json_texts [v] = json_text v"
| "json_texts (v # w # vs) = json_text v @ '','' @ json_texts (w # vs)"
| "json_fields [] = []"
| "json_fields [(k, v)] = json_quoted k @ '':'' @ json_text v"
| "json_fields ((k, v) # f # fs) = json_quoted k @ '':'' @ json_text v @ '','' @ json_fields (f # fs)"

section \<open>Parsing\<close>

definition skip_space :: "string \<Rightarrow> string" where
  "skip_space s = dropWhile is_space s"

definition expect :: "string \<Rightarrow> string \<Rightarrow> string option" where
  "expect p s = (if prefix p s then Some (drop (length p) s) else None)"

text \<open>The text of a string literal after its opening quote.\<close>

definition literal :: "string \<Rightarrow> (string \<times> string) option" where
  "literal s =
     (case dropWhile (\<lambda>c. c \<noteq> CHR 0x22) s of
        [] \<Rightarrow> None
      | _ # r \<Rightarrow> Some (takeWhile (\<lambda>c. c \<noteq> CHR 0x22) s, r))"

definition number :: "string \<Rightarrow> (json \<times> string) option" where
  "number s = (case read_int s of None \<Rightarrow> None
     | Some (neg, v, r) \<Rightarrow> Some (JInt (if neg then - v else v), r))"

text \<open>A later member with the same name replaces the earlier one.\<close>

definition put_field :: "(string \<times> json) list \<Rightarrow> string \<Rightarrow> json \<Rightarrow> (string \<times> json) list" where
  "put_field fs k w = filter (\<lambda>f. fst f \<noteq> k) fs @ [(k, w)]"

text \<open>The fuel \<open>n\<close> bounds the number of nested values and separators.\<close>

fun parse_json :: "nat \<Rightarrow> string \<Rightarrow> (json \<times> string) option" and
    parse_array :: "nat \<Rightarrow> json list \<Rightarrow> string \<Rightarrow> (json \<times> string) option" and
    parse_object :: "nat \<Rightarrow> (string \<times> json) list \<Rightarrow> string \<Rightarrow> (json \<times> string) option" where
  "parse_json 0 s = None"
| "parse_json (Suc n) s =
     (case skip_space s of
        [] \<Rightarrow> None
      | c # r \<Rightarrow>
          if c = CHR 0x22 then map_option (\<lambda>(t, r). (JString t, r)) (literal r)
          else if c = CHR ''['' then
            (case skip_space r of
               [] \<Rightarrow> None
             | d # r' \<Rightarrow> if d = CHR '']'' then Some (JArray [], r') else parse_array n [] r)
          else if c = CHR ''{'' then
            (case skip_space r of
               [] \<Rightarrow> None
             | d # r' \<Rightarrow> if d = CHR ''}'' then Some (JObject [], r') else parse_object n [] r)
          else if c = CHR ''n'' then map_option (\<lambda>r. (JNull, r)) (expect ''ull'' r)
          else if c = CHR ''t'' then map_option (\<lambda>r. (JBool True, r)) (expect ''rue'' r)
          else if c = CHR ''f'' then map_option (\<lambda>r. (JBool False, r)) (expect ''alse'' r)
          else number (c # r))"
| "parse_array 0 vs s = None"
| "parse_array (Suc n) vs s =
     Option.bind (parse_json n s) (\<lambda>(v, r).
       case skip_space r of
         [] \<Rightarrow> None
       | c # r \<Rightarrow>
           if c = CHR '']'' then Some (JArray (vs @ [v]), r)
           else if c = CHR '','' then parse_array n (vs @ [v]) r
           else None)"
| "parse_object 0 fs s = None"
| "parse_object (Suc n) fs s =
     Option.bind (expect [CHR 0x22] (skip_space s)) (\<lambda>r.
     Option.bind (literal r) (\<lambda>(k, r).
     Option.bind (expect '':'' (skip_space r)) (\<lambda>r.
     Option.bind (parse_json n r) (\<lambda>(v, r).
       case skip_space r of
         [] \<Rightarrow> None
       | c # r \<Rightarrow>
           if c = CHR ''}'' then Some (JObject (put_field fs k v), r)
           else if c = CHR '','' then parse_object n (put_field fs k v) r
           else None))))"

section \<open>The library\<close>

fun elems :: "json \<Rightarrow> json list option" where
  "elems JNull = Some []"
| "elems (JArray vs) = Some vs"
| "elems _ = None"

fun members :: "json \<Rightarrow> (string \<rightharpoonup> json) option" where
  "members JNull = Some Map.empty"
| "members (JObject fs) = (if distinct (map fst fs) then Some (map_of fs) else None)"
| "members _ = None"

fun fields :: "json \<Rightarrow> (string \<times> json) list option" where
  "fields JNull = Some []"
| "fields (JObject fs) = Some fs"
| "fields _ = None"

fun as_text :: "json \<Rightarrow> string option" where
  "as_text JNull = Some []"
| "as_text (JString s) = Some s"
| "as_text (JBool b) = Some (if b then ''true'' else ''false'')"
| "as_text (JInt i) = Some (show_int i)"
| "as_text (JUint w) = Some (show_nat (unat w))"
| "as_text _ = None"

definition set_elem :: "json \<Rightarrow> nat \<Rightarrow> json \<Rightarrow> json option" where
  "set_elem v i w =
     map_option (\<lambda>vs. JArray ((vs @ replicate (Suc i - length vs) JNull)[i := w])) (elems v)"

definition put_member :: "json \<Rightarrow> string \<Rightarrow> json \<Rightarrow> json option" where
  "put_member v k w =
     map_option (\<lambda>fs. JObject (put_field fs k w)) (fields v)"

definition ref_json :: "json jsoncpp" where
  "ref_json = \<lparr>
     j_parse = (\<lambda>s. case parse_json (Suc (2 * length s)) s of
                  None \<Rightarrow> (False, JNull)
                | Some (v, r) \<Rightarrow> (True, v)),
     j_write = json_text,
     j_null = JNull,
     j_is_null = (\<lambda>v. v = JNull),
     j_bool = JBool,
     j_string = JString,
     j_int = JInt,
     j_uint = JUint,
     j_get = (\<lambda>v k. map_option (\<lambda>m. case m k of None \<Rightarrow> JNull | Some w \<Rightarrow> w) (members v)),
     j_get_or = (\<lambda>v k d. map_option (\<lambda>m. case m k of None \<Rightarrow> d | Some w \<Rightarrow> w) (members v)),
     j_put = put_member,
     j_size = (\<lambda>v. case elems v of Some vs \<Rightarrow> length vs
                 | None \<Rightarrow> (case fields v of Some fs \<Rightarrow> length fs | None \<Rightarrow> 0)),
     j_at = (\<lambda>v i. map_option (\<lambda>vs. if i < length vs then vs ! i else JNull) (elems v)),
     j_set = set_elem,
     j_as_string = as_text\<rparr>"

lemma fields_members:
  "members v = Some m \<Longrightarrow> \<exists>fs. fields v = Some fs \<and> m = map_of fs \<and> distinct (map fst fs)"
  by (cases v) (auto split: if_splits)

lemma put_field_map: "map_of (put_field fs k w) = (map_of fs)(k \<mapsto> w)"
proof
  fix x
  show "map_of (put_field fs k w) x = ((map_of fs)(k \<mapsto> w)) x"
    unfolding put_field_def by (induction fs) auto
qed

lemma put_field_distinct: "distinct (map fst fs) \<Longrightarrow> distinct (map fst (put_field fs k w))"
  by (auto simp: put_field_def distinct_map_filter)

interpretation ref_values: jsoncpp_values ref_json elems members
proof unfold_locales
  fix v w :: json and m k
  assume "members v = Some m"
  then show "\<exists>v'. j_put ref_json v k w = Some v' \<and> members v' = Some (m(k \<mapsto> w)) \<and> \<not> j_is_null ref_json v'"
    using fields_members [of v m]
    by (auto simp: ref_json_def put_member_def put_field_map put_field_distinct)
qed (auto simp: ref_json_def set_elem_def split: option.splits)

section \<open>Reading back what was written\<close>

definition sendable :: "string \<Rightarrow> bool" where
  "sendable s \<longleftrightarrow> (\<forall>c \<in> set s. c \<noteq> CHR 0x22 \<and> c \<noteq> CHR 0x5C \<and> 32 \<le> (of_char c :: nat))"

lemma literal_quoted: "sendable s \<Longrightarrow> literal (s @ CHR 0x22 # r) = Some (s, r)"
proof -
  assume "sendable s"
  then have "x \<noteq> CHR 0x22" if "x \<in> set s" for x using that by (auto simp: sendable_def)
  then have "takeWhile (\<lambda>c. c \<noteq> CHR 0x22) (s @ CHR 0x22 # r) = s"
    "dropWhile (\<lambda>c. c \<noteq> CHR 0x22) (s @ CHR 0x22 # r) = CHR 0x22 # r"
    by (auto intro: takeWhile_append_stop dropWhile_append_stop)
  then show ?thesis by (simp add: literal_def)
qed

lemma skip_none [simp]:
  "skip_space (CHR 0x22 # s) = CHR 0x22 # s" "skip_space (CHR '','' # s) = CHR '','' # s"
  "skip_space (CHR '']'' # s) = CHR '']'' # s" "skip_space (CHR ''['' # s) = CHR ''['' # s"
  "skip_space (CHR ''{'' # s) = CHR ''{'' # s" "skip_space (CHR ''}'' # s) = CHR ''}'' # s"
  "skip_space (CHR '':'' # s) = CHR '':'' # s" "skip_space (CHR ''n'' # s) = CHR ''n'' # s"
  "skip_space (CHR '' '' # s) = skip_space s"
  by (simp_all add: skip_space_def is_space_def)

lemma expect_here [simp]: "expect [c] (c # r) = Some r"
  by (simp add: expect_def)

lemma parse_quoted [simp]:
  "sendable s \<Longrightarrow> parse_json (Suc n) (CHR 0x22 # s @ CHR 0x22 # r) = Some (JString s, r)"
  by (simp add: literal_quoted)

text \<open>
  A value whose strings need no escape sequence and whose objects name no member twice is read
  back as it was written, unsigned numbers as plain ones.
\<close>

fun plain_json :: "json \<Rightarrow> bool" where
  "plain_json (JString s) = sendable s"
| "plain_json (JArray vs) = (\<forall>v \<in> set vs. plain_json v)"
| "plain_json (JObject fs) = (distinct (map fst fs) \<and> (\<forall>(k, v) \<in> set fs. sendable k \<and> plain_json v))"
| "plain_json _ = True"

fun read_back :: "json \<Rightarrow> json" where
  "read_back (JUint w) = JInt (uint w)"
| "read_back (JArray vs) = JArray (map read_back vs)"
| "read_back (JObject fs) = JObject (map (\<lambda>(k, v). (k, read_back v)) fs)"
| "read_back v = v"

lemma number_digits:
  assumes "r = [] \<or> \<not> is_digit (hd r)"
  shows "number (show_int i @ r) = Some (JInt i, r)"
  using assms read_int_digits [OF show_nat_nonempty show_nat_digits, where rest = r]
  by (auto simp: number_def show_int_def)

lemma json_text_start:
  obtains c t where "json_text v = c # t" "\<not> is_space c" "c \<noteq> CHR '']''"
proof -
  have "\<exists>c t. show_nat n = c # t \<and> is_digit c" for n
    using show_nat_nonempty [of n] show_nat_digits [of _ n] by (cases "show_nat n") auto
  then have "\<exists>c t. json_text v = c # t \<and> \<not> is_space c \<and> c \<noteq> CHR '']''"
  proof (cases v)
    case (JInt i)
    then show ?thesis using \<open>\<And>n. \<exists>c t. show_nat n = c # t \<and> is_digit c\<close> [of "nat i"] digit_not_space
      by (auto simp: show_int_def is_space_def is_digit_def)
  next
    case (JUint w)
    then show ?thesis using \<open>\<And>n. \<exists>c t. show_nat n = c # t \<and> is_digit c\<close> [of "unat w"] digit_not_space
      by (auto simp: is_digit_def)
  qed (auto simp: is_space_def json_quoted_def)
  then show thesis using that by blast
qed

lemma skip_text [simp]: "skip_space (json_text v @ r) = json_text v @ r"
  using json_text_start [of v] by (metis append_Cons dropWhile.simps(2) skip_space_def)

lemma parse_number:
  assumes "r = [] \<or> \<not> is_digit (hd r)"
  shows "parse_json (Suc n) (show_int i @ r) = Some (JInt i, r)"
proof -
  obtain c t where t: "show_int i = c # t" "is_digit c \<or> c = CHR ''-''"
    using show_nat_nonempty show_nat_digits unfolding show_int_def
    by (metis list.exhaust list.set_intros(1))
  then have "skip_space (show_int i @ r) = c # t @ r" "c \<notin> {CHR 0x22, CHR ''['', CHR ''{'', CHR ''n'', CHR ''t'', CHR ''f''}"
    by (auto simp: skip_space_def is_space_def is_digit_def)
  with number_digits [OF assms, of i] t(1) show ?thesis by simp
qed

lemma put_field_new: "k \<notin> set (map fst fs) \<Longrightarrow> put_field fs k w = fs @ [(k, w)]"
  unfolding put_field_def by (induction fs) auto

lemma json_text_length: "json_text v \<noteq> []"
  using json_text_start [of v] by (metis list.distinct(1))

lemma parse_written:
  "plain_json v \<Longrightarrow> length (json_text v) \<le> n \<Longrightarrow> r = [] \<or> \<not> is_digit (hd r) \<Longrightarrow>
     parse_json n (json_text v @ r) = Some (read_back v, r)"
  "\<forall>v \<in> set vs. plain_json v \<Longrightarrow> vs \<noteq> [] \<Longrightarrow> length (json_texts vs) < n \<Longrightarrow>
     parse_array n ws (json_texts vs @ CHR '']'' # r) = Some (JArray (ws @ map read_back vs), r)"
  "\<forall>(k, v) \<in> set fs. sendable k \<and> plain_json v \<Longrightarrow> fs \<noteq> [] \<Longrightarrow> length (json_fields fs) < n \<Longrightarrow>
     distinct (map fst (gs @ fs)) \<Longrightarrow>
     parse_object n gs (json_fields fs @ CHR ''}'' # r) =
       Some (JObject (gs @ map (\<lambda>(k, v). (k, read_back v)) fs), r)"
proof (induction v and vs and fs arbitrary: n r and n ws r and n gs r
    rule: json_text_json_texts_json_fields.induct)
  case 1
  then show ?case by (cases n) (auto simp: expect_def)
next
  case (2 b)
  then show ?case by (cases b; cases n) (auto simp: expect_def skip_space_def is_space_def)
next
  case (3 s)
  then show ?case by (cases n) (auto simp: json_quoted_def literal_quoted)
next
  case (4 i)
  then obtain m where "n = Suc m" using json_text_length [of "JInt i"] by (cases n) auto
  then show ?case using parse_number [OF 4(3)] by (simp del: parse_json.simps)
next
  case (5 w)
  then obtain m where "n = Suc m" using json_text_length [of "JUint w"] by (cases n) auto
  moreover have "show_nat (unat w) = show_int (uint w)" using show_int_nat [of "unat w"] by simp
  ultimately show ?case using parse_number [OF 5(3), of m "uint w"] by (simp del: parse_json.simps)
next
  case (6 vs)
  then obtain m where m: "n = Suc m" by (cases n) auto
  show ?case
  proof (cases "vs = []")
    case True
    then show ?thesis using m by simp
  next
    case False
    then obtain v ws where vs: "vs = v # ws" by (cases vs) auto
    obtain c t where t: "json_text v = c # t" "\<not> is_space c" "c \<noteq> CHR '']''" by (rule json_text_start)
    have "\<exists>t'. json_texts vs = c # t'" using t(1) vs by (cases ws) auto
    then obtain t' where t': "json_texts vs = c # t'" ..
    have "parse_array m [] (json_texts vs @ CHR '']'' # r) = Some (JArray ([] @ map read_back vs), r)"
      using 6 False m by simp
    moreover have "skip_space (c # x) = c # x" for x using t(2) by (simp add: skip_space_def)
    ultimately show ?thesis using m t' t(3) by simp
  qed
next
  case (7 fs)
  then obtain m where m: "n = Suc m" by (cases n) auto
  show ?case
  proof (cases "fs = []")
    case True
    then show ?thesis using m by simp
  next
    case False
    then obtain k v gs where fs: "fs = (k, v) # gs" by (cases fs) auto
    have "\<exists>t'. json_fields fs = CHR 0x22 # t'" using fs by (cases gs) (auto simp: json_quoted_def)
    then obtain t' where t': "json_fields fs = CHR 0x22 # t'" ..
    have "parse_object m [] (json_fields fs @ CHR ''}'' # r) =
        Some (JObject ([] @ map (\<lambda>(k, v). (k, read_back v)) fs), r)"
      using 7 False m by simp
    then show ?thesis using m t' by simp
  qed
next
  case 8
  then show ?case by simp
next
  case (9 v)
  then obtain m where m: "n = Suc m" by (cases n) auto
  have "parse_json m (json_text v @ CHR '']'' # r) = Some (read_back v, CHR '']'' # r)"
    using 9 m by (auto simp: is_digit_def)
  then show ?case using m by simp
next
  case (10 v w vs)
  then obtain m where m: "n = Suc m" by (cases n) auto
  have "parse_json m (json_text v @ CHR '','' # json_texts (w # vs) @ CHR '']'' # r) =
      Some (read_back v, CHR '','' # json_texts (w # vs) @ CHR '']'' # r)"
    using 10 m by (auto simp: is_digit_def)
  moreover have "length (json_text v) > 0" using json_text_length [of v] by simp
  then have "parse_array m (ws @ [read_back v]) (json_texts (w # vs) @ CHR '']'' # r) =
      Some (JArray ((ws @ [read_back v]) @ map read_back (w # vs)), r)"
    using 10 m by auto
  ultimately show ?case using m by simp
next
  case 11
  then show ?case by simp
next
  case (12 k v)
  then obtain m where m: "n = Suc m" by (cases n) auto
  have "parse_json m (json_text v @ CHR ''}'' # r) = Some (read_back v, CHR ''}'' # r)"
    using 12 m by (auto simp: is_digit_def)
  moreover have "put_field gs k (read_back v) = gs @ [(k, read_back v)]" using 12 by (intro put_field_new) simp
  ultimately show ?case using m 12 by (simp add: json_quoted_def literal_quoted)
next
  case (13 k v f fs)
  then obtain m where m: "n = Suc m" by (cases n) auto
  let ?rest = "json_fields (f # fs) @ CHR ''}'' # r"
  have "parse_json m (json_text v @ CHR '','' # ?rest) = Some (read_back v, CHR '','' # ?rest)"
    using 13 m by (auto simp: is_digit_def)
  moreover have "put_field gs k (read_back v) = gs @ [(k, read_back v)]"
    using 13 by (intro put_field_new) simp
  moreover have "parse_object m (gs @ [(k, read_back v)]) ?rest =
      Some (JObject ((gs @ [(k, read_back v)]) @ map (\<lambda>(k, v). (k, read_back v)) (f # fs)), r)"
    using 13 m by (auto simp: json_quoted_def)
  ultimately show ?case using m 13 by (simp add: json_quoted_def literal_quoted)
qed

lemma parse_whole:
  assumes "plain_json v"
  shows "j_parse ref_json (json_text v) = (True, read_back v)"
proof -
  have "parse_json (Suc (2 * length (json_text v))) (json_text v @ []) = Some (read_back v, [])"
    using assms by (intro parse_written(1)) simp_all
  then show ?thesis by (simp only: append_Nil2 ref_json_def jsoncpp.select_convs option.case prod.case)
qed

lemma parse_list_member:
  assumes "elems bl = Some (map JString ks)" "\<forall>k \<in> set ks. sendable k" "sendable key"
  shows "j_parse ref_json (j_write ref_json (JObject [(key, bl)])) = (True, JObject [(key, bl)])"
proof -
  have "plain_json (JObject [(key, bl)])" "read_back (JObject [(key, bl)]) = JObject [(key, bl)]"
    using assms by (cases bl; auto)+
  from parse_whole [OF this(1)] this(2) show ?thesis by (simp add: ref_json_def)
qed

lemma one_member:
  assumes "members v = Some [key \<mapsto> l]"
  shows "v = JObject [(key, l)]"
proof -
  obtain fs where fs: "fields v = Some fs" "map_of fs = [key \<mapsto> l]" "distinct (map fst fs)"
    using fields_members [OF assms] by metis
  then have "set (map fst fs) = {key}" using dom_map_of_conv_image_fst [of fs] by simp
  then have "length fs = Suc 0" using distinct_card [OF fs(3)] by simp
  then obtain x where "fs = [x]" by (auto simp: length_Suc_conv)
  with fs have "fs = [(key, l)]" by (cases x) (auto simp: fun_eq_iff split: if_splits)
  then show ?thesis using fs(1) by (cases v) auto
qed

lemma read_pair:
  assumes "sendable a" "sendable b" "sendable v" "sendable w"
  shows "j_parse ref_json (pair_message a v b w) = (True, JObject (put_field [(a, JString v)] b (JString w)))"
proof -
  let ?t = "pair_message a v b w"
  obtain n where n: "2 * length ?t = Suc (Suc (Suc (Suc n)))"
    by (cases "2 * length ?t"; cases "2 * length ?t - 1"; cases "2 * length ?t - 2"; cases "2 * length ?t - 3")
      (auto simp: pair_message_def)
  have "parse_json (Suc (2 * length ?t)) ?t = Some (JObject (put_field [(a, JString v)] b (JString w)), [])"
    unfolding n using assms by (simp add: pair_message_def literal_quoted put_field_def)
  then show ?thesis by (simp only: ref_json_def jsoncpp.select_convs option.case prod.case)
qed

interpretation ref_text: jsoncpp_text ref_json elems members sendable
proof unfold_locales
  fix v l key ks
  assume a: "members v = Some [key \<mapsto> l]" "sendable key" "elems l = Some (map (j_string ref_json) ks)"
    "\<forall>k \<in> set ks. sendable k"
  have l: "elems l = Some (map JString ks)" using a(3) by (simp add: ref_json_def)
  have v: "v = JObject [(key, l)]" by (rule one_member [OF a(1)])
  have "l = JNull \<longrightarrow> ks = []" using l by auto
  with parse_list_member [OF l a(4,2)] l show "\<exists>v' l'. j_parse ref_json (j_write ref_json v) = (True, v') \<and>
      members v' = Some [key \<mapsto> l'] \<and> elems l' = Some (map (j_string ref_json) ks) \<and>
      (j_is_null ref_json l' \<longrightarrow> ks = [])"
    unfolding v by (intro exI [of _ "JObject [(key, l)]"] exI [of _ l]) (simp add: ref_json_def)
next
  fix a b v w :: string
  assume "sendable a" "sendable b" "a \<noteq> b" "sendable v" "sendable w"
  with read_pair [of a b v w] show "\<exists>root. j_parse ref_json (pair_message a v b w) = (True, root) \<and>
      members root = Some [a \<mapsto> j_string ref_json v, b \<mapsto> j_string ref_json w]"
    by (auto simp: put_field_def ref_json_def fun_upd_twist)
qed

end
