(* ===== verification/Samples.thy ===== *)
theory Samples
  imports Meta_Invariant Ref_Mysql Ref_Json
begin

text \<open>
  Concrete requests and databases on which the properties are exercised, and the
  interpretation of \<open>metadata\<close> on the reference server and the reference JSON library.
\<close>

interpretation ref_metadata:
  metadata ref_json elems members ref_mysql ref_tables ref_result "(=)" ref_open ..

section \<open>Requests\<close>

text \<open>A request with a body, and one with a query string only; NUL bytes follow the buffer.\<close>

definition post_request :: "string \<Rightarrow> request" where
  "post_request body =
     \<lparr>content_length = Some (show_nat (length body)), query_string = None,
      stdin_bytes = body, memory_after = [nul]\<rparr>"

definition ask_request :: "string \<Rightarrow> request" where
  "ask_request q =
     \<lparr>content_length = Some ''0'', query_string = Some q, stdin_bytes = [], memory_after = [nul]\<rparr>"

definition commit_body :: "string \<Rightarrow> string \<Rightarrow> string list \<Rightarrow> nat \<Rightarrow> string" where
  "commit_body u f hs v = json_text (JObject
     [(''user_id'', JString u), (''file_name'', JString f), (''block_list'', JArray (map JString hs)),
      (''version'', JString (show_nat v))])"

lemma gstdin_post:
  assumes "length b \<le> STDIN_MAX"
  shows "gstdin STDIN_MAX (post_request b) = (Some b, length b)"
proof -
  have "length b < 2 ^ 63" using assms by (simp add: STDIN_MAX_def)
  with gstdin_exact [of "post_request b" "length b" STDIN_MAX] assms show ?thesis
    by (simp add: post_request_def show_int_nat)
qed

lemma response_body_post:
  assumes "length b \<le> STDIN_MAX" "nul \<notin> set b"
  shows "response_body (post_request b) = Inr b"
  using gstdin_post [OF assms(1)] string_of_ptr_terminated [OF assms(2), of "[]"]
  by (simp add: response_body_def post_request_def)

lemma response_body_ask: "response_body (ask_request q) = Inr []"
proof -
  have "strtol ''0'' = (0, [])" by code_simp
  then show ?thesis
    by (simp add: response_body_def ask_request_def gstdin_def Let_def to_size_def string_of_ptr_def c_str_def)
qed

lemma asks_ask_request:
  "asks (ask_request q) ps \<longleftrightarrow> (\<forall>(k, v) \<in> set ps. getQueryParam q k [] = Inr (0, v))"
  by (simp add: asks_def response_body_ask) (simp add: ask_request_def)

lemma asks_values:
  assumes "short q" "list_all (\<lambda>(k, v). CHR ''='' \<notin> set k \<and> query_value k q = Some v) ps"
  shows "asks (ask_request q) ps"
  using assms by (auto simp: asks_ask_request list_all_iff getQueryParam_query_value)

lemma posts_post_request:
  assumes "length b \<le> STDIN_MAX" "b \<noteq> []" "nul \<notin> set b" "j_parse ref_json b = (True, v)" "members v = Some m"
  shows "posts ref_json members (post_request b) m"
  using gstdin_post [OF assms(1)] response_body_post [OF assms(1,3)] assms(2,4,5)
  by (simp add: posts_def)

section \<open>Sample data\<close>

definition sample_body :: string where
  "sample_body = commit_body ''ann'' ''notes'' [''h0'', ''h1''] 0"

definition sample_object :: json where
  "sample_object = JObject
     [(''user_id'', JString ''ann''), (''file_name'', JString ''notes''),
      (''block_list'', JArray [JString ''h0'', JString ''h1'']), (''version'', JString ''0'')]"

lemma sample_parse: "j_parse ref_json sample_body = (True, sample_object)"
  by code_simp

lemma sample_body_ok: "length sample_body \<le> STDIN_MAX" "sample_body \<noteq> []" "nul \<notin> set sample_body"
proof -
  show "nul \<notin> set sample_body" by code_simp
qed (simp_all add: sample_body_def commit_body_def json_quoted_def STDIN_MAX_def show_nat.simps)

lemma sample_posts:
  "posts ref_json members (post_request sample_body)
     [''user_id'' \<mapsto> JString ''ann'', ''file_name'' \<mapsto> JString ''notes'',
      ''block_list'' \<mapsto> JArray [JString ''h0'', JString ''h1''], ''version'' \<mapsto> JString ''0'']"
  by (rule posts_post_request [OF sample_body_ok sample_parse])
    (auto simp: sample_object_def fun_eq_iff)

definition sample_files :: files where
  "sample_files = (\<lambda>u f. if u = ''ann'' \<and> f = ''notes'' then ([''h0'', ''h1''], 0) else ([], 0))"

definition sample_server :: ref_server where
  "sample_server = ref_empty\<lparr>ref_open := True, ref_blocks :=
     [\<lparr>fb_user = ''ann'', fb_file = ''notes'', fb_hash = ''h0'', fb_num = 0, fb_time = 0, fb_version = Some 0\<rparr>,
      \<lparr>fb_user = ''ann'', fb_file = ''notes'', fb_hash = ''h1'', fb_num = 1, fb_time = 1, fb_version = Some 0\<rparr>],
     ref_caches := [\<lparr>uc_user = ''ann'', uc_cache = ''10.0.0.1''\<rparr>]\<rparr>"

lemma sample_held:
  "holds_file (file_rows (=) ''ann'' ''notes'' (ref_tables sample_server)) ''ann'' ''notes'' [''h0'', ''h1''] 0"
  by (simp add: sample_server_def ref_empty_def ref_tables_def file_rows_def
      same_file_def holds_file_def untimed_def block_row_def upt_rec)

lemma sample_represents: "represents (=) (ref_tables sample_server) sample_files"
  unfolding represents_def
proof (intro allI)
  fix u f
  show "\<exists>u0 f0. holds_file (file_rows (=) u f (ref_tables sample_server)) u0 f0 (fst (sample_files u f))
          (snd (sample_files u f)) \<and> snd (sample_files u f) < 2 ^ 32 \<and>
        (fst (sample_files u f) = [] \<longrightarrow> snd (sample_files u f) = 0)"
  proof (cases "u = ''ann'' \<and> f = ''notes''")
    case True
    with sample_held show ?thesis by (auto simp: sample_files_def)
  next
    case False
    then show ?thesis
      by (auto simp: sample_files_def sample_server_def ref_empty_def ref_tables_def file_rows_def
          same_file_def)
  qed
qed

lemma empty_represents: "represents (=) (ref_tables ref_empty) (\<lambda>u f. ([], 0))"
  by (simp add: represents_def ref_empty_def ref_tables_def file_rows_def)

lemma sample_names: "name_ok ''ann''" "name_ok ''bob''" "name_ok ''notes''" "hash_ok ''h0''" "hash_ok ''h1''" "hash_ok ''h2''"
  "clean ''ann''" "clean ''notes''"
  by (simp_all add: name_ok_def hash_ok_def clean_def printable_def)

lemma sample_commit_fields:
  "commit_fields ref_json elems
     [''user_id'' \<mapsto> JString ''ann'', ''file_name'' \<mapsto> JString ''notes'',
      ''block_list'' \<mapsto> JArray [JString ''h0'', JString ''h1''], ''version'' \<mapsto> JString ''0'']
     ''ann'' ''notes'' [''h0'', ''h1''] ''0''"
  by (simp add: commit_fields_def ref_json_def)

lemma sample_version [simp]: "commit_version ''0'' = 0"
  by code_simp

lemma sample_commit_ok: "op_ok (Commit ''ann'' ''notes'' [''h0'', ''h1''] (commit_version ''0''))"
  by (simp add: sample_names)

lemma sample_commit_steps:
  "fst (spec_step (=) (\<lambda>u f. ([], 0)) (Commit ''ann'' ''notes'' [''h0'', ''h1''] (commit_version ''0''))) = sample_files"
  "fst (spec_step (=) sample_files (Commit ''ann'' ''notes'' [''h0'', ''h1''] (commit_version ''0''))) = sample_files"
  by (auto simp: accepts_def set_file_def stamped_def sample_files_def fun_eq_iff)

lemma sample_request_ok: "request_ok ref_json (W_file_commit, post_request sample_body)"
proof -
  have "response_body (post_request sample_body) = Inr sample_body"
    by (rule response_body_post) (use sample_body_ok in auto)
  then have "body_ok ref_json (post_request sample_body)"
    using sample_parse sample_names
    by (auto simp: body_ok_def get_def as_string_def jsonToString_def upt_rec sample_object_def ref_json_def)
  then show ?thesis by simp
qed

end
