(* ===== verification/Ref_Client.thy ===== *)
theory Ref_Client
  imports Client_Contract Samples Cache_Contract
begin

text \<open>
  The client's side of the reference system: JSON values of Python and of the reference library
  translated into one another, a simple hash function, and the interpretation of
  \<open>json_exchange\<close>.
\<close>

section \<open>JSON on both sides\<close>

fun py_of :: "json \<Rightarrow> py" where
  "py_of JNull = PNone"
| "py_of (JBool b) = PBool b"
| "py_of (JString s) = PStr s"
| "py_of (JInt i) = PInt i"
| "py_of (JUint w) = PInt (uint w)"
| "py_of (JArray vs) = PList (map py_of vs)"
| "py_of (JObject fs) = PDict (map (\<lambda>(k, v). (k, py_of v)) fs)"

fun json_of :: "py \<Rightarrow> json" where
  "json_of PNone = JNull"
| "json_of (PBool b) = JBool b"
| "json_of (PStr s) = JString s"
| "json_of (PInt i) = JInt i"
| "json_of (PList vs) = JArray (map json_of vs)"
| "json_of (PDict d) = JObject (map (\<lambda>(k, v). (k, json_of v)) d)"

definition ref_loads :: "string \<Rightarrow> py option" where
  "ref_loads s = (case j_parse ref_json s of (ok, v) \<Rightarrow> if ok then Some (py_of v) else None)"

definition ref_dumps :: "(string \<times> py) list \<Rightarrow> string" where
  "ref_dumps d = json_text (json_of (PDict d))"

text \<open>A digit for every byte, in place of SHA-256.\<close>

definition ref_sha :: "string \<Rightarrow> string" where
  "ref_sha v = take 64 (map (\<lambda>c. digit_char (of_char c mod 10)) v)"

lemma same_keys [simp]: "map (fst \<circ> (\<lambda>(k, v). (k, h v))) fs = map fst fs"
  by auto

lemma py_of_read_back: "py_of (read_back v) = py_of v"
  by (induction v) auto

lemma plain_json_py: "sendable_py sendable (py_of v) \<Longrightarrow> plain_json v"
proof (induction v)
  case (JObject fs)
  have "sendable k \<and> plain_json v" if "(k, v) \<in> set fs" for k v
  proof -
    have "(k, py_of v) \<in> set (map (\<lambda>(k, v). (k, py_of v)) fs)" using that by force
    with JObject.prems have "sendable k \<and> sendable_py sendable (py_of v)" by auto
    with JObject.IH [OF that, of v] show ?thesis by simp
  qed
  with JObject.prems show ?case by auto
qed auto

lemma plain_json_of: "sendable_py sendable p \<Longrightarrow> plain_json (json_of p)"
proof (induction p)
  case (PDict d)
  have "sendable k \<and> plain_json (json_of v)" if "(k, v) \<in> set d" for k v
    using PDict.IH [OF that, of v] PDict.prems that by auto
  with PDict.prems show ?case by auto
qed auto

lemma ref_loads_text: "plain_json v \<Longrightarrow> ref_loads (json_text v) = Some (py_of v)"
  by (simp add: ref_loads_def parse_whole py_of_read_back)

text \<open>The text of a plain value has no NUL byte.\<close>

lemma not_nul:
  "nul \<noteq> CHR ''n''" "nul \<noteq> CHR ''u''" "nul \<noteq> CHR ''l''" "nul \<noteq> CHR ''t''" "nul \<noteq> CHR ''r''" "nul \<noteq> CHR ''e''"
  "nul \<noteq> CHR ''f''" "nul \<noteq> CHR ''a''" "nul \<noteq> CHR ''s''" "nul \<noteq> CHR ''[''" "nul \<noteq> CHR '']''" "nul \<noteq> CHR ''{''"
  "nul \<noteq> CHR ''}''" "nul \<noteq> CHR '':''" "nul \<noteq> CHR '',''" "nul \<noteq> CHR 0x22"
  by (simp_all add: nul_def)

lemma sendable_nul: "sendable s \<Longrightarrow> nul \<notin> set s"
  by (force simp: sendable_def nul_def)

lemma json_text_nul:
  "plain_json v \<Longrightarrow> nul \<notin> set (json_text v)"
  "\<forall>v \<in> set vs. plain_json v \<Longrightarrow> nul \<notin> set (json_texts vs)"
  "\<forall>(k, v) \<in> set fs. sendable k \<and> plain_json v \<Longrightarrow> nul \<notin> set (json_fields fs)"
proof (induction v and vs and fs rule: json_text_json_texts_json_fields.induct)
  case (5 w)
  have "show_nat (unat w) = show_int (uint w)" using show_int_nat [of "unat w"] by simp
  then show ?case using nul_notin_show_int [of "uint w"] by simp
qed (simp_all add: json_quoted_def not_nul sendable_nul)

lemma members_map:
  assumes "members v = Some m" "m \<noteq> Map.empty"
  shows "\<exists>d. py_of v = PDict d \<and> distinct (map fst d) \<and> (\<forall>k. map_of d k = map_option py_of (m k))"
proof (cases v)
  case (JObject fs)
  then have m: "distinct (map fst fs)" "m = map_of fs" using assms(1) by (simp_all split: if_splits)
  with m JObject show ?thesis by (auto simp: map_of_map)
qed (use assms in simp_all)

interpretation ref_exchange: json_exchange ref_json elems members sendable ref_loads ref_dumps py_of
proof unfold_locales
  fix v vs
  assume "elems v = Some vs" "vs \<noteq> []"
  then show "py_of v = PList (map py_of vs)" by (cases v) auto
next
  fix v
  assume "sendable_py sendable (py_of v)"
  then show "ref_loads (j_write ref_json v) = Some (py_of v)"
    using ref_loads_text [OF plain_json_py] by (simp add: ref_json_def)
next
  fix d
  assume d: "sendable_py sendable (PDict d)"
    "\<forall>v \<in> snd ` set d. (\<exists>s. v = PStr s) \<or> (\<exists>ss. v = PList (map PStr ss))"
  let ?fs = "map (\<lambda>(k, v). (k, json_of v)) d"
  have plain: "plain_json (JObject ?fs)" using plain_json_of [OF d(1)] by simp
  have "read_back (json_of v) = json_of v" if "v \<in> snd ` set d" for v
    using d(2) that by (auto simp: comp_def)
  then have same: "read_back (JObject ?fs) = JObject ?fs" by force
  have dist: "distinct (map fst ?fs)" using d(1) by (simp add: comp_def case_prod_unfold)
  have dumps: "ref_dumps d = json_text (JObject ?fs)" by (simp add: ref_dumps_def)
  have parse: "j_parse ref_json (ref_dumps d) = (True, JObject ?fs)"
    using parse_whole [OF plain] same dumps by simp
  have look: "map_of ?fs k = map_option json_of (map_of d k)" for k by (simp add: map_of_map)
  show "ref_dumps d \<noteq> [] \<and> nul \<notin> set (ref_dumps d) \<and>
      (\<exists>root m. j_parse ref_json (ref_dumps d) = (True, root) \<and> members root = Some m \<and>
        (\<forall>k s. map_of d k = Some (PStr s) \<longrightarrow> m k = Some (j_string ref_json s)) \<and>
        (\<forall>k ss. map_of d k = Some (PList (map PStr ss)) \<longrightarrow>
           (\<exists>a. m k = Some a \<and> \<not> j_is_null ref_json a \<and> elems a = Some (map (j_string ref_json) ss))))"
  proof (intro conjI exI)
    show "ref_dumps d \<noteq> []" unfolding dumps by (rule json_text_length)
    show "nul \<notin> set (ref_dumps d)" unfolding dumps by (rule json_text_nul(1) [OF plain])
    show "j_parse ref_json (ref_dumps d) = (True, JObject ?fs)" by (rule parse)
    show "members (JObject ?fs) = Some (map_of ?fs)" using dist by simp
  qed (auto simp: look ref_json_def comp_def)
qed (simp_all add: ref_json_def members_map)

text \<open>The length of what the client writes.\<close>

lemma strings_length: "\<forall>s \<in> set ss. length s \<le> 64 \<Longrightarrow> length (json_texts (map JString ss)) \<le> 67 * length ss"
  by (induction ss rule: induct_list012) (auto simp: json_quoted_def)

lemma ref_dumps_length:
  assumes "\<forall>h \<in> set hs. length h \<le> 64"
  shows "length (ref_dumps (query_fields u f hs)) \<le> length u + length f + 67 * length hs + 60"
    "length (ref_dumps (query_fields u f hs @ [(''version'', PStr vt)])) \<le>
       length u + length f + length vt + 67 * length hs + 80"
  using strings_length [OF assms]
  by (simp_all add: ref_dumps_def query_fields_def json_quoted_def comp_def)

lemma ref_sha_length: "length (ref_sha v) \<le> 64"
  by (simp add: ref_sha_def)

end
