(* ===== verification/Helper_Test.thy ===== *)
theory Helper_Test
  imports Mysql_Helper Ref_Mysql
begin

text \<open>
  \<open>metadata/test/mysql_helper_test.cc\<close>, the test program of \<open>MySQLHelper\<close>, and the rows of
  \<open>metadata/scripts/insert_test_rows.sql\<close> it runs on. A test returns 0 when it passes; what
  it prints along the way is left out. An unsigned version the test never assigns starts at
  the value \<open>junk\<close>.
\<close>

section \<open>The tests\<close>

definition hash_a :: string where
  "hash_a = ''aaf02993af40bf0c8ab083519af47b0d3c5af5110b72d4a3eaea2df0c765264d''"
definition hash_b :: string where
  "hash_b = ''4a8d881b5d8f7fed33b1f5a6cd0e289ed6d801bd32dbb74bc3feeef8b2eceb3e''"
definition hash_c :: string where
  "hash_c = ''c7c084318b6f1bece6f74ffce1ea53596070345272dee8040037497c7d4cbffe''"
definition hash_d :: string where
  "hash_d = ''9f86d081884c7d659a2feaa0c55ad015a3bf4f1b2b0b822cd15d6c15b0f00a08''"
definition hash_e :: string where
  "hash_e = ''ffa63583dfa6706b87d284b86b0d693a161e4840aad2c5cf6b5d27c3b9621f7d''"
definition hash_f :: string where
  "hash_f = ''c7c084318b6f1bece6f74ffce1ea53596070345272dee8040037497c7d4cbfff''"

definition test_file_list :: "'c mysql_api \<Rightarrow> bool \<Rightarrow> 32 word \<Rightarrow> 'c \<Rightarrow> ('c \<times> int) exec" where
  "test_file_list M h junk c =
     bind_exec (getFileBlockList M h c ''steven'' ''testfile'' [] junk) (\<lambda>(c, s, hashes, version).
     Inr (c, if s \<noteq> 0 then - 1 else 0))"

definition test_file_update :: "'c mysql_api \<Rightarrow> bool \<Rightarrow> 32 word \<Rightarrow> 'c \<Rightarrow> ('c \<times> int) exec" where
  "test_file_update M h junk c =
     (let hashes = [hash_a, hash_b] in
      bind_exec (updateFileData M h c ''steven'' ''newfile'' hashes 0) (\<lambda>(c, s).
      if s \<noteq> 0 then Inr (c, - 1)
      else
        bind_exec (getFileBlockList M h c ''steven'' ''newfile'' hashes junk) (\<lambda>(c, s, hashes, version).
        Inr (c, if s \<noteq> 0 then - 1 else 0))))"

definition test_missing_block_hashes :: "'c mysql_api \<Rightarrow> bool \<Rightarrow> 'c \<Rightarrow> ('c \<times> int) exec" where
  "test_missing_block_hashes M h c =
     bind_exec (getMissingBlockHashes M h c [hash_c, hash_d, hash_e] []) (\<lambda>(c, s, missingHashes).
     Inr (c, if s \<noteq> 0 then - 1 else if length missingHashes \<noteq> 1 then - 1 else 0))"

definition test_get_recent_first_hashes :: "'c mysql_api \<Rightarrow> bool \<Rightarrow> 'c \<Rightarrow> ('c \<times> int) exec" where
  "test_get_recent_first_hashes M h c =
     bind_exec (getRecentFirstHashes M h c ''steven'' 4 []) (\<lambda>(c, s, hashes).
     Inr (c, if s \<noteq> 0 then - 1 else 0))"

definition test_get_user_file_names :: "'c mysql_api \<Rightarrow> bool \<Rightarrow> 'c \<Rightarrow> ('c \<times> int) exec" where
  "test_get_user_file_names M h c =
     bind_exec (getUserFileNames M h c ''steven'' [] []) (\<lambda>(c, s, fileNames, versions).
     Inr (c, if s \<noteq> 0 then - 1 else 0))"

definition test_get_caches :: "'c mysql_api \<Rightarrow> bool \<Rightarrow> 'c \<Rightarrow> ('c \<times> int) exec" where
  "test_get_caches M h c =
     bind_exec (getCaches M h c ''steven'' 10 []) (\<lambda>(c, s, caches).
     Inr (c, if s \<noteq> 0 then - 1 else 0))"

definition test_remove_cache :: "'c mysql_api \<Rightarrow> bool \<Rightarrow> 'c \<Rightarrow> ('c \<times> int) exec" where
  "test_remove_cache M h c =
     bind_exec (removeCache M h c ''steven'' ''10.1.1.1'') (\<lambda>(c, s).
     if s \<noteq> 0 then Inr (c, - 1)
     else
       bind_exec (getCaches M h c ''steven'' 10 []) (\<lambda>(c, _, caches).
       Inr (c, if caches \<noteq> [] then - 1 else 0)))"

definition test_remove_file :: "'c mysql_api \<Rightarrow> bool \<Rightarrow> 32 word \<Rightarrow> 'c \<Rightarrow> ('c \<times> int) exec" where
  "test_remove_file M h junk c =
     bind_exec (removeFile M h c ''steven'' ''testfile'') (\<lambda>(c, s).
     if s \<noteq> 0 then Inr (c, - 1)
     else
       bind_exec (getFileBlockList M h c ''steven'' ''testfile'' [] junk) (\<lambda>(c, _, fileHashes, _).
       Inr (c, if fileHashes \<noteq> [] then - 1 else 0)))"

definition test_add_cache :: "'c mysql_api \<Rightarrow> bool \<Rightarrow> 'c \<Rightarrow> ('c \<times> int) exec" where
  "test_add_cache M h c =
     bind_exec (addCache M h c ''testuser'' ''127.0.0.1'') (\<lambda>(c, s).
     if s \<noteq> 0 then Inr (c, - 1)
     else
       bind_exec (getCaches M h c ''testuser'' 10 []) (\<lambda>(c, _, ipAddrs).
       Inr (c, if ipAddrs = [] then - 1 else 0)))"

text \<open>\<open>main\<close> counts the tests that fail; without a connection it runs none.\<close>

fun run_tests :: "('c \<Rightarrow> ('c \<times> int) exec) list \<Rightarrow> 'c \<Rightarrow> int \<Rightarrow> ('c \<times> int) exec" where
  "run_tests [] c failed = Inr (c, failed)"
| "run_tests (t # ts) c failed =
     bind_exec (t c) (\<lambda>(c, s). run_tests ts c (if s \<noteq> 0 then failed + 1 else failed))"

definition helper_test_main :: "'c mysql_api \<Rightarrow> 32 word \<Rightarrow> 'c \<Rightarrow> ('c \<times> int) exec" where
  "helper_test_main M junk c =
     (case connect M c of (c, h, e) \<Rightarrow>
        if e \<noteq> 0 then Inr (c, 1)
        else
          bind_exec (run_tests
            [test_file_list M h junk, test_file_update M h junk, test_missing_block_hashes M h,
             test_get_recent_first_hashes M h, test_get_user_file_names M h, test_get_caches M h,
             test_remove_cache M h, test_remove_file M h junk, test_add_cache M h] c 0) (\<lambda>(c, failed).
          case close M c of (c, s) \<Rightarrow> Inr (c, if s = 0 then failed else failed + 1)))"

section \<open>The rows they run on\<close>

definition seed_row :: "string \<Rightarrow> string \<Rightarrow> string \<Rightarrow> nat \<Rightarrow> fb_row" where
  "seed_row u f h i =
     \<lparr>fb_user = u, fb_file = f, fb_hash = h, fb_num = i, fb_time = 0, fb_version = Some 0\<rparr>"

definition seeded :: ref_server where
  "seeded = ref_empty\<lparr>
     ref_blocks := [seed_row ''steven'' ''testfile'' hash_c 0, seed_row ''steven'' ''testfile'' hash_f 1,
                    seed_row ''smartguy'' ''dumbfile'' hash_d 0],
     ref_caches := [\<lparr>uc_user = ''smartguy'', uc_cache = ''127.0.0.1''\<rparr>,
                    \<lparr>uc_user = ''steven'', uc_cache = ''10.1.1.1''\<rparr>]\<rparr>"

end
