(* ===== verification/Commit_Race.thy ===== *)
theory Commit_Race
  imports Metadata_Spec
begin

text \<open>
  Two workers that commit at the same time: each has a connection of its own, and the server runs
  the statements of both in some order. The operation of one worker is run here against the server
  with a complete operation of the other one in between, before the statement of a given number.
\<close>

section \<open>A server another worker uses too\<close>

text \<open>
  \<open>rc_state\<close>: the server; \<open>rc_next\<close>: the number of the next statement; \<open>rc_other\<close>: how the
  operations of the other worker ended. The rows of a \<open>SELECT\<close> are fetched to the client before
  its next statement, so nothing is pending when the other worker comes in, and one state of the
  library can serve both connections.
\<close>

record 'c race =
  rc_state :: 'c
  rc_next :: nat
  rc_other :: "int exec list"

definition start_race :: "'c \<Rightarrow> 'c race" where
  "start_race c = \<lparr>rc_state = c, rc_next = 0, rc_other = []\<rparr>"

definition run_other :: "('c \<Rightarrow> ('c \<times> int) exec) \<Rightarrow> 'c race \<Rightarrow> 'c race" where
  "run_other other r =
     (case other (rc_state r) of
        Inl e \<Rightarrow> r\<lparr>rc_other := rc_other r @ [Inl e]\<rparr>
      | Inr (c, s) \<Rightarrow> r\<lparr>rc_state := c, rc_other := rc_other r @ [Inr s]\<rparr>)"

definition come_in :: "nat \<Rightarrow> ('c \<Rightarrow> ('c \<times> int) exec) \<Rightarrow> 'c race \<Rightarrow> 'c race" where
  "come_in n other r = (if rc_next r = n then run_other other r else r)"

definition interleaved :: "'c mysql_api \<Rightarrow> nat \<Rightarrow> ('c \<Rightarrow> ('c \<times> int) exec) \<Rightarrow> 'c race mysql_api" where
  "interleaved M n other = \<lparr>
     my_init = (\<lambda>r. case my_init M (rc_state r) of (c, h) \<Rightarrow> (r\<lparr>rc_state := c\<rparr>, h)),
     my_real_connect = (\<lambda>r host user pass db port.
       case my_real_connect M (rc_state r) host user pass db port of (c, ok) \<Rightarrow> (r\<lparr>rc_state := c\<rparr>, ok)),
     my_errno = (\<lambda>h r. my_errno M h (rc_state r)),
     my_query = (\<lambda>r q. let r = come_in n other r in
       case my_query M (rc_state r) q of (c, e) \<Rightarrow> (r\<lparr>rc_state := c, rc_next := Suc (rc_next r)\<rparr>, e)),
     my_store_result = (\<lambda>r. case my_store_result M (rc_state r) of (c, rs) \<Rightarrow> (r\<lparr>rc_state := c\<rparr>, rs)),
     my_close = (\<lambda>r. r\<lparr>rc_state := my_close M (rc_state r)\<rparr>),
     my_unset_null = (\<lambda>r. my_unset_null M (rc_state r))\<rparr>"

lemma start_race_simps [simp]: "rc_state (start_race c) = c" "rc_next (start_race c) = 0" "rc_other (start_race c) = []"
  by (simp_all add: start_race_def)

lemma come_in_away: "rc_next r \<noteq> n \<Longrightarrow> come_in n other r = r"
  by (simp add: come_in_def)

lemma come_in_at:
  assumes "rc_next r = n" "other (rc_state r) = Inr (c, s)"
  shows "rc_state (come_in n other r) = c" "rc_next (come_in n other r) = n"
    "rc_other (come_in n other r) = rc_other r @ [Inr s]"
  using assms by (simp_all add: come_in_def run_other_def)

section \<open>The operations on it\<close>

lemma run_statement_interleaved:
  "run_statement (interleaved M n other) h r q =
    (let r = come_in n other r in
     bind_exec (run_statement M h (rc_state r) q)
       (\<lambda>(c, e). Inr (r\<lparr>rc_state := c, rc_next := Suc (rc_next r)\<rparr>, e)))"
  by (simp add: run_statement_def interleaved_def Let_def split: prod.split)

lemma fetch_rows_interleaved:
  "fetch_rows (interleaved M n other) h r q =
    (let r = come_in n other r in
     bind_exec (fetch_rows M h (rc_state r) q)
       (\<lambda>(c, rs). Inr (r\<lparr>rc_state := c, rc_next := Suc (rc_next r)\<rparr>, rs)))"
proof -
  let ?r = "come_in n other r"
  obtain c k where q: "my_query M (rc_state ?r) (c_str q) = (c, k)" by (cases "my_query M (rc_state ?r) (c_str q)")
  obtain c' rs where s: "my_store_result M c = (c', rs)" by (cases "my_store_result M c")
  show ?thesis using q s by (cases rs) (simp_all add: fetch_rows_def interleaved_def Let_def)
qed

text \<open>Once the other worker is done the operation runs as if it were alone.\<close>

lemma insert_blocks_after:
  assumes "n < rc_next r" "insert_blocks M h (rc_state r) u f i hs v = Inr (c, e)"
  shows "\<exists>r'. insert_blocks (interleaved M n other) h r u f i hs v = Inr (r', e) \<and>
    rc_state r' = c \<and> rc_other r' = rc_other r"
  using assms
proof (induction hs arbitrary: r i)
  case (Cons x xs)
  let ?q = "''INSERT INTO FileBlock(user_id, file_name, block_hash, block_number, version) VALUES('' @
    quoted u @ '','' @ quoted f @ '','' @ quoted x @ '','' @
    MySQLHelper_intToStr (to_int (int i)) @ '','' @ MySQLHelper_intToStr (sint v) @ '')''"
  from Cons.prems(2) obtain c1 e1 where q: "run_statement M h (rc_state r) ?q = Inr (c1, e1)"
    "if e1 \<noteq> 0 then c = c1 \<and> e = e1 else insert_blocks M h c1 u f (Suc i) xs v = Inr (c, e)"
    by (auto simp: bind_exec_eq_Inr simp del: MySQLHelper_intToStr_def split: if_splits)
  let ?r = "r\<lparr>rc_state := c1, rc_next := Suc (rc_next r)\<rparr>"
  have s: "run_statement (interleaved M n other) h r ?q = Inr (?r, e1)"
    using q(1) Cons.prems(1) unfolding run_statement_interleaved by (simp add: come_in_away)
  show ?case
  proof (cases "e1 = 0")
    case True
    with Cons.IH [of ?r "Suc i"] q(2) Cons.prems(1) s show ?thesis by (simp del: MySQLHelper_intToStr_def)
  next
    case False
    with q(2) s show ?thesis by (simp del: MySQLHelper_intToStr_def)
  qed
qed auto

lemma replace_blocks_meets:
  assumes "n \<le> rc_next r" "replace_blocks M h (rc_state (come_in n other r)) u f hs v = Inr (c, e)"
  shows "\<exists>r'. replace_blocks (interleaved M n other) h r u f hs v = Inr (r', e) \<and>
    rc_state r' = c \<and> rc_other r' = rc_other (come_in n other r)"
proof -
  let ?r = "come_in n other r" and ?q = "''DELETE FROM FileBlock WHERE '' @ file_clause u f"
  have step: "rc_next ?r = rc_next r" by (simp add: come_in_def run_other_def split: sum.split prod.split)
  obtain c1 e1 where q: "run_statement M h (rc_state ?r) ?q = Inr (c1, e1)"
    "if e1 \<noteq> 0 then c = c1 \<and> e = e1 else insert_blocks M h c1 u f 0 hs v = Inr (c, e)"
    using assms(2) by (auto simp: replace_blocks_def bind_exec_eq_Inr split: if_splits)
  let ?r1 = "?r\<lparr>rc_state := c1, rc_next := Suc (rc_next ?r)\<rparr>"
  have s: "run_statement (interleaved M n other) h r ?q = Inr (?r1, e1)"
    using q(1) unfolding run_statement_interleaved by (simp add: Let_def)
  show ?thesis
  proof (cases "e1 = 0")
    case True
    with insert_blocks_after [of n ?r1 M h u f 0 hs v c e other] q(2) assms(1) s step show ?thesis
      by (auto simp: replace_blocks_def)
  next
    case False
    with q(2) s show ?thesis by (simp add: replace_blocks_def)
  qed
qed

text \<open>
  \<open>passes_check\<close>: what the version check of \<open>updateFileData\<close> makes of the rows it reads; a commit is
  refused, or goes on to replace the rows.
\<close>

definition passes_check :: "row list \<Rightarrow> 32 word \<Rightarrow> bool exec" where
  "passes_check rs v =
     (case rs of [] \<Rightarrow> Inr (v = 0) | row # _ \<Rightarrow> bind_exec (cell row 0) (\<lambda>s. Inr (\<not> v \<le> word_of_int (atoi s))))"

lemma updateFileData_check:
  assumes "fetch_rows M h c (''SELECT version FROM FileBlock WHERE '' @ file_clause u f) = Inr (c1, Inr rs)"
  shows "updateFileData M h c u f hs v =
    bind_exec (passes_check rs v) (\<lambda>ok. if ok then replace_blocks M h c1 u f hs v else Inr (c1, EVERS))"
  using assms
  by (cases rs) (auto simp: updateFileData_def passes_check_def bind_exec_assoc intro!: arg_cong [where f = "bind_exec _"])

section \<open>Two commits of one version\<close>

lemma set_file_twice:
  "coll u u \<Longrightarrow> set_file coll u f x (set_file coll u f y F) = set_file coll u f x F"
  by (auto simp: set_file_def fun_eq_iff)

context reliable_mysql
begin

lemma commit_taken:
  assumes "up c" "op_ok (Commit u f hs v)" "represents coll (tables c) F"
    and "accepts (fst (F u f)) (snd (F u f)) v"
  shows "\<exists>c'. updateFileData M True c u f hs v = Inr (c', 0) \<and> up c' \<and>
    represents coll (tables c') (set_file coll u f (stamped hs (unat v)) F)"
  using commit_refines [OF assms(1-3)] assms(4) by (auto simp: bind_exec_eq_Inr)

lemma commit_refused:
  assumes "up c" "op_ok (Commit u f hs v)" "represents coll (tables c) F"
    and "\<not> accepts (fst (F u f)) (snd (F u f)) v"
  shows "\<exists>c'. updateFileData M True c u f hs v = Inr (c', EVERS) \<and> up c' \<and> represents coll (tables c') F"
  using commit_refines [OF assms(1-3)] assms(4) by (auto simp: bind_exec_eq_Inr)

text \<open>The check reads the version before the other worker comes in.\<close>

lemma check_passed:
  assumes "up c" "op_ok (Commit u f hs v)" "represents coll (tables c) F"
    and "accepts (fst (F u f)) (snd (F u f)) v"
  shows "\<exists>c1 rs. fetch_rows M True c (''SELECT version FROM FileBlock WHERE '' @ file_clause u f) = Inr (c1, Inr rs) \<and>
    up c1 \<and> tables c1 = tables c \<and> passes_check rs v = Inr True"
proof -
  let ?st = "Select_Version (file_where u f)"
  have ok: "stmt_ok ?st" using assms(2) by auto
  obtain c1 rs where r: "fetch_rows M True c (sql_text ?st) = Inr (c1, Inr rs)" "up c1"
    using fetch_rows_up [OF assms(1) ok] by auto
  then have f: "fetch_rows M True c (''SELECT version FROM FileBlock WHERE '' @ file_clause u f) = Inr (c1, Inr rs)"
    by (simp add: file_clause_text)
  have "tables c1 = tables c" using fetch_rows_cases [OF r(1) ok] by auto
  moreover obtain c' where "updateFileData M True c u f hs v = Inr (c', 0)" using commit_taken [OF assms] by blast
  then have "passes_check rs v = Inr True"
    unfolding updateFileData_check [OF f] by (auto simp: bind_exec_eq_Inr EVERS_def split: if_splits)
  ultimately show ?thesis using f r(2) by blast
qed

lemma second_commit_wins:
  assumes "up c" "op_ok (Commit u f hsA v)" "op_ok (Commit u f hsB v)" "represents coll (tables c) F"
    and "accepts (fst (F u f)) (snd (F u f)) v"
  shows "\<exists>r. updateFileData (interleaved M 1 (\<lambda>c. updateFileData M True c u f hsB v)) True (start_race c) u f hsA v = Inr (r, 0) \<and>
    rc_other r = [Inr 0] \<and> represents coll (tables (rc_state r)) (set_file coll u f (stamped hsA (unat v)) F)"
proof -
  let ?B = "\<lambda>c. updateFileData M True c u f hsB v"
  obtain c1 rs where a: "fetch_rows M True c (''SELECT version FROM FileBlock WHERE '' @ file_clause u f) = Inr (c1, Inr rs)"
    "up c1" "tables c1 = tables c" "passes_check rs v = Inr True"
    using check_passed [OF assms(1,2,4,5)] by blast
  let ?r1 = "(start_race c)\<lparr>rc_state := c1, rc_next := 1\<rparr>"
  have first: "fetch_rows (interleaved M 1 ?B) True (start_race c) (''SELECT version FROM FileBlock WHERE '' @ file_clause u f) =
      Inr (?r1, Inr rs)"
    using a(1) unfolding fetch_rows_interleaved by (simp add: come_in_away)
  obtain c2 where b: "?B c1 = Inr (c2, 0)" "up c2" "represents coll (tables c2) (set_file coll u f (stamped hsB (unat v)) F)"
    using commit_taken [OF a(2) assms(3), of F] assms(4,5) a(3) by auto
  note in1 = come_in_at [of ?r1 1 ?B c2 0]
  have A: "name_ok u" "name_ok f" "\<forall>x \<in> set hsA. hash_ok x" "length hsA < 2 ^ 31" "0 \<le> sint v"
    using assms(2) by simp_all
  obtain c3 where c3: "replace_blocks M True c2 u f hsA v = Inr (c3, 0)" using replace_blocks_up [OF b(2) A] by blast
  from replace_blocks_holds [OF c3 A] have
    "others coll u f (tables c3) = others coll u f (tables c2)" "holds_file (file_rows coll u f (tables c3)) u f hsA (unat v)"
    by auto
  then have rep: "represents coll (tables c3) (set_file coll u f (stamped hsA (unat v)) F)"
    using represents_set [OF b(3)] unat_bound set_file_twice [of coll u f] coll_refl by metis
  obtain r where "replace_blocks (interleaved M 1 ?B) True ?r1 u f hsA v = Inr (r, 0)" "rc_state r = c3" "rc_other r = [Inr 0]"
    using replace_blocks_meets [of 1 ?r1 M True ?B u f hsA v c3 0] in1 b(1) c3 by auto
  with rep a(4) show ?thesis unfolding updateFileData_check [OF first] by auto
qed

lemma second_commit_refused:
  assumes "up c" "op_ok (Commit u f hsA v)" "op_ok (Commit u f hsB v)" "hsB \<noteq> []" "represents coll (tables c) F"
    and "accepts (fst (F u f)) (snd (F u f)) v"
  shows "\<exists>r. updateFileData (interleaved M 0 (\<lambda>c. updateFileData M True c u f hsB v)) True (start_race c) u f hsA v = Inr (r, EVERS) \<and>
    rc_other r = [Inr 0] \<and> represents coll (tables (rc_state r)) (set_file coll u f (stamped hsB (unat v)) F)"
proof -
  let ?B = "\<lambda>c. updateFileData M True c u f hsB v" and ?F = "set_file coll u f (stamped hsB (unat v)) F"
  let ?q = "''SELECT version FROM FileBlock WHERE '' @ file_clause u f" and ?st = "Select_Version (file_where u f)"
  obtain c2 where b: "?B c = Inr (c2, 0)" "up c2" "represents coll (tables c2) ?F"
    using commit_taken [OF assms(1,3,5,6)] by blast
  have "\<not> accepts (fst (?F u f)) (snd (?F u f)) v"
    using assms(4) coll_refl by (simp add: set_file_def stamped_def accepts_def)
  from commit_refused [OF b(2) assms(2) b(3) this] obtain c3 where
    a: "updateFileData M True c2 u f hsA v = Inr (c3, EVERS)" "represents coll (tables c3) ?F" by blast
  have ok: "stmt_ok ?st" using assms(2) by auto
  obtain c1 rs where r: "fetch_rows M True c2 (sql_text ?st) = Inr (c1, Inr rs)"
    using fetch_rows_up [OF b(2) ok] by auto
  then have s: "fetch_rows M True c2 ?q = Inr (c1, Inr rs)" by (simp add: file_clause_text)
  obtain ok where k: "passes_check rs v = Inr ok" "if ok then replace_blocks M True c1 u f hsA v = Inr (c3, EVERS) else c1 = c3"
    using a(1) unfolding updateFileData_check [OF s] by (auto simp: bind_exec_eq_Inr split: if_splits)
  have "\<not> ok"
  proof
    assume ok
    with k(2) have "replace_blocks M True c1 u f hsA v = Inr (c3, EVERS)" by simp
    from replace_blocks_holds [OF this] assms(2) show False by (auto simp: EVERS_def)
  qed
  note in0 = come_in_at [of "start_race c" 0 ?B c2 0]
  obtain r1 where "fetch_rows (interleaved M 0 ?B) True (start_race c) ?q = Inr (r1, Inr rs)" "rc_state r1 = c1" "rc_other r1 = [Inr 0]"
    using s b(1) in0 unfolding fetch_rows_interleaved by (auto simp: Let_def)
  note r1 = this
  have "updateFileData (interleaved M 0 ?B) True (start_race c) u f hsA v = Inr (r1, EVERS)"
    unfolding updateFileData_check [OF r1(1)] using k(1) \<open>\<not> ok\<close> by simp
  moreover have "c1 = c3" using k(2) \<open>\<not> ok\<close> by simp
  ultimately show ?thesis using r1(2,3) a(2) by blast
qed

end

end
