(* ===== verification/Meta_Properties.thy ===== *)
theory Meta_Properties
  imports Samples Helper_Test Commit_Race
begin

text \<open>
  The properties of the metadata server, each over any MySQL server and JSON library with the
  documented behaviour, with a concrete instance of each.
\<close>

section \<open>The specification and the invariant\<close>

text \<open>C1. For any sequence of commits, removals and listings on a server that is up,
  \<open>MySQLHelper\<close> gives exactly the replies of the specification, which knows neither tables nor
  SQL, and the tables keep representing the specified files. The names and hashes need no SQL
  quoting, and the versions are not negative as an \<open>int\<close>; the last section shows what happens otherwise.\<close>

theorem helper_refines_spec:
  assumes "reliable_mysql M tables pending coll up" "up c"
    and "\<forall>x \<in> set xs. op_ok x" "represents coll (tables c) F"
  shows "\<exists>c'. helper_run M c xs = Inr (c', snd (spec_run coll F xs)) \<and>
    up c' \<and> represents coll (tables c') (fst (spec_run coll F xs))"
  by (rule reliable_mysql.run_refines [OF assms])

theorem helper_refines_spec_witness:
  "\<exists>c'. helper_run ref_mysql sample_server
      [Commit ''ann'' ''notes'' [''h2''] 1, List_Blocks ''ann'' ''notes'', Commit ''ann'' ''notes'' [''h0''] 1] =
    Inr (c', [Status 0, Blocks 0 [''h2''] 1, Status EVERS])"
  using helper_refines_spec [OF ref.reliable_mysql_axioms, of sample_server
      "[Commit ''ann'' ''notes'' [''h2''] 1, List_Blocks ''ann'' ''notes'', Commit ''ann'' ''notes'' [''h0''] 1]",
      OF _ _ sample_represents]
  by (auto simp: sample_names sample_server_def ref_empty_def sample_files_def accepts_def
      set_file_def stamped_def)

text \<open>C2. Whatever sequence of requests the nine workers serve, and whether the database answers
  or fails in the middle of one, every file in the table keeps its blocks numbered without
  gaps and at one version, provided the values in the requests need no SQL quoting and fit
  their columns.\<close>

theorem file_table_invariant:
  assumes "mysql M tables pending coll" "meta_run J M c0 es c"
    and "\<forall>e \<in> set es. request_ok J e" "fb_inv coll (tables c0)"
  shows "fb_inv coll (tables c)"
  by (rule mysql.run_keeps_inv [OF assms])

theorem file_table_invariant_witness:
  "fb_inv (=) (ref_tables (fst (projr (file_commit_request ref_json ref_mysql ref_empty (post_request sample_body)))))"
proof -
  let ?r = "post_request sample_body"
  obtain c' out where s: "worker_request W_file_commit ref_json ref_mysql ref_empty ?r = Inr (c', out)"
    using ref_metadata.file_commit_answer [OF sample_posts sample_commit_fields sample_commit_ok empty_represents]
    by auto
  have run: "meta_run ref_json ref_mysql ref_empty ([] @ [(W_file_commit, ?r)]) c'"
    by (rule meta_step [OF meta_start s])
  have "\<forall>e \<in> set ([] @ [(W_file_commit, ?r)]). request_ok ref_json e"
    using sample_request_ok by simp
  moreover have "fb_inv (=) (ref_tables ref_empty)"
    by (rule ref.represents_fb_inv [OF empty_represents])
  ultimately have "fb_inv (=) (ref_tables c')"
    using file_table_invariant [OF ref.mysql_axioms run] by blast
  with s show ?thesis by simp
qed

section \<open>Commits\<close>

text \<open>C12. A well-formed commit request to the worker \<open>file_commit\<close>, on a server that is up, is
  answered as the specification decides: either the file is replaced and the answer says
  \<open>metadata_updated: true\<close>, or its version is not new enough, nothing changes, and the answer is
  an error page with \<open>Old client version.\<close>\<close>

theorem commit_request_outcome:
  assumes "metadata J j_elems j_members M tables pending coll up"
    and "posts J j_members r m" "commit_fields J j_elems m u f hs vt"
    and "op_ok (Commit u f hs (commit_version vt))" "represents coll (tables c) F"
  shows "\<exists>c' out. file_commit_request J M c r = Inr (c', out) \<and>
    represents coll (tables c') (fst (spec_step coll F (Commit u f hs (commit_version vt)))) \<and>
    (if snd (spec_step coll F (Commit u f hs (commit_version vt))) = Status 0
     then answers J j_members outputNormalMessage [''metadata_updated'' \<mapsto> j_bool J True] out
     else answers J j_members outputErrorMessage
       [''metadata_updated'' \<mapsto> j_bool J False, ''message'' \<mapsto> j_string J ''Old client version.''] out)"
  by (rule metadata.file_commit_answer [OF assms])

theorem commit_request_outcome_witness:
  "(\<exists>c' out. file_commit_request ref_json ref_mysql ref_empty (post_request sample_body) = Inr (c', out) \<and>
     represents (=) (ref_tables c') sample_files) \<and>
   (\<exists>c' out. file_commit_request ref_json ref_mysql sample_server (post_request sample_body) = Inr (c', out) \<and>
     represents (=) (ref_tables c') sample_files)"
  using commit_request_outcome [OF ref_metadata.metadata_axioms sample_posts sample_commit_fields
      sample_commit_ok empty_represents]
    commit_request_outcome [OF ref_metadata.metadata_axioms sample_posts sample_commit_fields
      sample_commit_ok sample_represents]
  unfolding sample_commit_steps by blast

text \<open>C14. A commit on a database that may fail at any statement has one of four outcomes: it is
  refused as too old; it fails before anything changed; it replaces the file; or, because the
  rows are deleted and inserted one statement at a time, the failure leaves a proper prefix of
  the new blocks, at the new version. Other files and the cache registrations never change.\<close>

theorem commit_outcomes:
  assumes "mysql M tables pending coll" "updateFileData M True c u f hs v = Inr (c', e)"
    and "name_ok u" "name_ok f" "\<forall>x \<in> set hs. hash_ok x" "length hs < 2 ^ 31" "0 \<le> sint v"
    and "holds_file (file_rows coll u f (tables c)) u0 f0 hs0 v0" "v0 < 2 ^ 32"
  shows "e = EVERS \<and> \<not> accepts hs0 v0 v \<and> tables c' = tables c \<or>
    1000 \<le> e \<and> tables c' = tables c \<or>
    accepts hs0 v0 v \<and> others coll u f (tables c') = others coll u f (tables c) \<and>
    (\<exists>k. holds_file (file_rows coll u f (tables c')) u f (take k hs) (unat v) \<and>
         (e = 0 \<and> k = length hs \<or> 1000 \<le> e \<and> k < length hs))"
  by (rule mysql.updateFileData_outcome [OF assms])

theorem commit_outcomes_witness:
  "\<exists>c'. updateFileData ref_mysql True sample_server ''ann'' ''notes'' [''h2''] 1 = Inr (c', 0) \<and>
     holds_file (file_rows (=) ''ann'' ''notes'' (ref_tables c')) ''ann'' ''notes'' [''h2''] 1"
proof -
  have op: "ref_open sample_server" and hs: "\<forall>x \<in> set [''h2'']. hash_ok x"
    by (simp_all add: sample_server_def sample_names)
  obtain c' where c': "updateFileData ref_mysql True sample_server ''ann'' ''notes'' [''h2''] 1 = Inr (c', 0)"
    using ref.updateFileData_up [OF op sample_names(1,3) hs _ _ sample_held, of 1] by (auto simp: accepts_def)
  from commit_outcomes [OF ref.mysql_axioms c' sample_names(1,3) hs _ _ sample_held] c' show ?thesis
    by (auto simp: EVERS_def)
qed

text \<open>C20. Two commits of the same version by two workers: when the second worker's whole commit runs
  between the version check of the first one and its next statement, both report success and the
  second one's blocks are lost; when it runs before the first one's check, the first one is refused
  and the second one's blocks stay. The server is up and accepts the version, and names and hashes
  need no SQL quoting.\<close>

theorem racing_commits:
  assumes "reliable_mysql M tables pending coll up" "up c" "represents coll (tables c) F"
    and "op_ok (Commit u f hsA v)" "op_ok (Commit u f hsB v)" "hsB \<noteq> []"
    and "accepts (fst (F u f)) (snd (F u f)) v" "B = (\<lambda>c. updateFileData M True c u f hsB v)"
  shows "(\<exists>r. updateFileData (interleaved M 1 B) True (start_race c) u f hsA v = Inr (r, 0) \<and> rc_other r = [Inr 0] \<and>
      represents coll (tables (rc_state r)) (set_file coll u f (stamped hsA (unat v)) F)) \<and>
    (\<exists>r. updateFileData (interleaved M 0 B) True (start_race c) u f hsA v = Inr (r, EVERS) \<and> rc_other r = [Inr 0] \<and>
      represents coll (tables (rc_state r)) (set_file coll u f (stamped hsB (unat v)) F))"
  using reliable_mysql.second_commit_wins [OF assms(1,2,4,5,3,7)] reliable_mysql.second_commit_refused [OF assms(1,2,4,5,6,3,7)]
  unfolding assms(8) by blast

theorem racing_commits_witness:
  "(\<exists>r. updateFileData (interleaved ref_mysql 1 (\<lambda>c. updateFileData ref_mysql True c ''ann'' ''notes'' [''h2''] 1)) True
      (start_race sample_server) ''ann'' ''notes'' [''h0''] 1 = Inr (r, 0) \<and> rc_other r = [Inr 0]) \<and>
   (\<exists>r. updateFileData (interleaved ref_mysql 0 (\<lambda>c. updateFileData ref_mysql True c ''ann'' ''notes'' [''h2''] 1)) True
      (start_race sample_server) ''ann'' ''notes'' [''h0''] 1 = Inr (r, EVERS) \<and> rc_other r = [Inr 0])"
proof -
  have "ref_open sample_server" "op_ok (Commit ''ann'' ''notes'' [''h0''] 1)" "op_ok (Commit ''ann'' ''notes'' [''h2''] 1)"
    "[''h2''] \<noteq> []" "accepts (fst (sample_files ''ann'' ''notes'')) (snd (sample_files ''ann'' ''notes'')) 1"
    by (simp_all add: sample_names sample_server_def sample_files_def accepts_def)
  from racing_commits [OF ref.reliable_mysql_axioms this(1) sample_represents this(2-5) refl] show ?thesis by blast
qed

section \<open>Reading\<close>

text \<open>C23. The worker \<open>block_list\<close> answers with the blocks of the file in order and its version, and
  leaves the tables alone; a file without blocks has \<open>null\<close> for its list.\<close>

theorem block_list_outcome:
  assumes "metadata J j_elems j_members M tables pending coll up"
    and "asks r [(''user_id'', u), (''file_name'', f)]" "clean u" "clean f"
    and "represents coll (tables c) F"
  shows "\<exists>c' out bl. block_list_request J M c r = Inr (c', out) \<and> tables c' = tables c \<and>
    j_elems bl = Some (map (j_string J) (fst (F u f))) \<and> (fst (F u f) = [] \<longrightarrow> bl = j_null J) \<and>
    answers J j_members outputNormalMessage
      [''block_list'' \<mapsto> bl, ''version'' \<mapsto> j_uint J (word_of_nat (snd (F u f)))] out"
  by (rule metadata.block_list_answer [OF assms])

theorem block_list_outcome_witness:
  "\<exists>c' out. block_list_request ref_json ref_mysql sample_server
      (ask_request ''user_id=ann&file_name=notes'') = Inr (c', out) \<and>
    answers ref_json members outputNormalMessage
      [''block_list'' \<mapsto> JArray [JString ''h0'', JString ''h1''], ''version'' \<mapsto> JUint 0] out"
proof -
  have "asks (ask_request ''user_id=ann&file_name=notes'') [(''user_id'', ''ann''), (''file_name'', ''notes'')]"
    by (rule asks_values) (simp, code_simp)
  from block_list_outcome [OF ref_metadata.metadata_axioms this sample_names(7,8) sample_represents]
  obtain c' out bl where b: "block_list_request ref_json ref_mysql sample_server
      (ask_request ''user_id=ann&file_name=notes'') = Inr (c', out)"
    "elems bl = Some [JString ''h0'', JString ''h1'']"
    "answers ref_json members outputNormalMessage [''block_list'' \<mapsto> bl, ''version'' \<mapsto> JUint 0] out"
    by (auto simp: sample_files_def ref_json_def)
  then have "bl = JArray [JString ''h0'', JString ''h1'']" by (cases bl) auto
  with b show ?thesis by blast
qed

text \<open>C24. The worker \<open>block_query\<close> names exactly the offered blocks no file holds, in the order of the
  request, or answers that none is needed.\<close>

theorem block_query_outcome:
  assumes "metadata J j_elems j_members M tables pending coll up"
    and "posts J j_members r m"
    and "m ''user_id'' = Some u" "\<not> j_is_null J u" "m ''file_name'' = Some f" "\<not> j_is_null J f"
    and "m ''block_list'' = Some a" "\<not> j_is_null J a" "j_elems a = Some (map (j_string J) hs)"
    and "hs \<noteq> []" "\<forall>x \<in> set hs. clean x" "size (fileblock (tables c)) < 2 ^ 31"
  shows "\<exists>c' out. block_query_request J M c r = Inr (c', out) \<and> tables c' = tables c \<and>
    (let missing = filter (\<lambda>x. \<not> hash_known coll (tables c) x) hs in
     if missing = [] then answers J j_members outputNormalMessage [''nb'' \<mapsto> j_bool J False] out
     else \<exists>nb. j_elems nb = Some (map (j_string J) missing) \<and>
       answers J j_members outputNormalMessage [''nb'' \<mapsto> j_bool J True, ''needed_blocks'' \<mapsto> nb] out)"
  by (rule metadata.block_query_answer [OF assms(1-9) disjI1 [OF assms(10)] assms(11,12)])

theorem block_query_outcome_witness:
  "\<exists>c' out. block_query_request ref_json ref_mysql sample_server (post_request sample_body) = Inr (c', out) \<and>
    answers ref_json members outputNormalMessage [''nb'' \<mapsto> JBool False] out"
proof -
  have "\<forall>x \<in> set [''h0'', ''h1'']. clean x" using sample_names by auto
  moreover have "hash_known (=) (ref_tables sample_server) ''h0''" "hash_known (=) (ref_tables sample_server) ''h1''"
    by (simp_all add: hash_known_def ref_tables_def sample_server_def ref_empty_def)
  moreover have "size (fileblock (ref_tables sample_server)) < 2 ^ 31"
    by (simp add: ref_tables_def sample_server_def)
  ultimately show ?thesis
    using block_query_outcome [OF ref_metadata.metadata_axioms sample_posts, of "JString ''ann''" "JString ''notes''"
        "JArray [JString ''h0'', JString ''h1'']" "[''h0'', ''h1'']" sample_server]
    by (auto simp: ref_json_def Let_def)
qed

text \<open>C25. The worker \<open>file_list\<close> lists every file of the user once, with its version.\<close>

theorem file_list_outcome:
  assumes "metadata J j_elems j_members M tables pending coll up"
    and "asks r [(''user_id'', u)]" "clean u" "fb_inv coll (tables c)"
  shows "\<exists>c' out files ps fs vs. file_list_request J M c r = Inr (c', out) \<and> tables c' = tables c \<and>
    lists_files coll u (tables c) fs vs \<and> j_elems files = Some ps \<and>
    map j_elems ps = map (\<lambda>(f, v). Some [j_string J f, j_int J (atoi v)]) (zip fs vs) \<and>
    (fs = [] \<longrightarrow> files = j_null J) \<and> answers J j_members outputNormalMessage [''files'' \<mapsto> files] out"
  by (rule metadata.file_list_answer [OF assms])

theorem file_list_outcome_witness:
  "\<exists>c' out fs vs. file_list_request ref_json ref_mysql sample_server (ask_request ''user_id=ann'') = Inr (c', out) \<and>
    lists_files (=) ''ann'' (ref_tables sample_server) fs vs"
proof -
  have "asks (ask_request ''user_id=ann'') [(''user_id'', ''ann'')]"
    by (rule asks_values) (simp, code_simp)
  from file_list_outcome [OF ref_metadata.metadata_axioms this sample_names(7)
      ref.represents_fb_inv [OF sample_represents]]
  show ?thesis by blast
qed

text \<open>C26. The worker \<open>recent_hashes\<close> answers with at most the requested number of the user's blocks:
  lower block numbers first, and among equal numbers the ones accessed last first.\<close>

theorem recent_hashes_outcome:
  assumes "metadata J j_elems j_members M tables pending coll up"
    and "asks r [(''user_id'', u), (''max_hashes'', show_nat n)]" "clean u" "n < 2 ^ 31"
  shows "\<exists>c' out bl xs. recent_hashes_request J M c r = Inr (c', out) \<and> tables c' = tables c \<and>
    mset xs = user_blocks coll u (tables c) \<and> sorted_wrt recent_order xs \<and>
    j_elems bl = Some (map (j_string J) (map fb_hash (take n xs))) \<and>
    answers J j_members outputNormalMessage [''block_list'' \<mapsto> bl] out"
  by (rule metadata.recent_hashes_answer [OF assms])

theorem recent_hashes_outcome_witness:
  "\<exists>c' out bl xs. recent_hashes_request ref_json ref_mysql sample_server
      (ask_request ''user_id=ann&max_hashes=1'') = Inr (c', out) \<and>
    mset xs = user_blocks (=) ''ann'' (ref_tables sample_server) \<and>
    elems bl = Some (map JString (map fb_hash (take 1 xs)))"
proof -
  have "asks (ask_request ''user_id=ann&max_hashes=1'') [(''user_id'', ''ann''), (''max_hashes'', show_nat 1)]"
    by (rule asks_values) (simp, code_simp)
  from recent_hashes_outcome [OF ref_metadata.metadata_axioms this sample_names(7)]
  obtain c' out bl xs where
    "recent_hashes_request ref_json ref_mysql sample_server (ask_request ''user_id=ann&max_hashes=1'') = Inr (c', out)"
    "mset xs = user_blocks (=) ''ann'' (ref_tables sample_server)"
    "elems bl = Some (map (j_string ref_json) (map fb_hash (take 1 xs)))"
    by (metis one_less_numeral_iff power_one_right one_less_power semiring_norm(76) zero_less_numeral)
  then show ?thesis by (auto simp: ref_json_def)
qed

section \<open>Deletion and cache registrations\<close>

text \<open>C27. The worker \<open>file_delete\<close> removes exactly the named file.\<close>

theorem file_delete_outcome:
  assumes "metadata J j_elems j_members M tables pending coll up"
    and "asks r [(''user_id'', u), (''file_name'', f)]" "clean u" "clean f"
    and "represents coll (tables c) F"
  shows "\<exists>c' out. file_delete_request J M c r = Inr (c', out) \<and>
    represents coll (tables c') (set_file coll u f ([], 0) F) \<and>
    answers J j_members outputNormalMessage [''is_delete'' \<mapsto> j_bool J True] out"
  by (rule metadata.file_delete_answer [OF assms])

theorem file_delete_outcome_witness:
  "\<exists>c' out. file_delete_request ref_json ref_mysql sample_server
      (ask_request ''user_id=ann&file_name=notes'') = Inr (c', out) \<and>
    represents (=) (ref_tables c') (\<lambda>u f. ([], 0))"
proof -
  have "asks (ask_request ''user_id=ann&file_name=notes'') [(''user_id'', ''ann''), (''file_name'', ''notes'')]"
    by (rule asks_values) (simp, code_simp)
  moreover have "set_file (=) ''ann'' ''notes'' ([], 0) sample_files = (\<lambda>u f. ([], 0))"
    by (auto simp: set_file_def sample_files_def fun_eq_iff)
  ultimately show ?thesis
    using file_delete_outcome [OF ref_metadata.metadata_axioms _ sample_names(7,8) sample_represents]
    by metis
qed

text \<open>C28. Registering a cache for a user adds one row, and removing it afterwards removes every
  registration of that cache for that user and nothing else.\<close>

theorem cache_registration:
  assumes "metadata J j_elems j_members M tables pending coll up"
    and "asks r [(''user_id'', u), (''cache_ip'', a)]" "name_ok u" "name_ok a"
  shows "\<exists>c1 c2. user_cache_add_request M c r = Inr (c1, outputNormalMessage) \<and>
    tables c1 = (tables c)\<lparr>usercache := add_mset \<lparr>uc_user = u, uc_cache = a\<rparr> (usercache (tables c))\<rparr> \<and>
    user_cache_remove_request M c1 r = Inr (c2, outputNormalMessage) \<and>
    tables c2 = (tables c)\<lparr>usercache :=
      filter_mset (\<lambda>r. \<not> (coll (uc_user r) u \<and> coll (uc_cache r) a)) (usercache (tables c))\<rparr>"
proof -
  have coll: "coll x x" for x
    using assms(1) mysql.coll_refl reliable_mysql.axioms(1) metadata.axioms(2) by metis
  obtain c1 where c1: "user_cache_add_request M c r = Inr (c1, outputNormalMessage)"
    "tables c1 = (tables c)\<lparr>usercache := add_mset \<lparr>uc_user = u, uc_cache = a\<rparr> (usercache (tables c))\<rparr>"
    using metadata.user_cache_add_answer [OF assms] by blast
  obtain c2 where "user_cache_remove_request M c1 r = Inr (c2, outputNormalMessage)"
    "tables c2 = (tables c1)\<lparr>usercache :=
      filter_mset (\<lambda>r. \<not> (coll (uc_user r) u \<and> coll (uc_cache r) a)) (usercache (tables c1))\<rparr>"
    using metadata.user_cache_remove_answer [OF assms(1,2)] assms(3,4) clean_name by blast
  with c1 coll show ?thesis by auto
qed

theorem cache_registration_witness:
  "\<exists>c1 c2. user_cache_add_request ref_mysql ref_empty (ask_request ''user_id=ann&cache_ip=bob'') =
      Inr (c1, outputNormalMessage) \<and>
    user_cache_remove_request ref_mysql c1 (ask_request ''user_id=ann&cache_ip=bob'') =
      Inr (c2, outputNormalMessage) \<and> ref_tables c2 = ref_tables ref_empty"
proof -
  have "asks (ask_request ''user_id=ann&cache_ip=bob'') [(''user_id'', ''ann''), (''cache_ip'', ''bob'')]"
    by (rule asks_values) (simp, code_simp)
  from cache_registration [OF ref_metadata.metadata_axioms this sample_names(1,2), of ref_empty]
  show ?thesis by (auto simp: ref_empty_def ref_tables_def)
qed

text \<open>The worker \<open>user_caches\<close> answers with at most the requested number of the caches
  registered for the user.\<close>

theorem user_caches_outcome:
  assumes "metadata J j_elems j_members M tables pending coll up"
    and "asks r [(''user_id'', u), (''max'', show_nat n)]" "clean u" "n < 2 ^ 31"
  shows "\<exists>c' out cs xs. user_caches_request J M c r = Inr (c', out) \<and> tables c' = tables c \<and>
    mset xs = user_caches coll u (tables c) \<and>
    j_elems cs = Some (map (j_string J) (map uc_cache (take n xs))) \<and>
    answers J j_members outputNormalMessage [''caches'' \<mapsto> cs] out"
  by (rule metadata.user_caches_answer [OF assms])

theorem user_caches_outcome_witness:
  "\<exists>c' out cs. user_caches_request ref_json ref_mysql sample_server (ask_request ''user_id=ann&max=5'') = Inr (c', out) \<and>
    elems cs = Some [JString ''10.0.0.1''] \<and> answers ref_json members outputNormalMessage [''caches'' \<mapsto> cs] out"
proof -
  have a: "asks (ask_request ''user_id=ann&max=5'') [(''user_id'', ''ann''), (''max'', show_nat 5)]"
    by (rule asks_values) (simp, code_simp)
  have "(5::nat) < 2 ^ 31" by simp
  from user_caches_outcome [OF ref_metadata.metadata_axioms a sample_names(7) this, of sample_server]
  obtain c' out cs xs where x: "user_caches_request ref_json ref_mysql sample_server (ask_request ''user_id=ann&max=5'') = Inr (c', out)"
    "mset xs = user_caches (=) ''ann'' (ref_tables sample_server)"
    "elems cs = Some (map (j_string ref_json) (map uc_cache (take 5 xs)))"
    "answers ref_json members outputNormalMessage [''caches'' \<mapsto> cs] out"
    by blast
  from x(2) have "xs = [\<lparr>uc_user = ''ann'', uc_cache = ''10.0.0.1''\<rparr>]"
    by (simp add: user_caches_def ref_tables_def sample_server_def)
  with x show ?thesis by (auto simp: ref_json_def)
qed

section \<open>Encodings\<close>

text \<open>A vector of strings sent as a JSON array is read back unchanged.\<close>

theorem json_vector_round_trip:
  assumes "jsoncpp_values J j_elems j_members"
  shows "bind_exec (stringToJson J ss (j_null J)) (\<lambda>v. jsonToString J v []) = Inr ss"
  by (rule jsoncpp_values.json_round_trip [OF assms])

theorem json_vector_round_trip_witness:
  "bind_exec (stringToJson ref_json [''h0'', ''h1''] (j_null ref_json)) (\<lambda>v. jsonToString ref_json v []) =
    Inr [''h0'', ''h1'']"
  by (rule json_vector_round_trip [OF ref_values.jsoncpp_values_axioms])

section \<open>The repository's own tests\<close>

text \<open>The test program of \<open>MySQLHelper\<close> passes all its tests on the rows of
  \<open>insert_test_rows.sql\<close>, whatever the uninitialised version variable holds.\<close>

theorem helper_tests_pass:
  "map_sum id snd (helper_test_main ref_mysql junk seeded) = Inr 0"
  by code_simp

section \<open>What goes wrong\<close>

text \<open>C34. A request without \<open>CONTENT_LENGTH\<close>, such as a plain GET, ends every worker that takes
  its parameters from the query string, and no later request is answered: a \<open>std::string\<close> is built from the null content
  pointer before anything else is looked at.\<close>

theorem get_without_length_crashes:
  assumes "content_length r = None"
  shows "block_list_main J M c (r # rs) = ([], Inl Null_String) \<and>
    file_list_main J M c (r # rs) = ([], Inl Null_String) \<and>
    recent_hashes_main J M c (r # rs) = ([], Inl Null_String) \<and>
    user_caches_main J M c (r # rs) = ([], Inl Null_String) \<and>
    file_delete_main J M c (r # rs) = ([], Inl Null_String) \<and>
    user_cache_add_main M c (r # rs) = ([], Inl Null_String) \<and>
    user_cache_remove_main M c (r # rs) = ([], Inl Null_String)"
proof -
  have "response_body r = Inl Null_String"
    using assms by (simp add: response_body_def gstdin_missing_length string_of_ptr_def)
  then show ?thesis
    by (simp add: block_list_main_def file_list_main_def recent_hashes_main_def user_caches_main_def
        file_delete_main_def user_cache_add_main_def user_cache_remove_main_def
        block_list_request_def file_list_request_def recent_hashes_request_def
        user_caches_request_def file_delete_request_def user_cache_add_request_def
        user_cache_remove_request_def)
qed

theorem get_without_length_crashes_witness:
  "file_list_main ref_json ref_mysql sample_server
     [(ask_request ''user_id=ann'')\<lparr>content_length := None\<rparr>, ask_request ''user_id=ann''] = ([], Inl Null_String)"
  using get_without_length_crashes [of "(ask_request ''user_id=ann'')\<lparr>content_length := None\<rparr>" ref_json ref_mysql
      sample_server "[ask_request ''user_id=ann'']"] by simp

text \<open>C35. The buffer \<open>gstdin\<close> fills has no terminating NUL, so the text a worker parses is the
  request body followed by whatever bytes come next in memory, up to the first NUL.\<close>

theorem body_runs_into_memory:
  assumes "content_length r = Some (show_nat (length b))" "stdin_bytes r = b @ b2"
    and "length b \<le> STDIN_MAX" "nul \<notin> set b" "memory_after r = junk @ nul # rest" "nul \<notin> set junk"
  shows "response_body r = Inr (b @ junk)"
proof -
  have "length b < 2 ^ 63" using assms(3) by (simp add: STDIN_MAX_def)
  then have "gstdin STDIN_MAX r = (Some b, length b)"
    using gstdin_exact [of r "length b" STDIN_MAX] assms(1-3) by (simp add: show_int_nat)
  moreover have "string_of_ptr (Some (b @ junk)) (nul # rest) = Inr (b @ junk)"
  proof -
    have "x \<noteq> nul" if "x \<in> set (b @ junk)" for x using that assms(4,6) by auto
    then have "takeWhile (\<lambda>c. c \<noteq> nul) ((b @ junk) @ nul # rest) = b @ junk"
      by (rule takeWhile_append_stop) simp_all
    then show ?thesis by (simp add: string_of_ptr_def c_str_def)
  qed
  ultimately show ?thesis
    using assms(5) by (simp add: response_body_def string_of_ptr_def)
qed

theorem body_runs_into_memory_witness:
  "response_body ((post_request ''{}'')\<lparr>memory_after := ''junk'' @ [nul]\<rparr>) = Inr ''{}junk''"
proof -
  have "nul \<notin> set ''{}''" "nul \<notin> set ''junk''" by (simp_all add: nul_def)
  from body_runs_into_memory [of _ "''{}''" "[]" "''junk''" "[]", OF _ _ _ this(1) _ this(2)]
  show ?thesis by (simp add: post_request_def STDIN_MAX_def)
qed

text \<open>C38. When the database cannot be asked, \<open>block_query\<close> ignores the error code and answers
  that no block is needed, so a client would upload nothing.\<close>

theorem block_query_hides_failure:
  assumes "jsoncpp_values J j_elems j_members" "posts J j_members r m"
    and "m ''user_id'' = Some u" "\<not> j_is_null J u" "m ''file_name'' = Some f" "\<not> j_is_null J f"
    and "m ''block_list'' = Some a" "\<not> j_is_null J a" "j_elems a = Some (map (j_string J) (x # xs))"
    and "connect M c = (c1, True, e)" "clean x"
    and "my_query M c1 (sql_text (Count_Blocks (hash_where x))) = (c2, k)" "k \<noteq> 0"
  shows "\<exists>out. block_query_request J M c r = Inr (fst (close M c2), out) \<and>
    answers J j_members outputNormalMessage [''nb'' \<mapsto> j_bool J False] out"
proof -
  obtain body root where b: "snd (gstdin STDIN_MAX r) \<noteq> 0" "response_body r = Inr body"
    "j_parse J body = (True, root)" "j_members root = Some m"
    using assms(2) by (auto simp: posts_def)
  have g: "get J root ''user_id'' = Inr u" "get J root ''file_name'' = Inr f" "get J root ''block_list'' = Inr a"
    using jsoncpp_values.get_member [OF assms(1) b(4)] assms(3,5,7) by auto
  have j: "jsonToString J a [] = Inr (x # xs)"
    using jsoncpp_values.jsonToString_elems [OF assms(1,9), of "[]"] by simp
  have "fetch_rows M True c1 (sql_text (Count_Blocks (hash_where x))) = Inr (c2, Inl (my_errno M True c2))"
    using assms(11-13) by (simp add: fetch_rows_def del: sql_text.simps)
  then have q: "getMissingBlockHashes M True c1 (x # xs) [] = Inr (c2, my_errno M True c2, [])"
    by (simp add: getMissingBlockHashes_def)
  obtain v where v: "put J (j_null J) ''nb'' (j_bool J False) = Inr v"
    "j_members v = Some [''nb'' \<mapsto> j_bool J False]"
    using jsoncpp_values.put_null [OF assms(1)] by blast
  have "block_query_request J M c r = Inr (fst (close M c2), outputNormalMessage @ j_write J v)"
    using b g j assms(4,6,8,10) q v(1) by (simp add: block_query_request_def)
  with v(2) show ?thesis by (auto simp: answers_def)
qed

definition refusing_mysql :: "ref_server mysql_api" where
  "refusing_mysql = ref_mysql\<lparr>my_real_connect := (\<lambda>c host user pass db port. (c, False))\<rparr>"

theorem block_query_hides_failure_witness:
  "\<exists>c' out. block_query_request ref_json refusing_mysql ref_empty (post_request sample_body) = Inr (c', out) \<and>
    answers ref_json members outputNormalMessage [''nb'' \<mapsto> JBool False] out"
proof -
  have "my_query refusing_mysql ref_empty (sql_text (Count_Blocks (hash_where ''h0''))) = (ref_empty, 1)"
    by (simp add: refusing_mysql_def ref_mysql_def ref_query_def ref_empty_def)
  moreover have "connect refusing_mysql ref_empty = (ref_empty, True, 2006)"
    by (simp add: connect_def connect_to_def refusing_mysql_def ref_mysql_def ref_empty_def)
  moreover have "clean ''h0''" using sample_names(4) by blast
  ultimately show ?thesis
    using block_query_hides_failure [OF ref_values.jsoncpp_values_axioms sample_posts, of "JString ''ann''"
        "JString ''notes''" "JArray [JString ''h0'', JString ''h1'']" "''h0''" "[''h1'']"
        refusing_mysql ref_empty ref_empty 2006 ref_empty 1]
    by (auto simp: ref_json_def)
qed

text \<open>C36. \<open>removeFile\<close> pastes the name into the statement: a file name that closes the quote and
  goes on with \<open>OR user_id=\<close> deletes every file of another user.\<close>

theorem remove_file_injection:
  assumes "mysql M tables pending coll" "clean u" "clean f" "clean victim"
    and "removeFile M True c u (f @ [CHR 0x27] @ '' OR user_id='' @ [CHR 0x27] @ victim) = Inr (c', 0)"
  shows "fileblock (tables c') =
    filter_mset (\<lambda>r. \<not> (same_file coll u f r \<or> coll (fb_user r) victim)) (fileblock (tables c))"
proof -
  let ?st = "Delete_Blocks [[(User_Id, u), (File_Name, f)], [(User_Id, victim)]]"
  have ok: "stmt_ok ?st" using assms(2-4) by (simp add: where_ok_def fb_columns_def)
  have "run_statement M True c (sql_text ?st) = Inr (c', 0)"
    using assms(5) by (simp add: removeFile_def file_clause_def where_text_def quoted_def)
  from mysql.run_statement_cases [OF assms(1) this ok]
  have "sql_sem coll ?st (tables c) (tables c') (pending c')" by auto
  moreover have "matches coll fb_cell [[(User_Id, u), (File_Name, f)], [(User_Id, victim)]] =
      (\<lambda>r. same_file coll u f r \<or> coll (fb_user r) victim)"
    by (auto simp: matches_def same_file_def fun_eq_iff)
  ultimately show ?thesis by simp
qed

theorem remove_file_injection_witness:
  "\<exists>c'. removeFile ref_mysql True sample_server ''bob''
      (''x'' @ [CHR 0x27] @ '' OR user_id='' @ [CHR 0x27] @ ''ann'') = Inr (c', 0) \<and>
    fileblock (ref_tables c') = {#}"
proof -
  let ?f = "''x'' @ [CHR 0x27] @ '' OR user_id='' @ [CHR 0x27] @ ''ann''"
  have c: "clean ''bob''" "clean ''x''" "clean ''ann''" by (simp_all add: clean_def printable_def)
  have "\<exists>c'. removeFile ref_mysql True sample_server ''bob'' ?f = Inr (c', 0)"
  proof -
    let ?st = "Delete_Blocks [[(User_Id, ''bob''), (File_Name, ''x'')], [(User_Id, ''ann'')]]"
    have "stmt_ok ?st" using c by (simp add: where_ok_def fb_columns_def)
    with ref.run_statement_up [of sample_server ?st] show ?thesis
      by (auto simp: sample_server_def removeFile_def file_clause_def where_text_def quoted_def)
  qed
  then obtain c' where c': "removeFile ref_mysql True sample_server ''bob'' ?f = Inr (c', 0)" by blast
  from remove_file_injection [OF ref.mysql_axioms c c'] c' show ?thesis
    by (auto simp: ref_tables_def sample_server_def ref_empty_def same_file_def)
qed

text \<open>C37. A client version that is negative as an \<open>int\<close> passes the check, which compares unsigned
  values; the statement then carries the negative number, and a server that refuses it leaves
  the file deleted.\<close>

theorem negative_version_loses_file:
  assumes "reliable_mysql M tables pending coll up" "up c" "clean u" "clean f"
    and "holds_file (file_rows coll u f (tables c)) u0 f0 hs0 v0" "v0 < 2 ^ 32"
    and "accepts hs0 v0 v" "sint v < 0"
    and "\<And>c. snd (my_query M c (c_str (sql_text (Insert_Block u f x 0 (sint v))))) \<noteq> 0"
  shows "\<exists>c' e. updateFileData M True c u f (x # xs) v = Inr (c', e) \<and> 1000 \<le> e \<and>
    file_rows coll u f (tables c') = {#}"
proof -
  have m: "mysql M tables pending coll" using assms(1) by (simp add: reliable_mysql_def)
  obtain c1 where c1: "replace_blocks M True c1 u f (x # xs) v = updateFileData M True c u f (x # xs) v" "up c1"
    using reliable_mysql.update_accepted [OF assms(1-7)] by metis
  obtain c2 where d: "run_statement M True c1 (sql_text (Delete_Blocks (file_where u f))) = Inr (c2, 0)"
    using reliable_mysql.run_statement_up [OF assms(1) c1(2), of "Delete_Blocks (file_where u f)"] assms(3,4) by auto
  have gone: "file_rows coll u f (tables c2) = {#}"
    using mysql.delete_file_tables [OF m _ assms(3,4), of c1 c2 0] d by (simp add: file_clause_text)
  obtain c3 k where q: "my_query M c2 (c_str (sql_text (Insert_Block u f x 0 (sint v)))) = (c3, k)" by fastforce
  then have k: "k \<noteq> 0" using assms(9) [of c2] by simp
  have t: "tables c3 = tables c2" "1000 \<le> my_errno M True c3"
    using mysql.query_fails [OF m q k] by auto
  have "to_int 0 = 0" by (simp add: to_int_def)
  then have "replace_blocks M True c1 u f (x # xs) v = Inr (c3, my_errno M True c3)"
    using d q k t(2) by (simp add: replace_blocks_def file_clause_text run_statement_def)
  with c1(1) gone t show ?thesis by metis
qed

theorem negative_version_loses_file_witness:
  "\<exists>c' e. updateFileData ref_mysql True sample_server ''ann'' ''notes'' [''h2''] (- 1) = Inr (c', e) \<and> 1000 \<le> e \<and>
    file_rows (=) ''ann'' ''notes'' (ref_tables c') = {#}"
proof -
  have s: "sint (- 1 :: 32 word) = - 1" by simp
  have "parse_stmt (sql_text (Insert_Block ''ann'' ''notes'' ''h2'' 0 (- 1))) = None" by code_simp
  moreover have "c_str (sql_text (Insert_Block ''ann'' ''notes'' ''h2'' 0 (- 1))) =
      sql_text (Insert_Block ''ann'' ''notes'' ''h2'' 0 (- 1))" by code_simp
  ultimately have q: "snd (my_query ref_mysql c (c_str (sql_text (Insert_Block ''ann'' ''notes'' ''h2'' 0
      (sint (- 1 :: 32 word)))))) \<noteq> 0" for c
    unfolding s by (simp add: ref_mysql_def ref_query_def)
  have "accepts [''h0'', ''h1''] 0 (- 1)" by (simp add: accepts_def neq0_conv [symmetric] unsigned_eq_0_iff del: neq0_conv)
  then show ?thesis
    by (intro negative_version_loses_file [OF ref.reliable_mysql_axioms _ sample_names(7,8) sample_held _ _ _ q])
      (simp_all add: sample_server_def)
qed

end
