(* ===== verification/Leveldb_Tools.thy ===== *)
theory Leveldb_Tools
  imports Leveldb
begin

text \<open>
  The two LevelDB programs of the block cache directory, \<open>blockcache/write.cc\<close>, which puts a
  file under the key \<open>test\<close>, and \<open>blockcache/read.cc\<close>, which prints the database and writes the
  value back to a file. Both go on after a failed open, with a null database.
\<close>

text \<open>
  \<open>readFile\<close> reads byte by byte until the end of the file; a file that is missing gives no
  bytes.
\<close>

fun read_bytes :: "string \<Rightarrow> string \<Rightarrow> string" where
  "read_bytes [] data = data"
| "read_bytes (c # cs) data = read_bytes cs (data @ [c])"

definition readFile :: "string option \<Rightarrow> string" where
  "readFile file = (case file of None \<Rightarrow> [] | Some content \<Rightarrow> read_bytes content [])"

definition write_constructKV :: "string \<Rightarrow> string \<Rightarrow> string \<times> string" where
  "write_constructKV hash fileData = (hash, fileData)"

definition write_main :: "'d leveldb \<Rightarrow> 'd \<Rightarrow> string option \<Rightarrow> 'd exec" where
  "write_main D d small_gif =
     (case l_open D d True of (d, ok) \<Rightarrow>
      if \<not> ok then Inl Null_Pointer
      else case l_put D d ''hello'' ''World'' of (d, _) \<Rightarrow>
        let fileData = readFile small_gif in
        case write_constructKV ''test'' fileData of (k, v) \<Rightarrow>
        case l_put D d k v of (d, _) \<Rightarrow> Inr (l_close D d))"

fun convertString_from :: "string \<Rightarrow> nat \<Rightarrow> nat \<Rightarrow> string \<Rightarrow> string" where
  "convertString_from s i 0 result = result"
| "convertString_from s i (Suc n) result = convertString_from s (Suc i) n (result @ [s ! i])"

definition convertString :: "string \<Rightarrow> string" where
  "convertString s = convertString_from s 0 (length s) []"

text \<open>
  \<open>writeFile\<close>: the content of \<open>test.out\<close> afterwards; \<open>old\<close> is its content before,
  \<open>writable\<close> whether it can be opened.
\<close>

definition writeFile :: "bool \<Rightarrow> string option \<Rightarrow> string \<Rightarrow> string option" where
  "writeFile writable old data =
     (if writable then Some (foldl (\<lambda>out c. out @ [c]) [] data) else old)"

definition dump_line :: "string \<times> string \<Rightarrow> string" where
  "dump_line e = fst e @ '':'' @ snd e @ [CHR 0x0A]"

definition read_main :: "'d leveldb \<Rightarrow> bool \<Rightarrow> string option \<Rightarrow> 'd \<Rightarrow> ('d \<times> string \<times> string option) exec" where
  "read_main D writable old d =
     (case l_open D d False of (d, ok) \<Rightarrow>
      if \<not> ok then Inl Null_Pointer
      else
        let out = ''Reading database'' @ [CHR 0x0A] @ concat (map dump_line (l_seek D d [])) in
        case l_get D d ''test'' of (d, r) \<Rightarrow>
        let value = (case r of None \<Rightarrow> [] | Some v \<Rightarrow> v);
            result = convertString value
        in Inr (l_close D d, out, writeFile writable old result))"

lemma read_bytes_all: "read_bytes cs data = data @ cs"
  by (induction cs arbitrary: data) simp_all

lemma readFile_all [simp]: "readFile (Some content) = content" "readFile None = []"
  by (simp_all add: readFile_def read_bytes_all)

lemma convertString_from_all:
  "i + n \<le> length s \<Longrightarrow> convertString_from s i n result = result @ take n (drop i s)"
proof (induction n arbitrary: i result)
  case (Suc n)
  then have "take (Suc n) (drop i s) = s ! i # take n (drop (Suc i) s)"
    by (simp add: Cons_nth_drop_Suc [symmetric])
  with Suc show ?case by simp
qed simp

lemma convertString_id [simp]: "convertString s = s"
  by (simp add: convertString_def convertString_from_all)

lemma writeFile_all [simp]: "writeFile True old data = Some data"
proof -
  have "foldl (\<lambda>out c. out @ [c]) acc data = acc @ data" for acc :: string
    by (induction data arbitrary: acc) simp_all
  then show ?thesis by (simp add: writeFile_def)
qed

text \<open>The file written with one program is the file read with the other.\<close>

context healthy_leveldb
begin

lemma write_then_read:
  assumes "l_open L d True = (d1, True)" "write_main L d (Some content) = Inr d2"
    and "l_open L d2 False = (d3, True)"
  shows "store d2 = (store d)(''hello'' \<mapsto> ''World'', ''test'' \<mapsto> content)"
    and "\<exists>d4 out. read_main L True old d2 = Inr (d4, out, Some content) \<and> store d4 = store d2"
proof -
  have d1: "usable d1" "store d1 = store d" using open_store [OF assms(1)] by auto
  obtain da where da: "l_put L d1 ''hello'' ''World'' = (da, True)" "usable da"
    "store da = (store d1)(''hello'' \<mapsto> ''World'')" using put_step [OF d1(1)] by blast
  obtain db where db: "l_put L da ''test'' content = (db, True)"
    "store db = (store da)(''test'' \<mapsto> content)" using put_step [OF da(2)] by blast
  have d2: "d2 = l_close L db"
    using assms(1,2) da(1) db(1) by (simp add: write_main_def write_constructKV_def Let_def)
  then show s: "store d2 = (store d)(''hello'' \<mapsto> ''World'', ''test'' \<mapsto> content)"
    using close_store d1(2) da(3) db(2) by simp
  have d3: "usable d3" "store d3 = store d2" using open_store [OF assms(3)] by auto
  obtain d5 where d5: "l_get L d3 ''test'' = (d5, Some content)" "store d5 = store d3"
    using get_step [OF d3(1), of "''test''"] d3(2) s by auto
  then show "\<exists>d4 out. read_main L True old d2 = Inr (d4, out, Some content) \<and> store d4 = store d2"
    using assms(3) close_store [of d5] d3(2) by (simp add: read_main_def Let_def)
qed

end

end
