(* ===== verification/Block_Properties.thy ===== *)
theory Block_Properties
  imports Cache_Contract Leveldb_Tools
begin

text \<open>
  The properties of the block server, of the LevelDB server and its helper, and of the message
  transport between them, each with a concrete instance.
\<close>

definition sample_db :: ref_db where
  "sample_db = \<lparr>entries = [(''k1'', ''data'')], busy = 2, opened = False\<rparr>"

definition open_db :: ref_db where
  "open_db = \<lparr>entries = [], busy = 0, opened = True\<rparr>"

definition sample_machine :: "ref_db loop" where
  "sample_machine = \<lparr>lp_db = open_db, lp_up = True, lp_request = [], lp_reply = [], lp_pieces = [3, 0, 70000]\<rparr>"

definition no_operation :: operation where
  "no_operation = \<lparr>op_type = OP_ERROR, op_status = False, op_key = [], op_value = []\<rparr>"

definition sample_pipe :: "string \<Rightarrow> pipe" where
  "sample_pipe b = \<lparr>p_in = b, p_out = [], p_pieces = [0, 12, 1000]\<rparr>"

lemma small_fits: "length msg \<le> 1000 \<Longrightarrow> fits msg"
  by (simp add: fits_def MSG_SIZE_def)

lemma sample_machine_facts:
  "machine_ready opened sample_machine" "machine_contents ref_store sample_machine = Map.empty"
  by (simp_all add: sample_machine_def open_db_def machine_ready_def machine_contents_def ref_store_def)

section \<open>Messages\<close>

text \<open>C16. A message of at most \<open>MSG_SIZE - 4\<close> bytes is sent as one buffer, received whole in
  whatever pieces the network delivers the stream, and extracted unchanged.\<close>

theorem message_transport:
  assumes "sending N push" "receiving N2 inq rest" "fits msg" "inq t = framed msg"
  shows "sendLevelDBMsg N s msg = Inr (push s (framed msg)) \<and>
    (\<exists>t'. recv_loop N2 t [] = Inr (t', framed msg) \<and> rest t' = rest t) \<and>
    extractBuffer (receive_buffer (framed msg)) = Inr (msg, int (length msg))"
proof -
  have "send_loop N False s (framed msg) (int MSG_SIZE) = (push s (framed msg), True)"
    by (rule sending.send_loop_all [OF assms(1)]) (simp add: assms(3))
  with receiving.receives_framed [OF assms(2-4)] assms(3) show ?thesis
    by (auto simp: sendLevelDBMsg_def createBuffer_fits)
qed

theorem message_transport_witness:
  "\<exists>t'. recv_loop pipe_sockets (sample_pipe (framed ''get,k1'')) [] = Inr (t', framed ''get,k1'')"
  using message_transport [OF pipe_out.sending_axioms pipe_in.receiving_axioms, of "''get,k1''"
      "sample_pipe (framed ''get,k1'')"]
  by (auto simp: small_fits sample_pipe_def)

text \<open>C40. The server believes the length in the header of a message: one that claims more than the
  buffer holds makes it read and write outside its buffers.\<close>

theorem forged_length_kills_server:
  assumes "receiving N inq rest" "length (inq s) = MSG_SIZE"
    and "bytes_int (inq s) < 0 \<or> int MSG_SIZE < 4 + bytes_int (inq s)"
  shows "serve_connection N D h junk d s = Inl Buffer_Overflow"
proof -
  obtain s' where "recv_loop N s [] = Inr (s', inq s)"
    using receiving.recv_loop_all [OF assms(1), of "[]" s] assms(2) by auto
  with assms(2,3) show ?thesis
    by (simp add: serve_connection_def extractBuffer_def Let_def)
qed

theorem forged_length_kills_server_witness:
  "serve_connection pipe_sockets ref_leveldb True no_operation open_db
     (sample_pipe (int_bytes (- 1) @ replicate (MSG_SIZE - 4) nul)) = Inl Buffer_Overflow"
  by (rule forged_length_kills_server [OF pipe_in.receiving_axioms])
    (simp_all add: sample_pipe_def bytes_int_int_bytes)

section \<open>The LevelDB server\<close>

text \<open>One connection with a well-formed command: \<open>put\<close> stores the rest of the message after the
  second comma, commas included, and answers \<open>OK\<close>; \<open>get\<close> answers with the value, or
  \<open>Operation failed\<close> when the key is absent.\<close>

theorem server_answers:
  assumes "service L store usable N push inq rest" "usable d" "key_ok k"
    and "fits (put_command k v)" "inq s = framed (put_command k v)" "inq t = framed (get_command k)"
    and "\<And>v. store d k = Some v \<Longrightarrow> fits v"
  shows "(\<exists>s' d'. serve_connection N L True junk d s = Inr (s_close N (push s' (framed ''OK'')), d') \<and>
        usable d' \<and> store d' = (store d)(k \<mapsto> v)) \<and>
    (\<exists>t' d'. serve_connection N L True junk d t =
        Inr (s_close N (push t' (framed (case store d k of None \<Rightarrow> ''Operation failed'' | Some v \<Rightarrow> v))), d') \<and>
        usable d' \<and> store d' = store d)"
proof -
  have "fits (get_command k)" using assms(4) by (simp add: fits_def put_command_def get_command_def)
  with service.serve_put [OF assms(1-5)] service.serve_get [OF assms(1-3) _ assms(6,7)]
  show ?thesis by meson
qed

theorem server_answers_witness:
  "\<exists>s' d'. serve_connection pipe_sockets ref_leveldb True no_operation open_db
      (sample_pipe (framed (put_command ''k'' ''a,b''))) =
    Inr (s_close pipe_sockets (pipe_push s' (framed ''OK'')), d') \<and> ref_store d' = [''k'' \<mapsto> ''a,b'']"
  using server_answers [OF ref_service.service_axioms, of open_db "''k''" "''a,b''"
      "sample_pipe (framed (put_command ''k'' ''a,b''))" "sample_pipe (framed (get_command ''k''))" no_operation]
  by (auto simp: open_db_def key_ok_def small_fits put_command_def sample_pipe_def ref_store_def)

text \<open>A \<open>put\<close> with no second comma throws in \<open>substr\<close>, which nobody catches, so one such message
  ends the server.\<close>

theorem malformed_put_kills_server:
  assumes "receiving N inq rest" "key_ok k" "fits (''put,'' @ k)" "inq s = framed (''put,'' @ k)"
  shows "serve_connection N D h junk d s = Inl Out_Of_Range"
proof -
  obtain s' where s': "recv_loop N s [] = Inr (s', framed (''put,'' @ k))"
    "extractBuffer (receive_buffer (framed (''put,'' @ k))) = Inr (''put,'' @ k, int (length (''put,'' @ k)))"
    using receiving.receives_framed [OF assms(1,3,4)] by blast
  have "length k < 2 ^ 30" using assms(3) by (simp add: fits_def MSG_SIZE_def)
  note crash = do_operation_put_malformed [OF assms(2) this]
  show ?thesis
    unfolding serve_connection_def s' by (simp only: bind_exec_Inr prod.case crash s' bind_exec_Inl)
qed

theorem malformed_put_kills_server_witness:
  "serve_connection pipe_sockets ref_leveldb True no_operation open_db (sample_pipe (framed ''put,k'')) =
    Inl Out_Of_Range"
  using malformed_put_kills_server [OF pipe_in.receiving_axioms, of "''k''" "sample_pipe (framed ''put,k'')"]
  by (simp add: key_ok_def small_fits sample_pipe_def)

text \<open>The server carries out \<open>mget\<close> but never answers with what it found: the reply is
  \<open>Wrong action\<close> or \<open>Operation failed\<close>.\<close>

theorem mget_is_never_answered:
  assumes "do_operation D h d (''mget,'' @ k) junk = Inr (d', success, op)"
  shows "reply_text success op = (if l_seek D d (getline_or_empty k) = [] then ''Operation failed''
    else ''Wrong action'')"
proof -
  have "getline (''mget,'' @ k) = Some (''mget'', k)" using getline_field [of "''mget''" k] by simp
  with assms show ?thesis
    by (auto simp: do_operation_def multi_get_def reply_text_def bind_exec_eq_Inr Let_def split: if_splits)
qed

theorem mget_is_never_answered_witness:
  "\<exists>d' s op. do_operation ref_leveldb True sample_db ''mget,k1'' no_operation = Inr (d', s, op) \<and>
    reply_text s op = ''Wrong action''"
proof -
  have g: "getline ''mget,k1'' = Some (''mget'', ''k1'')" using getline_field [of "''mget''" "''k1''"] by simp
  have k: "getline_or_empty ''k1'' = ''k1''" by (rule getline_or_empty_last) (simp add: key_ok_def)
  have ne: "l_seek ref_leveldb sample_db ''k1'' \<noteq> []"
    by (simp add: ref_leveldb_def ref_seek_def sample_db_def)
  obtain s op where "do_operation ref_leveldb True sample_db ''mget,k1'' no_operation = Inr (sample_db, s, op)"
    using g ne by (auto simp: do_operation_def multi_get_def Let_def k)
  with mget_is_never_answered [of ref_leveldb True sample_db "''k1''" no_operation sample_db s op] ne k
  show ?thesis by simp
qed

section \<open>The helper and the server together\<close>

text \<open>C15. On a cache machine whose database works, what \<open>LevelDBHelper::put\<close> stores through both
  processes, \<open>get\<close> reads back, and other keys keep their values.\<close>

theorem helper_get_after_put:
  assumes "healthy_leveldb L store usable" "machine_ready usable s"
    and "map_admitted (machine_contents store s)" "entry_admitted k v"
  shows "\<exists>s1 s2. lh_put (machine L junk) s k v = Inr (s1, 0) \<and>
    lh_get (machine L junk) s1 k data = Inr (s2, 0, v) \<and>
    machine_contents store s2 = (machine_contents store s)(k \<mapsto> v) \<and> machine_ready usable s2"
  by (rule healthy_leveldb.machine_get_after_put [OF assms])

theorem helper_get_after_put_witness:
  "\<exists>s1 s2. lh_put (machine ref_leveldb no_operation) sample_machine ''k'' ''a,b'' = Inr (s1, 0) \<and>
    lh_get (machine ref_leveldb no_operation) s1 ''k'' [] = Inr (s2, 0, ''a,b'')"
proof -
  have "entry_admitted ''k'' ''a,b''"
    by (simp add: entry_admitted_def key_ok_def small_fits put_command_def)
  with helper_get_after_put [OF ref_kv.healthy_leveldb_axioms sample_machine_facts(1), of "''k''" "''a,b''"
      no_operation "[]"]
  show ?thesis by (auto simp: sample_machine_facts map_admitted_def)
qed

text \<open>A block whose bytes are \<open>Operation failed\<close> can be stored but reads as missing.\<close>

theorem unreadable_block:
  assumes "healthy_leveldb L store usable" "machine_ready usable s" "key_admitted k"
    and "machine_contents store s k = Some ''Operation failed''"
  shows "\<exists>s'. lh_get (machine L junk) s k data = Inr (s', 1, data)"
  using healthy_leveldb.machine_get_raw [OF assms(1-3), of junk data] assms(4)
  by (auto simp: small_fits)

theorem unreadable_block_witness:
  "\<exists>s'. lh_get (machine ref_leveldb no_operation)
      (sample_machine\<lparr>lp_db := open_db\<lparr>entries := [(''k'', ''Operation failed'')]\<rparr>\<rparr>) ''k'' [] = Inr (s', 1, [])"
  by (rule unreadable_block [OF ref_kv.healthy_leveldb_axioms])
    (simp_all add: sample_machine_def open_db_def machine_ready_def machine_contents_def ref_store_def
      key_admitted_def key_ok_def small_fits get_command_def)


text \<open>The helper drops the result of \<open>sendLocalMsg\<close>: when the message cannot be sent, \<open>put\<close>
  reports success and \<open>get\<close> reports success with no data.\<close>

theorem failed_send_reads_as_success:
  assumes "s_socket N s = (s1, True)" "s_resolve N s1"
    and "s_connect N s1 local_address leveldb_portno = (s2, True)"
    and "\<And>b. snd (s_send N s2 b) < 0" "fits (put_command k v)"
  shows "(\<exists>t. LevelDBHelper_put N s k v = Inr (t, 0)) \<and> (\<exists>t. LevelDBHelper_get N s k data = Inr (t, 0, []))"
proof -
  have send: "\<exists>t. send_loop N True s2 b (int MSG_SIZE) = (t, False)" for b
  proof -
    have "\<not> int MSG_SIZE \<le> 0" "\<not> int MSG_SIZE < int PACKET_SIZE" by (simp_all add: MSG_SIZE_def PACKET_SIZE_def)
    then show ?thesis
      using assms(4) [of "take PACKET_SIZE b"]
      by (subst send_loop.simps) (auto simp: Let_def split: prod.splits)
  qed
  have "fits (get_command k)" using assms(5) by (simp add: fits_def put_command_def get_command_def)
  then have "\<exists>t. sendLocalMsg N s (get_command k) [] leveldb_portno True = Inr (t, 1, [])"
    using assms(1-3) send [of "framed (get_command k)"] by (auto simp: sendLocalMsg_def createBuffer_fits)
  moreover have "\<exists>t. sendLocalMsg N s (put_command k v) [] leveldb_portno True = Inr (t, 1, [])"
    using assms(1-3,5) send [of "framed (put_command k v)"] by (auto simp: sendLocalMsg_def createBuffer_fits)
  ultimately show ?thesis
    by (auto simp: LevelDBHelper_get_def LevelDBHelper_put_def get_command_def put_command_def)
qed

theorem failed_send_reads_as_success_witness:
  "\<exists>t. LevelDBHelper_get (pipe_sockets\<lparr>s_send := (\<lambda>s b. (s, - 1))\<rparr>) (sample_pipe []) ''k'' [] = Inr (t, 0, [])"
  using failed_send_reads_as_success [of "pipe_sockets\<lparr>s_send := (\<lambda>s b. (s, - 1))\<rparr>" "sample_pipe []"
      "sample_pipe []" "sample_pipe []" "''k''" "''v''" "[]"]
  by (simp add: pipe_sockets_def small_fits put_command_def)

section \<open>The block server\<close>

text \<open>C29. Opening the database is tried until it succeeds: the loop ends when the lock is held only
  for a while, and never ends, leaving the request unanswered, when every attempt fails.\<close>

theorem open_loop:
  assumes "lockable_leveldb L store usable tries" "\<And>d create. \<not> snd (l_open D d create)"
  shows "(\<exists>d'. open_until L create d = Some d' \<and> usable d' \<and> store d' = store d) \<and>
    open_until D create d2 = None"
proof -
  have "open_until D create d2 = None"
    using open_until_never [of D] assms(2) by blast
  with lockable_leveldb.open_until_total [OF assms(1)] show ?thesis by blast
qed

theorem open_loop_witness:
  "(\<exists>d'. open_until ref_leveldb True sample_db = Some d' \<and> opened d') \<and>
    open_until (ref_leveldb\<lparr>l_open := (\<lambda>d create. (d, False))\<rparr>) True sample_db = None"
  using open_loop [OF ref_kv.lockable_leveldb_axioms, of "ref_leveldb\<lparr>l_open := (\<lambda>d create. (d, False))\<rparr>"
      True sample_db sample_db]
  by auto

text \<open>C17. A block stored by \<open>block_store\<close> is served by \<open>block_fetch\<close> byte for byte, with its length,
  and no other block changes, also when the lookup of the server's own address makes the
  store answer with an error page.\<close>

theorem store_then_fetch:
  assumes "lockable_leveldb L store usable tries"
    and "content_length r = Some (show_nat (length b))" "stdin_bytes r = b" "length b \<le> STORE_STDIN_MAX"
    and "query_string r = Some (''hash='' @ k)" "length k + 5 < 2 ^ 31" "getIPAddress eth0 [] = Inr (s, ip)"
    and "string_of_ptr (fst (gstdin FETCH_STDIN_MAX q)) (memory_after q) = Inr c"
    and "query_string q = Some (''hash='' @ k)"
  shows "\<exists>d1 d2 out. block_store_request L eth0 d r = Some (Inr (d1, out)) \<and>
    (out = outputSuccessMessage k ip \<or> s \<noteq> 0 \<and> out = errorPage ''Unable to retrieve IP address'') \<and>
    block_fetch_request L d1 q = Some (Inr (d2, fetch_header (length b) @ b)) \<and>
    store d2 = (store d)(k \<mapsto> b)"
proof -
  have h: "getBlockHash (''hash='' @ k) [] = Inr (0, k)" using assms(6) by (rule getBlockHash_hash)
  have b: "getRequestBody r = b" using getRequestBody_announced [OF assms(2,4)] assms(3) by simp
  obtain d1 where d1: "block_store_request L eth0 d r = Some (Inr (d1, if s = 0 then outputSuccessMessage k ip
      else errorPage ''Unable to retrieve IP address''))" "store d1 = (store d)(k \<mapsto> b)"
    using lockable_leveldb.block_store_outcome [OF assms(1,5) h assms(7), of d] b by auto
  obtain d2 where "block_fetch_request L d1 q = Some (Inr (d2, fetch_header (length b) @ b))" "store d2 = store d1"
    using lockable_leveldb.block_fetch_outcome [OF assms(1,8,9) h, of d1] d1(2) by auto
  with d1 show ?thesis by auto
qed

definition store_request :: request where
  "store_request = \<lparr>content_length = Some (show_nat (length ''abc'')), query_string = Some (''hash='' @ ''k2''),
     stdin_bytes = ''abc'', memory_after = []\<rparr>"

definition fetch_request :: request where
  "fetch_request = \<lparr>content_length = Some (show_nat 0), query_string = Some (''hash='' @ ''k2''),
     stdin_bytes = [], memory_after = [nul]\<rparr>"

theorem store_then_fetch_witness:
  "\<exists>d1 d2 out. block_store_request ref_leveldb [] sample_db store_request = Some (Inr (d1, out)) \<and>
    block_fetch_request ref_leveldb d1 fetch_request = Some (Inr (d2, fetch_header (length ''abc'') @ ''abc''))"
proof -
  have "getIPAddress [] [] = Inr (1, [])"
    by (simp add: getIPAddress_def getEth0Info_def str_find_def Let_def)
  moreover have "string_of_ptr (fst (gstdin FETCH_STDIN_MAX fetch_request)) (memory_after fetch_request) = Inr []"
    by (rule empty_request_body) (simp_all add: fetch_request_def)
  ultimately show ?thesis
    using store_then_fetch [OF ref_kv.lockable_leveldb_axioms, of store_request "''abc''" "''k2''" "[]" 1 "[]"
        fetch_request "[]" sample_db]
    by (auto simp: store_request_def fetch_request_def STORE_STDIN_MAX_def)
qed

text \<open>C19. The worker \<open>block_store\<close> answers every request of a sequence, and the database afterwards
  holds the bodies under the names of the requests, later ones over earlier ones.\<close>

theorem store_main_serves_all:
  assumes "lockable_leveldb L store usable tries"
    and "\<forall>r \<in> set rs. \<exists>k. query_string r = Some (''hash='' @ k) \<and> length k + 5 < 2 ^ 31"
    and "getIPAddress eth0 [] = Inr (s, ip)"
  shows "\<exists>outs d'. block_store_main L eth0 d rs = Some (outs, Inr d') \<and> length outs = length rs \<and>
    store d' = stored_blocks (store d) rs"
  by (rule lockable_leveldb.block_store_main_answers [OF assms])

lemma no_address: "getIPAddress [] [] = Inr (1, [])"
  by (simp add: getIPAddress_def getEth0Info_def str_find_def Let_def)

theorem store_main_serves_all_witness:
  "\<exists>outs d'. block_store_main ref_leveldb [] sample_db [store_request, store_request] = Some (outs, Inr d') \<and>
    length outs = 2 \<and> ref_store d' ''k2'' = Some (getRequestBody store_request)"
  using store_main_serves_all [OF ref_kv.lockable_leveldb_axioms _ no_address, of "[store_request, store_request]" sample_db]
  by (auto simp: store_request_def)

text \<open>\<open>getRequestBody\<close> delivers exactly the announced number of bytes: more input is cut off,
  and input that ends early is filled up with bytes 255, which are then stored as data.\<close>

theorem request_body_length:
  assumes "content_length r = Some (show_nat n)" "n \<le> STORE_STDIN_MAX"
  shows "length (getRequestBody r) = n \<and>
    (\<forall>i < n. getRequestBody r ! i = (if i < length (stdin_bytes r) then stdin_bytes r ! i else CHR 0xFF))"
  unfolding getRequestBody_announced [OF assms] by (auto simp: nth_append)

theorem request_body_length_witness:
  "getRequestBody (store_request\<lparr>stdin_bytes := ''a''\<rparr>) ! 2 = CHR 0xFF"
  using request_body_length [of "store_request\<lparr>stdin_bytes := ''a''\<rparr>" "length ''abc''"]
  by (simp add: store_request_def STORE_STDIN_MAX_def)

section \<open>Cache machines\<close>

lemma sample_node: "cache_node (machine ref_leveldb no_operation) (machine_contents ref_store)
    (machine_ready opened) (block_gateway ref_leveldb []) ref_store url_key"
  by (rule ref_deployment.node.cache_node_axioms)

lemma sample_web: "ref_store sample_db = [''k1'' \<mapsto> ''data'']"
  by (simp add: ref_store_def sample_db_def)

lemma sample_keys: "url_key ''k1''" "url_key ''k3''" "entry_admitted ''k1'' ''data''"
  by (simp_all add: url_key_def entry_admitted_def key_ok_def small_fits put_command_def)

text \<open>C3. On a cache machine in front of the block server, in any sequence of fetches and prefetches: a
  block the server holds is answered with status 200 and its content, any other one with the
  server's error page; a cached entry is the server's block, or that page when the server does not
  hold the block; the cache has exactly the keys it started with, those fetched, and those of
  the prefetched ones that the server holds; and whatever is requested next gets an answer. The
  cache starts out with such entries; the keys have fewer than 1000 characters, all ASCII from the
  digit 0 upwards, the server's blocks among them fit into a message of the cache, and no block is
  stored meanwhile.\<close>

theorem cache_serves_right_blocks:
  assumes "deployment L store usable B bstore busable tries"
    and "node_run (machine L junk) (block_gateway B eth0) (s0, h0) es (s, h)"
    and "machine_ready usable s0" "map_admitted (machine_contents store s0)"
    and "reflects missing_page (bstore h0) (machine_contents store s0)"
    and "\<forall>e \<in> set es. event_requestable url_key (bstore h0) e"
  shows "(\<forall>e \<in> set es. event_right missing_page (bstore h0) e) \<and>
    reflects missing_page (bstore h) (machine_contents store s) \<and> bstore h = bstore h0 \<and>
    dom (machine_contents store s) = dom (machine_contents store s0) \<union> (\<Union>e \<in> set es. event_keys (bstore h0) e) \<and>
    (\<forall>e. event_requestable url_key (bstore h0) e \<longrightarrow> node_takes (machine L junk) (block_gateway B eth0) s h e)"
  using deployment.machine_run [OF assms(1-6)] .

text \<open>A block the server holds, and one it does not hold.\<close>

theorem cache_serves_right_blocks_witness:
  "\<exists>s h out out'. node_run (machine ref_leveldb no_operation) (block_gateway ref_leveldb [])
      (sample_machine, sample_db) [Fetched ''k1'' out, Fetched ''k3'' out'] (s, h) \<and>
    (out = cached_reply ''data'' \<or> (\<exists>t. out = forwarded_reply ''200'' t ''data'')) \<and>
    event_right missing_page (ref_store sample_db) (Fetched ''k3'' out') \<and>
    dom (machine_contents ref_store s) = {''k1'', ''k3''}"
proof -
  let ?H = "machine ref_leveldb no_operation" and ?X = "block_gateway ref_leveldb []"
  have "map_admitted (machine_contents ref_store sample_machine)"
    "reflects missing_page (ref_store sample_db) (machine_contents ref_store sample_machine)"
    by (simp_all add: sample_machine_facts map_admitted_def reflects_def)
  then have s0: "ref_deployment.pages.filled sample_machine sample_db"
    using sample_machine_facts(1) by (simp add: ref_deployment.pages.filled_def)
  have ok: "event_requestable url_key (ref_store sample_db) (Fetched ''k1'' out)"
    "event_requestable url_key (ref_store sample_db) (Fetched ''k3'' out)" for out
    using sample_web sample_keys by (auto simp: event_requestable_def)
  obtain s1 h1 out where 1: "answer_block ?H ?X sample_machine sample_db ''k1'' = Inr (s1, h1, out)"
    "ref_deployment.pages.filled s1 h1" "ref_store h1 = ref_store sample_db"
    using ref_deployment.pages.answer_filled [OF s0 ok(1), of no_operation "[]"] by blast
  obtain s2 h2 out' where 2: "answer_block ?H ?X s1 h1 ''k3'' = Inr (s2, h2, out')"
    using ref_deployment.pages.answer_filled [OF 1(2), of "''k3''" "[]" no_operation "[]"] ok(2) 1(3) by auto
  have run: "node_run ?H ?X (sample_machine, sample_db) (([] @ [Fetched ''k1'' out]) @ [Fetched ''k3'' out']) (s2, h2)"
    by (rule node_fetch [OF node_fetch [OF node_start 1(1)] 2])
  have "\<forall>e \<in> set (([] @ [Fetched ''k1'' out]) @ [Fetched ''k3'' out']). event_requestable url_key (ref_store sample_db) e"
    using ok by simp
  from cache_serves_right_blocks [OF ref_deployment.deployment_axioms run sample_machine_facts(1) _ _ this]
  have "event_right missing_page (ref_store sample_db) (Fetched ''k1'' out)"
    "event_right missing_page (ref_store sample_db) (Fetched ''k3'' out')"
    "dom (machine_contents ref_store s2) = {''k1'', ''k3''}"
    by (auto simp: sample_machine_facts map_admitted_def reflects_def simp del: event_right.simps)
  with run sample_web show ?thesis by (intro exI [of _ s2] exI [of _ h2] exI [of _ out] exI [of _ out']) simp
qed

text \<open>C30. When the block server does not hold a block, the error page it answers with is stored in
  the cache, and the next request for the block gets that page with status 200.\<close>

theorem error_page_is_cached:
  assumes "cache_node H contents ready X blocks served"
    and "ready s" "map_admitted (contents s)" "contents s k = None" "served k" "blocks h k = None"
    and "\<And>h' e t page code. requestFromBlockServer X h k [] [] [] = Inr (h', e, t, page, code) \<Longrightarrow> entry_admitted k page"
  shows "\<exists>s1 h1 t page code s2. answer_block H X s h k = Inr (s1, h1, forwarded_reply code t page) \<and>
    code \<noteq> ''200'' \<and> answer_block H X s1 h1 k = Inr (s2, h1, cached_reply page)"
  using cache_node.poisoned [OF assms] .

theorem error_page_is_cached_witness:
  "\<exists>s1 h1 t page code s2. answer_block (machine ref_leveldb no_operation) (block_gateway ref_leveldb [])
      sample_machine sample_db ''k3'' = Inr (s1, h1, forwarded_reply code t page) \<and> code \<noteq> ''200'' \<and>
    answer_block (machine ref_leveldb no_operation) (block_gateway ref_leveldb []) s1 h1 ''k3'' =
      Inr (s2, h1, cached_reply page)"
proof (rule error_page_is_cached [OF sample_node sample_machine_facts(1)])
  fix h' e t page code
  assume a: "requestFromBlockServer (block_gateway ref_leveldb []) sample_db ''k3'' [] [] [] = Inr (h', e, t, page, code)"
  obtain d where "n_dispatch (block_gateway ref_leveldb []) sample_db (c_str block_ip) (c_str ''GET'')
      (c_str (''/block_fetch?hash='' @ ''k3'')) [] =
      (d, cgi_result (outputErrorLine ''Key does not exist''))"
    using ref_kv.gateway_fetch [OF sample_keys(2), of "[]" sample_db "c_str block_ip" "c_str ''GET''"] sample_web
    by auto
  with a have "page = ''<html><p>400 Key does not exist</p></html>'' @ [CHR 0x0A]"
    by (auto simp: requestFromBlockServer_def sendHttpRequest_def cgi_result_failed)
  then show "entry_admitted ''k3'' page"
    by (simp add: entry_admitted_def key_ok_def small_fits put_command_def)
qed (use sample_keys in \<open>auto simp: sample_machine_facts sample_web map_admitted_def\<close>)

text \<open>C18. A block stored through one cache machine is what any cache machine answers with whose
  entries are the blocks of the block server, among them the one just stored: it does not hold
  something else under the name.\<close>

theorem store_through_cache:
  assumes "deployment L store usable B bstore busable tries"
    and "url_key k" "query_string r = Some (''hash='' @ k)" "length (stdin_bytes r) \<le> STORE_STDIN_MAX"
    and "getIPAddress eth0 [] = Inr (e, ip)" "entry_admitted k (stdin_bytes r)"
    and "machine_ready usable s" "map_admitted (machine_contents store s)"
    and "machine_contents store s \<subseteq>\<^sub>m (bstore h)(k \<mapsto> stdin_bytes r)"
  shows "\<exists>h1 page s2 h2 out.
    cache_block_store_request (block_gateway B eth0) h r = Inr (h1, page) \<and>
    bstore h1 = (bstore h)(k \<mapsto> stdin_bytes r) \<and>
    answer_block (machine L junk) (block_gateway B eth0) s h1 k = Inr (s2, h2, out) \<and>
    (out = cached_reply (stdin_bytes r) \<or> (\<exists>t. out = forwarded_reply ''200'' t (stdin_bytes r)))"
  by (rule deployment.store_then_answer [OF assms])

theorem store_through_cache_witness:
  "\<exists>h1 page s2 h2 out.
    cache_block_store_request (block_gateway ref_leveldb []) sample_db store_request = Inr (h1, page) \<and>
    answer_block (machine ref_leveldb no_operation) (block_gateway ref_leveldb []) sample_machine h1 ''k2'' =
      Inr (s2, h2, out) \<and>
    (out = cached_reply ''abc'' \<or> (\<exists>t. out = forwarded_reply ''200'' t ''abc''))"
proof -
  have "url_key ''k2''" "entry_admitted ''k2'' ''abc''"
    by (simp_all add: url_key_def entry_admitted_def key_ok_def small_fits put_command_def)
  then show ?thesis
    using store_through_cache [OF ref_deployment.deployment_axioms, of "''k2''" store_request "[]" 1 "[]"
        sample_machine sample_db no_operation] no_address
    by (auto simp: store_request_def STORE_STDIN_MAX_def sample_machine_facts map_admitted_def)
qed

section \<open>The LevelDB tools\<close>

text \<open>The file that \<open>write.cc\<close> puts into the database is the file that \<open>read.cc\<close> writes out.\<close>

theorem tools_round_trip:
  assumes "healthy_leveldb L store usable" "l_open L d True = (d1, True)"
    and "write_main L d (Some content) = Inr d2" "l_open L d2 False = (d3, True)"
  shows "store d2 = (store d)(''hello'' \<mapsto> ''World'', ''test'' \<mapsto> content) \<and>
    (\<exists>d4 out. read_main L True old d2 = Inr (d4, out, Some content) \<and> store d4 = store d2)"
  using healthy_leveldb.write_then_read [OF assms] by blast

theorem tools_round_trip_witness:
  "\<exists>d2 d4 out. write_main ref_leveldb open_db (Some ''GIF89a'') = Inr d2 \<and>
    read_main ref_leveldb True None d2 = Inr (d4, out, Some ''GIF89a'')"
proof -
  have o: "l_open ref_leveldb open_db True = (open_db, True)" by (simp add: ref_leveldb_def open_db_def)
  obtain d2 where d2: "write_main ref_leveldb open_db (Some ''GIF89a'') = Inr d2" "busy d2 = 0"
    by (simp add: write_main_def ref_leveldb_def open_db_def write_constructKV_def Let_def)
  have "l_open ref_leveldb d2 False = (d2\<lparr>opened := True\<rparr>, True)" using d2(2) by (simp add: ref_leveldb_def)
  from tools_round_trip [OF ref_kv.healthy_leveldb_axioms o d2(1) this] d2(1) show ?thesis by blast
qed

end
