(* ===== verification/System_Properties.thy ===== *)
theory System_Properties
  imports Whole_System Meta_Properties Block_Properties
begin

text \<open>
  The properties of the machines together: what a client's request to a cache machine sets in
  motion on the metadata server and the block server.
\<close>

interpretation ref_balabox: balabox ref_json elems members sendable ref_mysql ref_tables ref_result "(=)" ref_open
    ref_leveldb ref_store opened ref_leveldb ref_store opened busy ..

text \<open>C8. A client fetches a block through a cache machine; the message the worker sends to the
  prefetcher makes the prefetcher ask the metadata server for the user's ten most recent blocks.\<close>

theorem fetch_then_prefetch:
  assumes "balabox J j_elems j_members sendable M tables pending coll up L store usable B bstore busable tries"
    and "machine_ready usable s" "map_admitted (machine_contents store s)"
      "machine_contents store s \<subseteq>\<^sub>m bstore b"
    and "url_key k" "bstore b k = Some blk" "entry_admitted k blk" "plain k" "sendable k"
    and "clean u" "plain u" "sendable u" "length u + length k < 973"
    and "sendable ''userID''" "sendable ''hash''" "sendable ''block_list''"
    and "\<forall>row \<in># user_blocks coll u (tables c). sendable (fb_hash row) \<and> url_key (fb_hash row) \<and>
        key_admitted (fb_hash row) \<and> (\<forall>v. bstore b (fb_hash row) = Some v \<longrightarrow> entry_admitted (fb_hash row) v)"
    and "sending N push" "s_socket N q = (q, True)" "s_resolve N q"
      "s_connect N q loopback_address prefetch_portno = (q, True)"
    and "query_string r = Some (render_query [(''hash'', k), (''user'', u)])"
  shows "\<exists>s1 st1 out s2 st2 xs.
    cache_block_fetch_request (machine L junk) (internet (meta_gateway J M) (block_gateway B eth0)) N (s, (c, b), q) r =
      Inr ((s1, st1, s_close N (push q (padded (prefetch_message u k)))), out) \<and>
    (out = cached_reply blk \<or> (\<exists>t. out = forwarded_reply ''200'' t blk)) \<and>
    prefetch_request J (machine L junk) (internet (meta_gateway J M) (block_gateway B eth0)) (s1, st1)
      \<lparr>pc_bytes = padded (prefetch_message u k), pc_after = rest\<rparr> = Inr (s2, st2) \<and>
    mset xs = user_blocks coll u (tables c) \<and> sorted_wrt recent_order xs \<and>
    machine_contents store s2 =
      (machine_contents store s)(k \<mapsto> blk) ++ bstore b |` set (map fb_hash (take 10 xs))"
  by (rule balabox.fetch_starts_prefetch [OF assms])

definition web_db :: ref_db where
  "web_db = \<lparr>entries = [(''k1'', ''data''), (''h0'', ''zero'')], busy = 1, opened = False\<rparr>"

definition client_request :: request where
  "client_request = \<lparr>content_length = None, query_string = Some ''hash=k1&user=ann'', stdin_bytes = [],
     memory_after = []\<rparr>"

lemma web_blocks: "ref_store web_db = [''h0'' \<mapsto> ''zero'', ''k1'' \<mapsto> ''data'']"
  by (simp add: ref_store_def web_db_def fun_upd_twist)

lemma ann_blocks: "image_mset fb_hash (user_blocks (=) ''ann'' (ref_tables sample_server)) = {#''h0'', ''h1''#}"
  by (simp add: user_blocks_def ref_tables_def sample_server_def)

theorem fetch_then_prefetch_witness:
  "\<exists>s1 st1 q1 out s2 st2.
    cache_block_fetch_request (machine ref_leveldb no_operation)
      (internet (meta_gateway ref_json ref_mysql) (block_gateway ref_leveldb [])) pipe_sockets
      (sample_machine, (sample_server, web_db), sample_pipe []) client_request = Inr ((s1, st1, q1), out) \<and>
    prefetch_request ref_json (machine ref_leveldb no_operation)
      (internet (meta_gateway ref_json ref_mysql) (block_gateway ref_leveldb [])) (s1, st1)
      \<lparr>pc_bytes = padded (prefetch_message ''ann'' ''k1''), pc_after = []\<rparr> = Inr (s2, st2) \<and>
    machine_contents ref_store s2 = [''h0'' \<mapsto> ''zero'', ''k1'' \<mapsto> ''data'']"
proof -
  let ?B = "user_blocks (=) ''ann'' (ref_tables sample_server)"
  have adm: "entry_admitted ''k1'' ''data''" "entry_admitted ''h0'' ''zero''" "key_admitted ''h1''" "key_admitted ''h0''"
    by (simp_all add: entry_admitted_def key_admitted_def key_ok_def small_fits put_command_def get_command_def)
  have url: "url_key ''k1''" "url_key ''h0''" "url_key ''h1''" by (simp_all add: url_key_def)
  have send: "sendable ''k1''" "sendable ''ann''" "sendable ''userID''" "sendable ''hash''" "sendable ''block_list''"
      "sendable ''h0''" "sendable ''h1''"
    by (simp_all add: sendable_def)
  have hashes: "fb_hash ` set_mset ?B = {''h0'', ''h1''}"
    using arg_cong [OF ann_blocks, of set_mset] by auto
  have rows: "\<forall>row \<in># ?B. sendable (fb_hash row) \<and> url_key (fb_hash row) \<and>
      key_admitted (fb_hash row) \<and> (\<forall>v. ref_store web_db (fb_hash row) = Some v \<longrightarrow> entry_admitted (fb_hash row) v)"
  proof
    fix row
    assume "row \<in># ?B"
    then have "fb_hash row = ''h0'' \<or> fb_hash row = ''h1''" using hashes by blast
    then show "sendable (fb_hash row) \<and> url_key (fb_hash row) \<and> key_admitted (fb_hash row) \<and>
        (\<forall>v. ref_store web_db (fb_hash row) = Some v \<longrightarrow> entry_admitted (fb_hash row) v)"
      by (elim disjE) (simp_all add: web_blocks adm url send)
  qed
  have names: "plain ''k1''" "plain ''ann''" by (simp_all add: plain_def)
  have ready: "map_admitted (machine_contents ref_store sample_machine)"
    "machine_contents ref_store sample_machine \<subseteq>\<^sub>m ref_store web_db"
    by (simp_all add: sample_machine_facts map_admitted_def)
  have query: "query_string client_request = Some (render_query [(''hash'', ''k1''), (''user'', ''ann'')])"
    by (simp add: client_request_def)
  have held: "ref_store web_db ''k1'' = Some ''data''" by (simp add: web_blocks)
  have len: "length ''ann'' + length ''k1'' < 973" by simp
  have sock: "s_socket pipe_sockets (sample_pipe []) = (sample_pipe [], True)" "s_resolve pipe_sockets (sample_pipe [])"
    "s_connect pipe_sockets (sample_pipe []) loopback_address prefetch_portno = (sample_pipe [], True)"
    by (simp_all add: pipe_sockets_def)
  from fetch_then_prefetch [OF ref_balabox.balabox_axioms sample_machine_facts(1) ready url(1) held adm(1) names(1)
      send(1) sample_names(7) names(2) send(2) len send(3-5) rows pipe_out.sending_axioms sock query,
      of no_operation "[]" "[]"]
  obtain s1 st1 q1 out s2 st2 xs where run:
    "cache_block_fetch_request (machine ref_leveldb no_operation)
      (internet (meta_gateway ref_json ref_mysql) (block_gateway ref_leveldb [])) pipe_sockets
      (sample_machine, (sample_server, web_db), sample_pipe []) client_request = Inr ((s1, st1, q1), out)"
    "prefetch_request ref_json (machine ref_leveldb no_operation)
      (internet (meta_gateway ref_json ref_mysql) (block_gateway ref_leveldb [])) (s1, st1)
      \<lparr>pc_bytes = padded (prefetch_message ''ann'' ''k1''), pc_after = []\<rparr> = Inr (s2, st2)"
    "mset xs = ?B"
    "machine_contents ref_store s2 = (machine_contents ref_store sample_machine)(''k1'' \<mapsto> ''data'') ++
       ref_store web_db |` set (map fb_hash (take 10 xs))" by blast
  have ms: "mset (map fb_hash xs) = {#''h0'', ''h1''#}" using ann_blocks run(3) by simp
  have "length xs = 2" using arg_cong [OF ms, of size] by simp
  moreover have "set (map fb_hash xs) = {''h0'', ''h1''}" using arg_cong [OF ms, of set_mset] by simp
  ultimately have "set (map fb_hash (take 10 xs)) = {''h0'', ''h1''}" by simp
  then have "machine_contents ref_store s2 = [''h0'' \<mapsto> ''zero'', ''k1'' \<mapsto> ''data'']"
    unfolding run(4) by (auto simp: sample_machine_facts web_blocks fun_eq_iff map_add_def restrict_map_def)
  with run(1,2) show ?thesis by blast
qed

text \<open>C33. A request whose user and block names are longer than 973 bytes together overflows the
  stack buffer of the message to the prefetcher, after the block has been fetched.\<close>

theorem long_request_overflows:
  assumes "cache_node H contents ready X blocks served"
    and "ready s" "map_admitted (contents s)" "contents s \<subseteq>\<^sub>m blocks h"
    and "served k" "blocks h k = Some b" "entry_admitted k b"
    and "plain k" "plain u" "length k + length u < 2 ^ 30" "973 < length u + length k"
    and "query_string r = Some (render_query [(''hash'', k), (''user'', u)])"
    and "s_socket N q = (q1, True)" "s_resolve N q1"
  shows "cache_block_fetch_request H X N (s, h, q) r = Inl Buffer_Overflow"
proof -
  have "cache_node.coherent contents ready blocks s h" "cache_node.requestable blocks served h k"
    using assms(2-7) by (simp_all add: cache_node.coherent_def [OF assms(1)] cache_node.requestable_def [OF assms(1)])
  then obtain s' h' out where "answer_block H X s h k = Inr (s', h', out)"
    using cache_node.answer_held [OF assms(1)] by blast
  moreover have "sendMsg N q (prefetch_message u k) = Inl Buffer_Overflow"
    by (rule sendMsg_too_long [OF assms(13,14)])
      (use assms(11) in \<open>simp add: length_prefetch_message PREFETCH_MSG_SIZE_def\<close>)
  ultimately show ?thesis
    using fetch_query [OF assms(8-10)] assms(12) by (simp add: cache_block_fetch_request_def)
qed

theorem long_request_overflows_witness:
  "cache_block_fetch_request (machine ref_leveldb no_operation) (block_gateway ref_leveldb []) pipe_sockets
     (sample_machine, web_db, sample_pipe [])
     (client_request\<lparr>query_string := Some (render_query [(''hash'', ''k1''), (''user'', replicate 972 (CHR ''x''))])\<rparr>) =
   Inl Buffer_Overflow"
proof (rule long_request_overflows [OF sample_node sample_machine_facts(1)])
  show "entry_admitted ''k1'' ''data''" "url_key ''k1''" using sample_keys by simp_all
qed (simp_all add: sample_machine_facts map_admitted_def web_blocks plain_def pipe_sockets_def)

end
