(* ===== verification/Client_Properties.thy ===== *)
theory Client_Properties
  imports Ref_Client System_Properties
begin

text \<open>
  The properties of a whole synchronisation: what a client uploads through a cache machine is
  what any client gets back.
\<close>

section \<open>The reference system\<close>

definition ref_eth0 :: "string list" where
  "ref_eth0 = [''eth0 Link encap:Ethernet'', ''inet addr:10.0.0.12    Bcast:10.0.0.255'']"

definition ref_host :: string where
  "ref_host = ''cache-sfo.raycoll.me''"

lemma ref_address: "getIPAddress ref_eth0 [] = Inr (0, ''10.0.0.12    '')"
proof -
  have "getEth0Info ref_eth0 = ''eth0 Link encap:Ethernetinet addr:10.0.0.12    Bcast:10.0.0.255''"
    by code_simp
  moreover have "str_find ''eth0 Link encap:Ethernetinet addr:10.0.0.12    Bcast:10.0.0.255'' ''inet addr'' 0 = 24"
    by (simp add: str_find_def)
  ultimately show ?thesis
    by (simp add: getIPAddress_def Let_def to_int_small to_size_def str_substr_def npos_def)
qed

lemma digits_hash_key: "(\<And>c. c \<in> set ds \<Longrightarrow> is_digit c) \<Longrightarrow> hash_key (take 64 ds)"
  unfolding hash_key_def by (auto dest: in_set_takeD)

lemma ref_sha_key: "hash_key (ref_sha v)"
  unfolding ref_sha_def by (rule digits_hash_key) auto

lemma hash_key_sendable: "hash_key k \<Longrightarrow> sendable k"
  using hash_key_char [of k] unfolding sendable_def by fastforce

interpretation ref_synced: synced ref_json elems members sendable ref_mysql ref_tables ref_result "(=)" ref_open
    ref_leveldb ref_store opened ref_leveldb ref_store opened busy ref_loads ref_dumps py_of
    pipe_sockets pipe_push ref_eth0 "''10.0.0.12    ''" no_operation ref_host ref_sha
proof unfold_locales
  fix k
  assume "k \<in> set field_names"
  then show "sendable k" by (auto simp: field_names_def sendable_def)
qed (auto simp: ref_address ref_sha_key hash_key_sendable ref_host_def pipe_sockets_def)

section \<open>Uploads and downloads\<close>

lemma downloaded_pieces:
  assumes "\<forall>(p, v) \<in> set pieces. m (sha v) = Some v"
  shows "map (\<lambda>k. the (m k)) (map (\<lambda>(p, v). sha v) pieces) = map snd pieces"
  using assms by auto

text \<open>C9. A file uploaded through one cache machine comes back byte for byte when it is downloaded
  through any cache machine whose entries are current, with the version of the upload.\<close>

theorem uploaded_file_comes_back:
  assumes "synced J j_elems j_members sendable M tables pending coll up L store usable B bstore busable tries
      loads dumps val N push eth0 ip host sha"
    and "E = web_client J M (machine L junk) (block_gateway B eth0) N loads dumps sha"
    and "represents coll (tables c) F" "published F (bstore b)" "archive sha (bstore b)"
      "size (fileblock (tables c)) < 2 ^ 31"
    and "pieces \<noteq> []" "distinct (map fst pieces)" "length pieces \<le> 99999"
      "\<forall>(p, v) \<in> set pieces. CHR '' '' \<notin> set p \<and> block_ok v"
      "inj_on sha (ran (bstore b) \<union> snd ` set pieces)"
    and "name_ok u" "plain u" "sendable u" "name_ok f" "plain f" "sendable f" "sendable vt"
      "0 \<le> sint (commit_version vt)"
    and "hs = map (\<lambda>(p, v). sha v) pieces" "length (dumps (query_fields u f hs)) \<le> STDIN_MAX"
      "length (dumps (query_fields u f hs @ [(''version'', PStr vt)])) \<le> STDIN_MAX"
    and "accepts (fst (F u f)) (snd (F u f)) (commit_version vt)"
    and "machine_ready usable s2" "machine_contents store s2 \<subseteq>\<^sub>m bstore b"
  shows "\<exists>c1 b1 c2 v l w. upFile E host u (s, (c, b), q) f vt pieces = Inr ((s, (c1, b1), q), True) \<and>
    getBlockList E (s2, (c1, b1), q2) f u = Inr ((s2, (c2, b1), q2), Some v) \<and>
    item v ''version'' = Inr (PInt (int (unat (commit_version vt)))) \<and> item v ''block_list'' = Inr l \<and>
    downFile E host u (s2, (c2, b1), q2) l = Inr (w, Some (concat (map snd pieces)))"
proof -
  let ?F = "set_file coll u f (stamped hs (unat (commit_version vt))) F"
  have few: "length pieces < 2 ^ 31" using assms(9) by simp
  obtain c1 b1 where up: "upFile E host u (s, (c, b), q) f vt pieces = Inr ((s, (c1, b1), q), True)"
    "represents coll (tables c1) ?F" "published ?F (bstore b1)" "archive sha (bstore b1)"
    "bstore b \<subseteq>\<^sub>m bstore b1" "\<forall>(p, v) \<in> set pieces. bstore b1 (sha v) = Some v"
    using synced.upFile_effect [OF assms(1,3-8) few assms(10-15,17-22) refl refl, where s = s and q = q and junk = junk]
      assms(2,23) by auto
  have "hs \<noteq> []" using assms(7,20) by simp
  then have entry: "fst (?F u f) = hs" "snd (?F u f) = unat (commit_version vt)" "fst (?F u f) \<noteq> []"
    "length (fst (?F u f)) \<le> 99999"
    using synced.coll_same [OF assms(1)] assms(9,20) by (simp_all add: set_file_def stamped_def)
  have "machine_contents store s2 \<subseteq>\<^sub>m bstore b1" using assms(25) up(5) by (rule map_le_trans)
  from synced.download [OF assms(1) up(2-4) assms(24) this entry(3) assms(12,15,13,16) entry(4), where q = q2 and junk = junk]
  obtain c2 v w where down: "getBlockList E (s2, (c1, b1), q2) f u = Inr ((s2, (c2, b1), q2), Some v)"
    "item v ''version'' = Inr (PInt (int (snd (?F u f))))"
    "item v ''block_list'' = Inr (PList (map PStr (fst (?F u f))))"
    "downFile E host u (s2, (c2, b1), q2) (PList (map PStr (fst (?F u f)))) =
       Inr (w, Some (concat (map (\<lambda>k. the (bstore b1 k)) (fst (?F u f)))))"
    unfolding assms(2) by blast
  have "map (\<lambda>k. the (bstore b1 k)) hs = map snd pieces"
    unfolding assms(20) by (rule downloaded_pieces) (rule up(6))
  with down up(1) entry(1,2) show ?thesis by metis
qed

text \<open>A file of three blocks, the first and the last of them the same.\<close>

definition sample_pieces :: "(string \<times> string) list" where
  "sample_pieces = [(''blocks/notes/notes_aa'', ''one''), (''blocks/notes/notes_ab'', ''two''),
     (''blocks/notes/notes_ac'', ''one'')]"

definition empty_web_db :: ref_db where
  "empty_web_db = \<lparr>entries = [], busy = 2, opened = False\<rparr>"

lemma sample_pieces_facts:
  "sample_pieces \<noteq> []" "distinct (map fst sample_pieces)" "length sample_pieces < 2 ^ 31" "length sample_pieces \<le> 99999"
  "\<forall>(p, v) \<in> set sample_pieces. CHR '' '' \<notin> set p \<and> block_ok v"
  "inj_on ref_sha (ran (ref_store empty_web_db) \<union> snd ` set sample_pieces)"
proof -
  have "ref_sha ''one'' \<noteq> ref_sha ''two''" by code_simp
  then show "inj_on ref_sha (ran (ref_store empty_web_db) \<union> snd ` set sample_pieces)"
    by (auto simp: sample_pieces_def empty_web_db_def ref_store_def)
qed (simp_all add: sample_pieces_def block_ok_def)

lemma sample_texts:
  "length (ref_dumps (query_fields ''ann'' ''notes'' (map (\<lambda>(p, v). ref_sha v) sample_pieces))) \<le> STDIN_MAX"
  "length (ref_dumps (query_fields ''ann'' ''notes'' (map (\<lambda>(p, v). ref_sha v) sample_pieces) @
     [(''version'', PStr ''0'')])) \<le> STDIN_MAX"
  using ref_dumps_length(1) [of "map (\<lambda>(p, v). ref_sha v) sample_pieces" "''ann''" "''notes''"]
    ref_dumps_length(2) [of "map (\<lambda>(p, v). ref_sha v) sample_pieces" "''ann''" "''notes''" "''0''"]
  by (auto simp: STDIN_MAX_def sample_pieces_def ref_sha_length)

lemma empty_world:
  "published (\<lambda>u f. ([], 0)) (ref_store empty_web_db)" "archive ref_sha (ref_store empty_web_db)"
  "size (fileblock (ref_tables ref_empty)) < 2 ^ 31"
  by (simp_all add: published_def archive_def empty_web_db_def ref_store_def ref_empty_def ref_tables_def)

lemma sample_client_names:
  "name_ok ''ann''" "plain ''ann''" "sendable ''ann''" "name_ok ''notes''" "plain ''notes''" "sendable ''notes''"
  "sendable ''0''" "0 \<le> sint (commit_version ''0'')"
  by (simp_all add: sample_names plain_def sendable_def)

abbreviation ref_client :: "(ref_db loop \<times> (ref_server \<times> ref_db) \<times> pipe) client" where
  "ref_client \<equiv> web_client ref_json ref_mysql (machine ref_leveldb no_operation)
     (block_gateway ref_leveldb ref_eth0) pipe_sockets ref_loads ref_dumps ref_sha"

theorem uploaded_file_comes_back_witness:
  "\<exists>w v l w' w''. upFile ref_client ref_host ''ann'' (sample_machine, (ref_empty, empty_web_db), sample_pipe [])
      ''notes'' ''0'' sample_pieces = Inr (w, True) \<and>
    getBlockList ref_client w ''notes'' ''ann'' = Inr (w', Some v) \<and> item v ''version'' = Inr (PInt 0) \<and>
    item v ''block_list'' = Inr l \<and>
    downFile ref_client ref_host ''ann'' w' l = Inr (w'', Some ''onetwoone'')"
proof -
  have cache: "machine_contents ref_store sample_machine \<subseteq>\<^sub>m ref_store empty_web_db"
    by (simp add: sample_machine_facts)
  have acc: "accepts (fst ([], 0)) (snd ([], 0)) (commit_version ''0'')" by (simp add: accepts_def)
  have whole: "concat (map snd sample_pieces) = ''onetwoone''" by (simp add: sample_pieces_def)
  from uploaded_file_comes_back [OF ref_synced.synced_axioms refl empty_represents empty_world sample_pieces_facts(1,2,4-6)
      sample_client_names refl sample_texts acc sample_machine_facts(1) cache, where s = sample_machine
      and q = "sample_pipe []" and ?q2.0 = "sample_pipe []" and junk = no_operation]
  show ?thesis unfolding whole by (simp add: sample_version) blast
qed

text \<open>C11. Whatever its version, an upload loses no block, stores the blocks of the file under their
  hashes and leaves the metadata server naming stored blocks only; the commit is taken or refused
  as the specification decides, and the client reports just that.\<close>

theorem upload_outcome:
  assumes "synced J j_elems j_members sendable M tables pending coll up L store usable B bstore busable tries
      loads dumps val N push eth0 ip host sha"
    and "E = web_client J M (machine L junk) (block_gateway B eth0) N loads dumps sha"
    and "represents coll (tables c) F" "published F (bstore b)" "archive sha (bstore b)"
      "size (fileblock (tables c)) < 2 ^ 31"
    and "pieces \<noteq> []" "distinct (map fst pieces)" "length pieces < 2 ^ 31"
      "\<forall>(p, v) \<in> set pieces. CHR '' '' \<notin> set p \<and> block_ok v"
      "inj_on sha (ran (bstore b) \<union> snd ` set pieces)"
    and "name_ok u" "plain u" "sendable u" "name_ok f" "sendable f" "sendable vt" "0 \<le> sint (commit_version vt)"
    and "hs = map (\<lambda>(p, v). sha v) pieces" "length (dumps (query_fields u f hs)) \<le> STDIN_MAX"
      "length (dumps (query_fields u f hs @ [(''version'', PStr vt)])) \<le> STDIN_MAX"
    and "acc = accepts (fst (F u f)) (snd (F u f)) (commit_version vt)"
    and "F' = (if acc then set_file coll u f (stamped hs (unat (commit_version vt))) F else F)"
  shows "\<exists>c' b'. upFile E host u (s, (c, b), q) f vt pieces = Inr ((s, (c', b'), q), acc) \<and>
    represents coll (tables c') F' \<and> published F' (bstore b') \<and> archive sha (bstore b') \<and>
    bstore b \<subseteq>\<^sub>m bstore b' \<and> (\<forall>(p, v) \<in> set pieces. bstore b' (sha v) = Some v)"
  unfolding assms(2) by (rule synced.upFile_effect [OF assms(1,3-23)])

text \<open>The first version of a file has to be 0; the blocks are stored all the same.\<close>

theorem upload_outcome_witness:
  "\<exists>c' b'. upFile ref_client ref_host ''ann'' (sample_machine, (ref_empty, empty_web_db), sample_pipe [])
      ''notes'' ''1'' sample_pieces = Inr ((sample_machine, (c', b'), sample_pipe []), False) \<and>
    represents (=) (ref_tables c') (\<lambda>u f. ([], 0)) \<and> ref_store b' (ref_sha ''two'') = Some ''two''"
proof -
  let ?hs = "map (\<lambda>(p, v). ref_sha v) sample_pieces"
  have v: "commit_version ''1'' = 1" by code_simp
  then have sv: "sendable ''1''" "0 \<le> sint (commit_version ''1'')" by (simp_all add: sendable_def)
  have refused: "False = accepts (fst ([], 0)) (snd ([], 0)) (commit_version ''1'')" by (simp add: accepts_def v)
  have t: "length (ref_dumps (query_fields ''ann'' ''notes'' ?hs @ [(''version'', PStr ''1'')])) \<le> STDIN_MAX"
    using ref_dumps_length(2) [of ?hs "''ann''" "''notes''" "''1''"]
    by (auto simp: STDIN_MAX_def sample_pieces_def ref_sha_length)
  have two: "(''blocks/notes/notes_ab'', ''two'') \<in> set sample_pieces" by (simp add: sample_pieces_def)
  from upload_outcome [OF ref_synced.synced_axioms refl empty_represents empty_world sample_pieces_facts(1,2,3,5,6)
      sample_client_names(1-4,6) sv refl sample_texts(1) t refused refl, where s = sample_machine
      and q = "sample_pipe []" and junk = no_operation]
  obtain c' b' where "upFile ref_client ref_host ''ann'' (sample_machine, (ref_empty, empty_web_db), sample_pipe [])
      ''notes'' ''1'' sample_pieces = Inr ((sample_machine, (c', b'), sample_pipe []), False)"
    "represents (=) (ref_tables c') (\<lambda>u f. ([], 0))"
    "\<forall>(p, v) \<in> set sample_pieces. ref_store b' (ref_sha v) = Some v" by auto
  with two show ?thesis by blast
qed

text \<open>C39. An empty file is never stored: \<open>split\<close> leaves no block, and the worker for block
  queries frees a pointer it never assigned. Unless that pointer is null the worker dies, the client
  reports a failure and nothing has changed; if it is null, the empty list is committed like any
  other when the version is accepted, the client reports success, and the metadata server then holds
  no block of the file, whatever it held before. A refused version changes nothing.
  The names need no SQL quoting and the version is not negative as an \<open>int\<close>.\<close>

theorem empty_file_is_not_stored:
  assumes "synced J j_elems j_members sendable M tables pending coll up L store usable B bstore busable tries
      loads dumps val N push eth0 ip host sha"
    and "E = web_client J M (machine L junk) (block_gateway B eth0) N loads dumps sha"
    and "represents coll (tables c) F" "size (fileblock (tables c)) < 2 ^ 31"
    and "name_ok u" "name_ok f" "sendable u" "sendable f" "sendable vt" "0 \<le> sint (commit_version vt)"
    and "length (dumps (query_fields u f [])) \<le> STDIN_MAX"
      "length (dumps (query_fields u f [] @ [(''version'', PStr vt)])) \<le> STDIN_MAX"
    and "taken = (my_unset_null M (fst (connect M c)) \<and> accepts (fst (F u f)) (snd (F u f)) (commit_version vt))"
  shows "\<exists>c'. upFile E host u (s, (c, b), q) f vt [] = Inr ((s, (c', b), q), taken) \<and>
    represents coll (tables c') (if taken then set_file coll u f ([], 0) F else F)"
  unfolding assms(2) by (rule synced.empty_upload [OF assms(1,3-13)])

text \<open>Version 1 of a file of two blocks is empty; the pointer is null. The client is told of
  success, and the server no longer has the file.\<close>

theorem empty_file_is_not_stored_witness:
  "\<exists>c'. upFile ref_client ref_host ''ann'' (sample_machine, (sample_server, empty_web_db), sample_pipe []) ''notes'' ''1'' [] =
      Inr ((sample_machine, (c', empty_web_db), sample_pipe []), True) \<and>
    represents (=) (ref_tables c') (\<lambda>u f. ([], 0)) \<and> sample_files ''ann'' ''notes'' = ([''h0'', ''h1''], 0)"
proof -
  have v: "commit_version ''1'' = 1" by code_simp
  then have sv: "sendable ''1''" "0 \<le> sint (commit_version ''1'')" by (simp_all add: sendable_def)
  have t: "length (ref_dumps (query_fields ''ann'' ''notes'' [])) \<le> STDIN_MAX"
    "length (ref_dumps (query_fields ''ann'' ''notes'' [] @ [(''version'', PStr ''1'')])) \<le> STDIN_MAX"
    using ref_dumps_length(1) [of "[]" "''ann''" "''notes''"] ref_dumps_length(2) [of "[]" "''ann''" "''notes''" "''1''"]
    by (simp_all add: STDIN_MAX_def)
  have taken: "True = (my_unset_null ref_mysql (fst (connect ref_mysql sample_server)) \<and>
      accepts (fst (sample_files ''ann'' ''notes'')) (snd (sample_files ''ann'' ''notes'')) (commit_version ''1''))"
    by (simp add: accepts_def ref_mysql_def v sample_files_def)
  have size: "size (fileblock (ref_tables sample_server)) < 2 ^ 31"
    by (simp add: sample_server_def ref_empty_def ref_tables_def)
  have gone: "set_file (=) ''ann'' ''notes'' ([], 0) sample_files = (\<lambda>u f. ([], 0))"
    by (auto simp: set_file_def sample_files_def fun_eq_iff)
  have held: "sample_files ''ann'' ''notes'' = ([''h0'', ''h1''], 0)" by (simp add: sample_files_def)
  from empty_file_is_not_stored [OF ref_synced.synced_axioms refl sample_represents size
      sample_client_names(1,4,3,6) sv t taken, where s = sample_machine and q = "sample_pipe []"
      and b = empty_web_db and junk = no_operation]
  show ?thesis unfolding gone using held by simp
qed

end
