(* ===== verification/Sync_Properties.thy ===== *)
theory Sync_Properties
  imports Sync_Removal Client_Properties
begin

text \<open>
  The properties of the synchronisation script: a turn follows a plan and leaves the file the same
  on both sides, records stay honest whatever several clients do, an edit reaches the others, and
  where the script fails.
\<close>

section \<open>A reference for \<open>split\<close>\<close>

fun chunks :: "nat \<Rightarrow> string \<Rightarrow> string list" where
  "chunks n [] = []"
| "chunks n (x # xs) = (x # take n xs) # chunks n (drop n xs)"

definition ref_split :: "string \<Rightarrow> string \<Rightarrow> (string \<times> string) list" where
  "ref_split f v =
     (let blocks = chunks 4194303 v
      in zip (map (\<lambda>i. ''./blocks/'' @ f @ ''/'' @ f @ ''_'' @ show_nat i) [0..<length blocks]) blocks)"

lemma concat_chunks: "concat (chunks n v) = v"
proof (induction n v rule: chunks.induct)
  case (2 n x xs)
  have "concat (chunks n (x # xs)) = x # take n xs @ concat (chunks n (drop n xs))" by simp
  also have "\<dots> = x # xs" unfolding 2 by simp
  finally show ?case .
qed simp

lemma show_nat_inj: "show_nat i = show_nat j \<Longrightarrow> i = j"
  by (metis dec_value_show_nat of_nat_eq_iff)

lemma word_name_sendable: "word_name s \<Longrightarrow> sendable s"
proof -
  assume s: "word_name s"
  have "c \<noteq> CHR 0x22 \<and> c \<noteq> CHR 0x5C \<and> 32 \<le> (of_char c :: nat)" if "word_char c" for c
    using that unfolding word_char_def is_digit_def by fastforce
  with s show "sendable s" unfolding word_name_def sendable_def by blast
qed

interpretation ref_site: site ref_json elems members sendable ref_mysql ref_tables ref_result "(=)" ref_open
    ref_leveldb ref_store opened ref_leveldb ref_store opened busy ref_loads ref_dumps py_of
    pipe_sockets pipe_push ref_eth0 "''10.0.0.12    ''" no_operation ref_host ref_sha ref_split
proof unfold_locales
  fix f v
  show "concat (map snd (ref_split f v)) = v" by (simp add: ref_split_def Let_def concat_chunks)
  assume f: "word_name f"
  have "distinct (map fst (ref_split f v))"
    by (auto simp: ref_split_def Let_def distinct_map inj_on_def dest: show_nat_inj)
  moreover have "CHR '' '' \<notin> set f" "CHR '' '' \<notin> set (show_nat i)" for i
    using f by (auto simp: word_name_def word_char_def is_digit_def dest: show_nat_digits)
  ultimately show "distinct (map fst (ref_split f v)) \<and> (\<forall>p \<in> fst ` set (ref_split f v). CHR '' '' \<notin> set p)"
    by (auto simp: ref_split_def Let_def set_zip)
qed (rule word_name_sendable)

section \<open>Turns\<close>

text \<open>C4. A turn of the script with a file of the directory carries out its plan: it keeps the file, fetches
  the newer version, uploads the edited file above both versions, or removes the file the server
  does not list; the servers and the directory change as the plan says and in no other way.\<close>

theorem turn_follows_plan:
  assumes "site J j_elems j_members sendable M tables pending coll up L store usable B bstore busable tries
      loads dumps val N push eth0 ip host sha split"
    and "E = web_client J M (machine L junk) (block_gateway B eth0) N loads dumps sha"
    and "holds_files coll tables bstore sha F (c, b)" "in_front usable store bstore s (c, b)"
    and "word_name u" "word_name f" "d_files d f = Some (v, mtime)"
    and "length (fst (F u f)) \<le> 99999" "p = sync_plan (d_versions d f) mtime (F u f)"
    and "\<forall>n. p = Upload n \<longrightarrow> size (fileblock (tables c)) < 2 ^ 31 \<and> uploadable sha dumps (bstore b) u f n (split f v)"
    and "hs = map (\<lambda>(p, v). sha v) (split f v)"
  shows "\<exists>s' c' b' q'. sync_file E split host u f (written, now) ((s, (c, b), q), d, failed) =
      Inr ((s', (c', b'), q'), planned_disk p (bstore b) (F u f) f (written, now) d, failed) \<and>
    holds_files coll tables bstore sha (planned_files coll p u f hs F) (c', b') \<and>
    in_front usable store bstore s' (c', b') \<and> bstore b \<subseteq>\<^sub>m bstore b' \<and>
    (if \<exists>n. p = Upload n then server_text (bstore b') hs = v else tables c' = tables c \<and> bstore b' = bstore b)"
  unfolding assms(2) by (rule site.sync_file_effect [OF assms(1,3-11)])

text \<open>A client with one file that no server knows yet.\<close>

definition sample_disk :: disk where
  "sample_disk = \<lparr>d_files = [''notes'' \<mapsto> (''hello'', 100)], d_versions = Map.empty\<rparr>"

lemma sample_split: "ref_split ''notes'' ''hello'' = [(''./blocks/notes/notes_0'', ''hello'')]"
proof -
  have "show_nat 0 = ''0''" by code_simp
  then show ?thesis by (simp add: ref_split_def)
qed

lemma sample_words: "word_name ''ann''" "word_name ''notes''"
  by (simp_all add: word_name_def word_char_def is_digit_def)

lemma sample_uploadable: "uploadable ref_sha ref_dumps (ref_store empty_web_db) ''ann'' ''notes'' 0 (ref_split ''notes'' ''hello'')"
proof -
  have zero: "show_int 0 = ''0''" by code_simp
  have "\<forall>h \<in> set [ref_sha ''hello'']. length h \<le> 64" by (simp add: ref_sha_length)
  note ref_dumps_length(1) [OF this, of "''ann''" "''notes''"] ref_dumps_length(2) [OF this, of "''ann''" "''notes''" "''0''"]
  then show ?thesis
    by (simp add: uploadable_def sample_split zero block_ok_def STDIN_MAX_def empty_web_db_def ref_store_def Let_def)
qed

lemma sample_world:
  "holds_files (=) ref_tables ref_store ref_sha (\<lambda>u f. ([], 0)) (ref_empty, empty_web_db)"
  "in_front opened ref_store ref_store sample_machine (ref_empty, empty_web_db)"
  using empty_represents empty_world sample_machine_facts
  by (simp_all add: holds_files_def in_front_def)

theorem turn_follows_plan_witness:
  "\<exists>w. sync_file ref_client ref_split ref_host ''ann'' ''notes'' (101, 102)
      ((sample_machine, (ref_empty, empty_web_db), sample_pipe []), sample_disk, []) =
    Inr (w, addToVersionFile sample_disk ''notes'' 0 102, [])"
proof -
  have f: "d_files sample_disk ''notes'' = Some (''hello'', 100)" "d_versions sample_disk ''notes'' = None"
    by (simp_all add: sample_disk_def)
  have p: "Upload 0 = sync_plan (d_versions sample_disk ''notes'') 100 ([], 0)" by (simp add: f(2) sync_plan_def)
  have up: "\<forall>n. Upload 0 = Upload n \<longrightarrow> size (fileblock (ref_tables ref_empty)) < 2 ^ 31 \<and>
      uploadable ref_sha ref_dumps (ref_store empty_web_db) ''ann'' ''notes'' n (ref_split ''notes'' ''hello'')"
    using sample_uploadable empty_world(3) by simp
  from turn_follows_plan [OF ref_site.site_axioms refl sample_world sample_words f(1) _ p up refl,
      where q = "sample_pipe []" and junk = no_operation and written = 101 and now = 102 and failed = "[]"]
  show ?thesis by fastforce
qed

section \<open>Several clients\<close>

text \<open>C5. Whatever the clients of a user do, editing, synchronising in any order and fetching files of the
  others: the metadata server names stored blocks only, every cache machine holds what the block
  server holds, and every record a client keeps is honest. A file removed from a directory
  counts, its deletion on the server does not: the last section shows that it can break the
  records of the others.\<close>

theorem clients_stay_honest:
  assumes "\<forall>i. site J j_elems j_members sendable M tables pending coll up L store usable B bstore busable tries
      loads dumps val N push eth0 ip (host i) sha split"
    and "E = web_client J M (machine L junk) (block_gateway B eth0) N loads dumps sha"
    and "word_name u" "all_honest coll tables bstore usable store sha u F st"
    and "(client_step E split host u (within_bounds coll tables bstore sha dumps split u))\<^sup>*\<^sup>* st st'"
  shows "\<exists>F'. all_honest coll tables bstore usable store sha u F' st'"
  using assms(5,4)
proof (induction rule: rtranclp_induct)
  case (step st1 st2)
  then obtain F1 where "all_honest coll tables bstore usable store sha u F1 st1" by blast
  from client_step_honest [OF assms(1) [rule_format] assms(2,3) step.hyps(2) this] show ?case .
qed blast

definition fresh_clients :: "nat \<Rightarrow> ref_db loop \<times> pipe \<times> disk" where
  "fresh_clients i = (sample_machine, sample_pipe [], \<lparr>d_files = Map.empty, d_versions = Map.empty\<rparr>)"

lemma sample_within:
  "within_bounds (=) ref_tables ref_store ref_sha ref_dumps ref_split ''ann'' (ref_empty, empty_web_db) sample_disk ''notes''"
proof -
  have F: "F ''ann'' ''notes'' = ([], 0)" if "represents (=) (ref_tables ref_empty) F" for F
    using represents_unique [OF that empty_represents] by simp
  have "\<forall>F. represents (=) (ref_tables ref_empty) F \<longrightarrow> length (fst (F ''ann'' ''notes'')) \<le> 99999 \<and>
      (\<forall>v mtime n. d_files sample_disk ''notes'' = Some (v, mtime) \<longrightarrow>
         sync_plan (d_versions sample_disk ''notes'') mtime (F ''ann'' ''notes'') = Upload n \<longrightarrow>
         size (fileblock (ref_tables ref_empty)) < 2 ^ 31 \<and>
         uploadable ref_sha ref_dumps (ref_store empty_web_db) ''ann'' ''notes'' n (ref_split ''notes'' v))"
    using sample_uploadable empty_world(3) by (auto simp: F sample_disk_def sync_plan_def)
  then show ?thesis by (simp add: within_bounds_def sample_words)
qed

lemma fresh_honest:
  "all_honest (=) ref_tables ref_store opened ref_store ref_sha ''ann'' (\<lambda>u f. ([], 0))
     (50, (ref_empty, empty_web_db), fresh_clients)"
  using sample_world by (simp add: all_honest_def fresh_clients_def honest_def up_to_def)

lemma ref_sites:
  "\<forall>i::nat. site ref_json elems members sendable ref_mysql ref_tables ref_result (=) ref_open
      ref_leveldb ref_store opened ref_leveldb ref_store opened busy ref_loads ref_dumps py_of
      pipe_sockets pipe_push ref_eth0 ''10.0.0.12    '' ((\<lambda>i. ref_host) i) ref_sha ref_split"
  using ref_site.site_axioms by blast

theorem clients_stay_honest_witness:
  "\<exists>F cb desk s (q :: pipe). all_honest (=) ref_tables ref_store opened ref_store ref_sha ''ann'' F (102, cb, desk) \<and>
    desk 0 = (s, q, addToVersionFile sample_disk ''notes'' 0 102)"
proof -
  let ?fits = "within_bounds (=) ref_tables ref_store ref_sha ref_dumps ref_split ''ann''"
  let ?step = "client_step ref_client ref_split (\<lambda>i. ref_host) ''ann'' ?fits"
  let ?desk = "fresh_clients(0 := (sample_machine, sample_pipe [], sample_disk))"
  have edit: "?step (50, (ref_empty, empty_web_db), fresh_clients) (100, (ref_empty, empty_web_db), ?desk)"
    using client_step.edit [of fresh_clients 0 sample_machine "sample_pipe []" _ 50 100 ref_client ref_split
        "\<lambda>i. ref_host" "''ann''" ?fits "(ref_empty, empty_web_db)" "''notes''" "''hello''"]
    by (simp add: fresh_clients_def sample_disk_def)
  have start: "d_files sample_disk ''notes'' = Some (''hello'', 100)" "in_front opened ref_store ref_store sample_machine (ref_empty, empty_web_db)"
    "honest (ref_store empty_web_db) ((\<lambda>u f. ([], 0)) ''ann'') sample_disk" "up_to 100 sample_disk"
    using sample_world(2) by (simp_all add: sample_disk_def honest_def up_to_def)
  obtain s' c' b' q' where turn: "sync_file ref_client ref_split ref_host ''ann'' ''notes'' (101, 102)
      ((sample_machine, (ref_empty, empty_web_db), sample_pipe []), sample_disk, []) =
      Inr ((s', (c', b'), q'), addToVersionFile sample_disk ''notes'' 0 102, [])"
    using ref_site.turn_good [OF sample_world(1) start(2-4) _ _ sample_words(1) sample_within start(1) refl refl refl,
        where ?t1.0 = 101 and ?t2.0 = 102 and q = "sample_pipe []" and failed = "[]"]
    by (auto simp: sync_plan_def sample_disk_def)
  have "?step (100, (ref_empty, empty_web_db), ?desk)
      (102, (c', b'), ?desk(0 := (s', q', addToVersionFile sample_disk ''notes'' 0 102)))"
    by (rule client_step.turn [where d = sample_disk and f = "''notes''" and ?t1.0 = 101 and s = sample_machine and q = "sample_pipe []"])
      (use turn sample_within start(1) in simp_all)
  with edit have run: "?step\<^sup>*\<^sup>* (50, (ref_empty, empty_web_db), fresh_clients)
      (102, (c', b'), ?desk(0 := (s', q', addToVersionFile sample_disk ''notes'' 0 102)))"
    by (meson converse_rtranclp_into_rtranclp r_into_rtranclp)
  from clients_stay_honest [OF ref_sites refl sample_words(1) fresh_honest run]
  obtain F' where "all_honest (=) ref_tables ref_store opened ref_store ref_sha ''ann'' F'
      (102, (c', b'), ?desk(0 := (s', q', addToVersionFile sample_disk ''notes'' 0 102)))" ..
  then show ?thesis
    by (intro exI [of _ F'] exI [of _ "(c', b')"] exI [of _ s'] exI [of _ q']
        exI [of _ "?desk(0 := (s', q', addToVersionFile sample_disk ''notes'' 0 102))"] conjI fun_upd_same)
qed

text \<open>C7. An edit reaches the others: when a client has edited a file since its last synchronisation, or has
  made it, and synchronises it, the next turn of any other client that has not edited the file
  replaces its copy with the edited content, whatever that copy was.\<close>

theorem edit_reaches_the_others:
  assumes "\<forall>i. site J j_elems j_members sendable M tables pending coll up L store usable B bstore busable tries
      loads dumps val N push eth0 ip (host i) sha split"
    and "E = web_client J M (machine L junk) (block_gateway B eth0) N loads dumps sha"
    and "word_name u" "all_honest coll tables bstore usable store sha u F (now, (c, b), desk)"
    and "desk i = (si, qi, di)" "desk j = (sj, qj, dj)"
    and "d_files di f = Some (v, mtime)"
      "case d_versions di f of None \<Rightarrow> fst (F u f) = [] | Some (n, t) \<Rightarrow> t < mtime"
    and "d_files dj f = Some (w, mtime')" "case d_versions dj f of None \<Rightarrow> True | Some (n, t) \<Rightarrow> mtime' \<le> t"
    and "within_bounds coll tables bstore sha dumps split u (c, b) di f" "now \<le> t1" "t1 \<le> t2"
  shows "\<exists>si' c1 b1 qi' di' w' n. sync_file E split (host i) u f (t1, t2) ((si, (c, b), qi), di, []) =
      Inr ((si', (c1, b1), qi'), di', []) \<and>
    sync_file E split (host j) u f (t3, t4) ((sj, (c1, b1), qj), dj, []) =
      Inr (w', addToVersionFile (dj\<lparr>d_files := (d_files dj)(f \<mapsto> (v, t3))\<rparr>) f n t4, [])"
proof -
  note turn = site.sync_file_effect [OF assms(1) [rule_format], where junk = junk, folded assms(2)]
  define hs where "hs = map (\<lambda>(p, v). sha v) (split f v)"
  have i: "holds_files coll tables bstore sha F (c, b)" "in_front usable store bstore si (c, b)"
    "honest (bstore b) (F u) di" "up_to now di"
    and j: "in_front usable store bstore sj (c, b)" "honest (bstore b) (F u) dj"
    using all_honestD [OF assms(4,5)] all_honestD [OF assms(4,6)] by blast+
  let ?p = "sync_plan (d_versions di f) mtime (F u f)"
  have "\<exists>n. ?p = Upload n \<and> (fst (F u f) \<noteq> [] \<longrightarrow> int (snd (F u f)) < n) \<and> 0 \<le> n"
    using assms(8) honest_record [OF i(3), of f] by (cases "F u f") (auto simp: sync_plan_def split: option.splits)
  then obtain n where n: "?p = Upload n" "fst (F u f) \<noteq> [] \<longrightarrow> int (snd (F u f)) < n" "0 \<le> n" by blast
  have fits: "word_name f" "uploadable sha dumps (bstore b) u f n (split f v)"
    "size (fileblock (tables c)) < 2 ^ 31" "length (fst (F u f)) \<le> 99999"
    using assms(11,7) n(1) i(1) unfolding within_bounds_def holds_files_def by auto
  then have hs: "hs \<noteq> []" "length hs \<le> 99999" by (simp_all add: hs_def uploadable_def)
  let ?F = "set_file coll u f (stamped hs (nat n)) F"
  have new: "?F u f = (hs, nat n)"
    using hs(1) synced.coll_same [OF site.axioms(1) [OF assms(1) [rule_format]]] by (simp add: set_file_def stamped_def)
  have up: "\<forall>m. ?p = Upload m \<longrightarrow> size (fileblock (tables c)) < 2 ^ 31 \<and> uploadable sha dumps (bstore b) u f m (split f v)"
    using fits n(1) by simp
  obtain si' c1 b1 qi' di' where 1: "sync_file E split (host i) u f (t1, t2) ((si, (c, b), qi), di, []) =
      Inr ((si', (c1, b1), qi'), di', [])"
    "holds_files coll tables bstore sha ?F (c1, b1)" "bstore b \<subseteq>\<^sub>m bstore b1" "server_text (bstore b1) hs = v"
    using turn [OF i(1,2) assms(3) fits(1) assms(7) fits(4) refl up hs_def]
      n(1) by fastforce
  have "in_front usable store bstore sj (c1, b1)"
    using j(1) 1(3) by (auto simp: in_front_def intro: map_le_trans)
  moreover have "Download = sync_plan (d_versions dj f) mtime' (?F u f)"
    using assms(10) honest_record [OF j(2), of f] n(2,3) hs(1) unfolding new
    by (auto simp: sync_plan_def split: option.splits)
  ultimately have "\<exists>w'. sync_file E split (host j) u f (t3, t4) ((sj, (c1, b1), qj), dj, []) =
      Inr (w', planned_disk Download (bstore b1) (?F u f) f (t3, t4) dj, [])"
    using turn [OF 1(2) _ assms(3) fits(1) assms(9) _ _ _ refl,
        where s = sj and p = Download and written = t3 and now = t4 and q = qj and failed = "[]"] new hs(2) by fastforce
  with 1(1,4) new show ?thesis by auto
qed

definition old_copy :: disk where
  "old_copy = \<lparr>d_files = [''notes'' \<mapsto> (''draft'', 90)], d_versions = Map.empty\<rparr>"

theorem edit_reaches_the_others_witness:
  "\<exists>s' cb q' d' w' n. sync_file ref_client ref_split ref_host ''ann'' ''notes'' (101, 102)
      ((sample_machine, (ref_empty, empty_web_db), sample_pipe []), sample_disk, []) = Inr ((s', cb, q'), d', []) \<and>
    sync_file ref_client ref_split ref_host ''ann'' ''notes'' (103, 104)
      ((sample_machine, cb, sample_pipe []), old_copy, []) =
      Inr (w', addToVersionFile (old_copy\<lparr>d_files := (d_files old_copy)(''notes'' \<mapsto> (''hello'', 103))\<rparr>) ''notes'' n 104, [])"
proof -
  let ?desk = "fresh_clients(0 := (sample_machine, sample_pipe [], sample_disk),
    1 := (sample_machine, sample_pipe [], old_copy))"
  have h: "all_honest (=) ref_tables ref_store opened ref_store ref_sha ''ann'' (\<lambda>u f. ([], 0))
      (100, (ref_empty, empty_web_db), ?desk)"
    using sample_world by (simp add: all_honest_def fresh_clients_def honest_def up_to_def sample_disk_def old_copy_def)
  have d: "?desk 0 = (sample_machine, sample_pipe [], sample_disk)" "?desk 1 = (sample_machine, sample_pipe [], old_copy)"
    by simp_all
  have f: "d_files sample_disk ''notes'' = Some (''hello'', 100)" "d_files old_copy ''notes'' = Some (''draft'', 90)"
    "case d_versions sample_disk ''notes'' of None \<Rightarrow> fst ((\<lambda>u f. ([], 0)) ''ann'' ''notes'') = [] | Some (n, t) \<Rightarrow> t < 100"
    "case d_versions old_copy ''notes'' of None \<Rightarrow> True | Some (n, t) \<Rightarrow> 90 \<le> t"
    by (simp_all add: sample_disk_def old_copy_def)
  have t: "(100 :: int) \<le> 101" "(101 :: int) \<le> 102" by simp_all
  from edit_reaches_the_others [OF ref_sites refl sample_words(1) h d f(1,3,2,4) sample_within t,
      where ?t3.0 = 103 and ?t4.0 = 104 and junk = no_operation]
  show ?thesis by blast
qed

section \<open>A client that only reads\<close>

text \<open>C10. A whole run of the script by a client that has edited and deleted nothing: it ends without a
  failure, and every file the metadata server lists for the user and every file of the directory
  is then in the directory as it is on the server, with its version on record.\<close>

theorem run_pulls_everything:
  assumes "site J j_elems j_members sendable M tables pending coll up L store usable B bstore busable tries
      loads dumps val N push eth0 ip host sha split"
    and "E = web_client J M (machine L junk) (block_gateway B eth0) N loads dumps sha"
    and "holds_files coll tables bstore sha F (c, b)" "in_front usable store bstore s (c, b)" "word_name u"
    and "honest (bstore b) (F u) d" "dom (d_versions d) \<subseteq> dom (d_files d)"
    and "distinct listing" "dom (d_files d) \<subseteq> set listing"
    and "\<forall>i. fst (clock1 i) \<le> snd (clock1 i)" "\<forall>i. fst (clock2 i) \<le> snd (clock2 i)"
    and "\<forall>f v mtime. d_files d f = Some (v, mtime) \<longrightarrow> f \<notin> {''sync.py'', ''versions.json''} \<longrightarrow>
      word_name f \<and> fst (F u f) \<noteq> [] \<and> (\<forall>n t. d_versions d f = Some (n, t) \<longrightarrow> mtime \<le> t)"
    and "\<forall>r \<in># user_blocks coll u (tables c). word_name (fb_file r)" "\<forall>f. length (fst (F u f)) \<le> 99999"
  shows "\<exists>w d' fs. sync_main E split host u clock1 clock2 listing (s, (c, b), q) d = Inr (w, d', [], []) \<and>
    lists_names coll F u fs \<and>
    (\<forall>f \<in> (set fs \<union> dom (d_files d)) - {''sync.py'', ''versions.json''}. in_sync (bstore b) (F u f) d' f)"
  unfolding assms(2)
  by (rule site.pull_main [OF assms(1,3-9) _ _ assms(12-14)]) (use assms(10,11) in simp_all)

text \<open>A server with one file at version 5, and a client that has that version.\<close>

definition kept_files :: files where
  "kept_files = (\<lambda>u f. if u = ''ann'' \<and> f = ''notes'' then ([ref_sha ''old''], 5) else ([], 0))"

definition kept_server :: ref_server where
  "kept_server = ref_empty\<lparr>ref_blocks :=
     [\<lparr>fb_user = ''ann'', fb_file = ''notes'', fb_hash = ref_sha ''old'', fb_num = 0, fb_time = 0, fb_version = Some 5\<rparr>]\<rparr>"

definition kept_blocks :: ref_db where
  "kept_blocks = \<lparr>entries = [(ref_sha ''old'', ''old'')], busy = 2, opened = False\<rparr>"

definition kept_disk :: disk where
  "kept_disk = \<lparr>d_files = [''notes'' \<mapsto> (''old'', 10)], d_versions = [''notes'' \<mapsto> (5, 20)]\<rparr>"

lemma kept_represents: "represents (=) (ref_tables kept_server) kept_files"
proof -
  have "\<exists>u0 f0. holds_file (file_rows (=) u f (ref_tables kept_server)) u0 f0 (fst (kept_files u f)) (snd (kept_files u f)) \<and>
      snd (kept_files u f) < 2 ^ 32 \<and> (fst (kept_files u f) = [] \<longrightarrow> snd (kept_files u f) = 0)" for u f
  proof (cases "u = ''ann'' \<and> f = ''notes''")
    case True
    then have "holds_file (file_rows (=) u f (ref_tables kept_server)) ''ann'' ''notes'' [ref_sha ''old''] 5"
      by (simp add: kept_server_def ref_empty_def ref_tables_def file_rows_def same_file_def holds_file_def
          untimed_def block_row_def)
    with True show ?thesis by (auto simp: kept_files_def)
  next
    case False
    then show ?thesis
      by (auto simp: kept_files_def kept_server_def ref_empty_def ref_tables_def file_rows_def same_file_def)
  qed
  then show ?thesis by (simp add: represents_def)
qed

lemma kept_world:
  "holds_files (=) ref_tables ref_store ref_sha kept_files (kept_server, kept_blocks)"
  "in_front opened ref_store ref_store sample_machine (kept_server, kept_blocks)"
  "size (fileblock (ref_tables kept_server)) < 2 ^ 31"
  "in_sync (ref_store kept_blocks) (kept_files ''ann'' ''notes'') kept_disk ''notes''"
proof -
  have "ref_store empty_web_db = Map.empty" by (simp add: empty_web_db_def ref_store_def fun_eq_iff)
  then have "machine_contents ref_store sample_machine = Map.empty"
    using sample_machine_facts(2) by (simp add: sample_machine_facts)
  then show "in_front opened ref_store ref_store sample_machine (kept_server, kept_blocks)"
    using sample_machine_facts(1) by (simp add: in_front_def)
  show "holds_files (=) ref_tables ref_store ref_sha kept_files (kept_server, kept_blocks)"
    using kept_represents ref_sha_key
    by (auto simp: holds_files_def published_def archive_def kept_files_def kept_blocks_def ref_store_def block_ok_def)
qed (simp_all add: kept_server_def ref_empty_def ref_tables_def in_sync_def kept_files_def kept_disk_def
    server_text_def kept_blocks_def ref_store_def)

theorem run_pulls_everything_witness:
  "\<exists>w d' t. sync_main ref_client ref_split ref_host ''ann'' (\<lambda>i. (30, 30)) (\<lambda>i. (40, 41)) []
      (sample_machine, (kept_server, kept_blocks), sample_pipe []) \<lparr>d_files = Map.empty, d_versions = Map.empty\<rparr> =
    Inr (w, d', [], []) \<and> d_files d' ''notes'' = Some (''old'', t)"
proof -
  let ?d = "\<lparr>d_files = Map.empty, d_versions = Map.empty\<rparr> :: disk"
  have facts: "honest (ref_store kept_blocks) (kept_files ''ann'') ?d" "dom (d_versions ?d) \<subseteq> dom (d_files ?d)"
    "distinct ([] :: string list)" "dom (d_files ?d) \<subseteq> set []"
    "\<forall>i. fst ((\<lambda>i. (30 :: int, 30 :: int)) (i :: nat)) \<le> snd ((\<lambda>i. (30, 30)) i)"
    "\<forall>i. fst ((\<lambda>i. (40 :: int, 41 :: int)) (i :: nat)) \<le> snd ((\<lambda>i. (40, 41)) i)"
    "\<forall>f v mtime. d_files ?d f = Some (v, mtime) \<longrightarrow> f \<notin> {''sync.py'', ''versions.json''} \<longrightarrow>
      word_name f \<and> fst (kept_files ''ann'' f) \<noteq> [] \<and> (\<forall>n t. d_versions ?d f = Some (n, t) \<longrightarrow> mtime \<le> t)"
    "\<forall>r \<in># user_blocks (=) ''ann'' (ref_tables kept_server). word_name (fb_file r)"
    "\<forall>f. length (fst (kept_files ''ann'' f)) \<le> 99999"
    using sample_words(2)
    by (simp_all add: honest_def user_blocks_def ref_tables_def kept_server_def ref_empty_def kept_files_def)
  from run_pulls_everything [OF ref_site.site_axioms refl kept_world(1,2) sample_words(1) facts,
      where q = "sample_pipe []" and junk = no_operation]
  obtain w d' fs where r: "sync_main ref_client ref_split ref_host ''ann'' (\<lambda>i. (30, 30)) (\<lambda>i. (40, 41)) []
      (sample_machine, (kept_server, kept_blocks), sample_pipe []) ?d = Inr (w, d', [], [])"
    "lists_names (=) kept_files ''ann'' fs"
    "\<forall>f \<in> (set fs \<union> dom (d_files ?d)) - {''sync.py'', ''versions.json''}.
       in_sync (ref_store kept_blocks) (kept_files ''ann'' f) d' f"
    by (elim exE conjE) (rule that)
  have "''notes'' \<in> set fs" using r(2) by (auto simp: lists_names_def kept_files_def)
  with r(3) have "in_sync (ref_store kept_blocks) (kept_files ''ann'' ''notes'') d' ''notes''" by simp
  then have "\<exists>t. d_files d' ''notes'' = Some (''old'', t)"
    by (auto simp: in_sync_def kept_files_def server_text_def kept_blocks_def ref_store_def)
  with r(1) show ?thesis by blast
qed

text \<open>C6. Deletions included, the servers stay sound: whatever the clients do and carry to the servers, the
  metadata server names stored blocks only, no stored block is lost or changed, and every cache
  machine holds what the block server holds.\<close>

theorem servers_stay_sound:
  assumes "\<forall>i. site J j_elems j_members sendable M tables pending coll up L store usable B bstore busable tries
      loads dumps val N push eth0 ip (host i) sha split"
    and "E = web_client J M (machine L junk) (block_gateway B eth0) N loads dumps sha"
    and "word_name u" "servers_sound coll tables bstore usable store sha F (now, (c, b), desk)"
    and "(script_step E split host u (within_bounds coll tables bstore sha dumps split u))\<^sup>*\<^sup>*
      (now, (c, b), desk) (now', (c', b'), desk')"
  shows "\<exists>F'. servers_sound coll tables bstore usable store sha F' (now', (c', b'), desk') \<and> bstore b \<subseteq>\<^sub>m bstore b'"
  using assms(5,4)
proof (induction "(now', (c', b'), desk')" arbitrary: now' c' b' desk' rule: rtranclp_induct)
  case (step st)
  obtain t c1 b1 desk1 where st: "st = (t, (c1, b1), desk1)" by (metis surj_pair)
  then obtain F1 where F1: "servers_sound coll tables bstore usable store sha F1 (t, (c1, b1), desk1)" "bstore b \<subseteq>\<^sub>m bstore b1"
    using step.hyps(3) step.prems by blast
  from script_step_sound [OF assms(1) [rule_format] assms(2,3) step.hyps(2) [unfolded st] F1(1)]
  show ?case using F1(2) by (auto intro: map_le_trans)
qed auto

theorem servers_stay_sound_witness:
  "\<exists>F c'. servers_sound (=) ref_tables ref_store opened ref_store ref_sha F
    (31, (c', kept_blocks), \<lambda>i::nat. (sample_machine, sample_pipe [],
      if i = 0 then \<lparr>d_files = Map.empty, d_versions = Map.empty\<rparr> else kept_disk))"
proof -
  let ?desk = "\<lambda>i::nat. (sample_machine, sample_pipe [], kept_disk)"
  let ?gone = "kept_disk\<lparr>d_files := (d_files kept_disk)(''notes'' := None)\<rparr>"
  let ?fits = "within_bounds (=) ref_tables ref_store ref_sha ref_dumps ref_split ''ann''"
  let ?step = "script_step ref_client ref_split (\<lambda>i. ref_host) ''ann'' ?fits"
  have gone: "d_files ?gone ''notes'' = None" "d_versions ?gone ''notes'' \<noteq> None"
    "delete_version ?gone ''notes'' = \<lparr>d_files = Map.empty, d_versions = Map.empty\<rparr>"
    by (simp_all add: kept_disk_def delete_version_def)
  obtain c' where d: "check_file ref_client ref_host ''ann'' (PStr ''notes'') (30, 31)
      ((sample_machine, (kept_server, kept_blocks), sample_pipe []), ?gone, []) =
      Inr ((sample_machine, (c', kept_blocks), sample_pipe []), delete_version ?gone ''notes'', [])"
    using ref_site.check_file_removed [OF kept_world(1,2) sample_words gone(1,2), where clock = "(30, 31)" and
        q = "sample_pipe []" and failed = "[]"] by blast
  have "?step (20, (kept_server, kept_blocks), ?desk) (25, (kept_server, kept_blocks), ?desk(0 := (sample_machine, sample_pipe [], ?gone)))"
    by (intro script_step.client client_step.remove) simp_all
  moreover have "?step (25, (kept_server, kept_blocks), ?desk(0 := (sample_machine, sample_pipe [], ?gone)))
    (31, (c', kept_blocks), (?desk(0 := (sample_machine, sample_pipe [], ?gone)))
      (0 := (sample_machine, sample_pipe [], delete_version ?gone ''notes'')))"
    by (rule script_step.delete [where ?t1.0 = 30 and f = "''notes''" and d = ?gone and s = sample_machine and q = "sample_pipe []"])
      (use d gone sample_words(2) in simp_all)
  ultimately have run: "?step\<^sup>*\<^sup>* (20, (kept_server, kept_blocks), ?desk) (31, (c', kept_blocks),
      (?desk(0 := (sample_machine, sample_pipe [], ?gone)))(0 := (sample_machine, sample_pipe [], delete_version ?gone ''notes'')))"
    by (meson converse_rtranclp_into_rtranclp r_into_rtranclp)
  have "servers_sound (=) ref_tables ref_store opened ref_store ref_sha kept_files (20, (kept_server, kept_blocks), ?desk)"
    using kept_world(1,2) by (simp add: servers_sound_def)
  from servers_stay_sound [OF ref_sites refl sample_words(1) this run]
  obtain F' where "servers_sound (=) ref_tables ref_store opened ref_store ref_sha F' (31, (c', kept_blocks),
      (?desk(0 := (sample_machine, sample_pipe [], ?gone)))(0 := (sample_machine, sample_pipe [], delete_version ?gone ''notes'')))"
    by blast
  moreover have "(?desk(0 := (sample_machine, sample_pipe [], ?gone)))
      (0 := (sample_machine, sample_pipe [], delete_version ?gone ''notes'')) =
    (\<lambda>i. (sample_machine, sample_pipe [], if i = 0 then \<lparr>d_files = Map.empty, d_versions = Map.empty\<rparr> else kept_disk))"
    by (simp add: gone(3) fun_eq_iff)
  ultimately show ?thesis by metis
qed

section \<open>Where the script fails\<close>

text \<open>C31. A file deleted and made again stays unnoticed: one client removes a file and its next run deletes
  it from the server; when it then makes a file of that name, the new one starts at version 0, and
  another client, whose record names an older and higher version, keeps the old content.\<close>

theorem recreated_file_is_missed:
  assumes "site J j_elems j_members sendable M tables pending coll up L store usable B bstore busable tries
      loads dumps val N push eth0 ip host sha split"
    and "E = web_client J M (machine L junk) (block_gateway B eth0) N loads dumps sha"
    and "holds_files coll tables bstore sha F (c, b)" "in_front usable store bstore si (c, b)" "in_front usable store bstore sj (c, b)"
    and "word_name u" "word_name f" "size (fileblock (tables c)) < 2 ^ 31"
    and "in_sync (bstore b) (F u f) di f" "in_sync (bstore b) (F u f) dj f"
    and "gone = di\<lparr>d_files := (d_files di)(f := None)\<rparr>"
    and "uploadable sha dumps (bstore b) u f 0 (split f v)" "hs = map (\<lambda>(p, v). sha v) (split f v)"
    and "made = (delete_version gone f)\<lparr>d_files := (d_files gone)(f \<mapsto> (v, t))\<rparr>"
  shows "\<exists>c1 s2 c2 b2 q2 w. check_file E host u (PStr f) clock ((si, (c, b), qi), gone, []) =
      Inr ((si, (c1, b), qi), delete_version gone f, []) \<and>
    sync_file E split host u f (t1, t2) ((si, (c1, b), qi), made, []) =
      Inr ((s2, (c2, b2), q2), addToVersionFile made f 0 t2, []) \<and> server_text (bstore b2) hs = v \<and>
    sync_file E split host u f (t3, t4) ((sj, (c2, b2), qj), dj, []) = Inr (w, dj, [])"
proof -
  let ?F1 = "set_file coll u f ([], 0) F"
  note turn = site.sync_file_effect [OF assms(1), where junk = junk, folded assms(2)]
  note same = synced.coll_same [OF site.axioms(1) [OF assms(1)]]
  obtain c1 where 1: "check_file E host u (PStr f) clock ((si, (c, b), qi), gone, []) =
      Inr ((si, (c1, b), qi), delete_version gone f, [])"
    "holds_files coll tables bstore sha ?F1 (c1, b)"
    "in_front usable store bstore si (c1, b)" "size (fileblock (tables c1)) < 2 ^ 31"
    using site.check_file_removed [OF assms(1,3,4,6,7), of gone junk clock qi "[]"] assms(2,8,9,11)
    by (auto simp: in_sync_def)
  have none: "?F1 u f = ([], 0)" using same by (simp add: set_file_def)
  have m: "d_files made f = Some (v, t)" "Upload 0 = sync_plan (d_versions made f) t (?F1 u f)"
    "length (fst (?F1 u f)) \<le> 99999"
    by (simp_all add: assms(14) delete_version_def sync_plan_def none)
  have up: "\<forall>n. Upload 0 = Upload n \<longrightarrow> size (fileblock (tables c1)) < 2 ^ 31 \<and> uploadable sha dumps (bstore b) u f n (split f v)"
    using 1(4) assms(12) by simp
  let ?F2 = "set_file coll u f (stamped hs 0) ?F1"
  obtain s2 c2 b2 q2 where 2: "sync_file E split host u f (t1, t2) ((si, (c1, b), qi), made, []) =
      Inr ((s2, (c2, b2), q2), addToVersionFile made f 0 t2, [])"
    "holds_files coll tables bstore sha ?F2 (c2, b2)" "bstore b \<subseteq>\<^sub>m bstore b2" "server_text (bstore b2) hs = v"
    using turn [OF 1(2,3) assms(6,7) m(1,3,2) up assms(13), where written = t1 and now = t2 and q = qi and failed = "[]"] by fastforce
  have hs: "hs \<noteq> []" "length hs \<le> 99999" using assms(12,13) by (simp_all add: uploadable_def)
  have new: "?F2 u f = (hs, 0)" using same hs(1) by (simp add: set_file_def stamped_def)
  have front: "in_front usable store bstore sj (c2, b2)"
    using assms(5) 2(3) by (auto simp: in_front_def intro: map_le_trans)
  obtain w mtime where j: "d_files dj f = Some (w, mtime)" "Keep = sync_plan (d_versions dj f) mtime (?F2 u f)"
    using assms(10) hs(1) unfolding new by (auto simp: in_sync_def sync_plan_def)
  have few: "length (fst (?F2 u f)) \<le> 99999" using hs(2) new by simp
  have "\<exists>w. sync_file E split host u f (t3, t4) ((sj, (c2, b2), qj), dj, []) = Inr (w, dj, [])"
    using turn [OF 2(2) front assms(6,7) j(1) few j(2) _ refl, where written = t3 and now = t4 and q = qj and failed = "[]"] by auto
  with 1(1) 2(1,4) show ?thesis by blast
qed

theorem recreated_file_is_missed_witness:
  "\<exists>cb d w w'. sync_file ref_client ref_split ref_host ''ann'' ''notes'' (31, 32)
      ((sample_machine, cb, sample_pipe []), d, []) = Inr (w, addToVersionFile d ''notes'' 0 32, []) \<and>
    d_files d ''notes'' = Some (''hello'', 30) \<and>
    sync_file ref_client ref_split ref_host ''ann'' ''notes'' (33, 34)
      ((sample_machine, fst (snd w), sample_pipe []), kept_disk, []) = Inr (w', kept_disk, [])"
proof -
  have differ: "ref_sha ''old'' \<noteq> ref_sha ''hello''" by code_simp
  have up: "uploadable ref_sha ref_dumps (ref_store kept_blocks) ''ann'' ''notes'' 0 (ref_split ''notes'' ''hello'')"
  proof -
    have "inj_on ref_sha (ran (ref_store kept_blocks) \<union> {''hello''})"
      using differ by (auto simp: kept_blocks_def ref_store_def)
    with sample_uploadable show ?thesis by (simp add: uploadable_def sample_split)
  qed
  let ?gone = "kept_disk\<lparr>d_files := (d_files kept_disk)(''notes'' := None)\<rparr>"
  from recreated_file_is_missed [OF ref_site.site_axioms refl kept_world(1,2,2) sample_words kept_world(3,4,4) refl up
      refl refl, where qi = "sample_pipe []" and qj = "sample_pipe []" and clock = "(21, 22)" and t = 30 and
      ?t1.0 = 31 and ?t2.0 = 32 and ?t3.0 = 33 and ?t4.0 = 34 and junk = no_operation]
  obtain c1 s2 c2 b2 q2 w where
    "sync_file ref_client ref_split ref_host ''ann'' ''notes'' (31, 32)
       ((sample_machine, (c1, kept_blocks), sample_pipe []),
        (delete_version ?gone ''notes'')\<lparr>d_files := (d_files ?gone)(''notes'' \<mapsto> (''hello'', 30))\<rparr>, []) =
     Inr ((s2, (c2, b2), q2),
       addToVersionFile ((delete_version ?gone ''notes'')\<lparr>d_files := (d_files ?gone)(''notes'' \<mapsto> (''hello'', 30))\<rparr>)
         ''notes'' 0 32, [])"
    "sync_file ref_client ref_split ref_host ''ann'' ''notes'' (33, 34)
       ((sample_machine, (c2, b2), sample_pipe []), kept_disk, []) = Inr (w, kept_disk, [])"
    by (elim exE conjE) (rule that)
  then show ?thesis by fastforce
qed

text \<open>C32. The option \<open>--download\<close> breaks down on a file the client has had before: when the copy is gone, or is
  older than the server's, the run ends with a \<open>NameError\<close>, although the servers answer.\<close>

theorem download_option_breaks_down:
  assumes "site J j_elems j_members sendable M tables pending coll up L store usable B bstore busable tries
      loads dumps val N push eth0 ip host sha split"
    and "E = web_client J M (machine L junk) (block_gateway B eth0) N loads dumps sha"
    and "holds_files coll tables bstore sha F (c, b)" "in_front usable store bstore s (c, b)"
    and "word_name u" "word_name f" "fst (F u f) \<noteq> []" "length (fst (F u f)) \<le> 99999"
    and "d_versions d f = Some (n, t)"
    and "case d_files d f of None \<Rightarrow> True | Some (v, mtime) \<Rightarrow> mtime \<le> t \<and> n < int (snd (F u f))"
  shows "download_option E host u f clock (s, (c, b), q) d = Inl (Raised ''NameError'')"
  unfolding assms(2) by (rule site.download_option_fails [OF assms(1,3-10)])

theorem download_option_breaks_down_witness:
  "download_option ref_client ref_host ''ann'' ''notes'' (21, 22) (sample_machine, (kept_server, kept_blocks), sample_pipe [])
     \<lparr>d_files = [''notes'' \<mapsto> (''old'', 10)], d_versions = [''notes'' \<mapsto> (3, 20)]\<rparr> = Inl (Raised ''NameError'')"
  by (rule download_option_breaks_down [OF ref_site.site_axioms refl kept_world(1,2) sample_words])
    (simp_all add: kept_files_def, (rule conjI; simp))

end
