(* ===== verification/Meta_Types.thy ===== *)
theory Meta_Types
  imports Samples
begin

text \<open>
  What a worker of the metadata server can answer at all: the pages without content, and the JSON
  documents with the names and the types of their members. Nothing is assumed about the database
  here; it may fail at any call and return any rows.
\<close>

section \<open>Types of answers\<close>

datatype shape = Text | Number | Unsigned | Just bool | Pair_of shape shape | Array_of shape

fun has_shape :: "'j jsoncpp \<Rightarrow> ('j \<Rightarrow> 'j list option) \<Rightarrow> shape \<Rightarrow> 'j \<Rightarrow> bool" where
  "has_shape J j_elems Text v \<longleftrightarrow> (\<exists>s. v = j_string J s)"
| "has_shape J j_elems Number v \<longleftrightarrow> (\<exists>i. v = j_int J i)"
| "has_shape J j_elems Unsigned v \<longleftrightarrow> (\<exists>n. v = j_uint J n)"
| "has_shape J j_elems (Just b) v \<longleftrightarrow> v = j_bool J b"
| "has_shape J j_elems (Pair_of s t) v \<longleftrightarrow>
     (\<exists>x y. j_elems v = Some [x, y] \<and> has_shape J j_elems s x \<and> has_shape J j_elems t y)"
| "has_shape J j_elems (Array_of s) v \<longleftrightarrow> (\<exists>xs. j_elems v = Some xs \<and> (\<forall>x \<in> set xs. has_shape J j_elems s x))"

lemma atom_shapes:
  "has_shape J j_elems Text (j_string J s)" "has_shape J j_elems Unsigned (j_uint J n)"
  by auto

text \<open>The documents a worker writes, each after its header lines, and its pages without content.\<close>

fun documents :: "worker \<Rightarrow> (string \<times> (string \<rightharpoonup> shape)) list" where
  "documents W_block_list = [(outputNormalMessage, [''block_list'' \<mapsto> Array_of Text, ''version'' \<mapsto> Unsigned])]"
| "documents W_file_list = [(outputNormalMessage, [''files'' \<mapsto> Array_of (Pair_of Text Number)])]"
| "documents W_recent_hashes = [(outputNormalMessage, [''block_list'' \<mapsto> Array_of Text])]"
| "documents W_user_caches = [(outputNormalMessage, [''caches'' \<mapsto> Array_of Text])]"
| "documents W_block_query =
     [(outputNormalMessage, [''nb'' \<mapsto> Just False]),
      (outputNormalMessage, [''nb'' \<mapsto> Just True, ''needed_blocks'' \<mapsto> Array_of Text])]"
| "documents W_file_commit =
     [(outputNormalMessage, [''metadata_updated'' \<mapsto> Just True]),
      (outputErrorMessage, [''metadata_updated'' \<mapsto> Just False, ''message'' \<mapsto> Text])]"
| "documents W_file_delete = [(outputNormalMessage, [''is_delete'' \<mapsto> Just True])]"
| "documents W_user_cache_add = []"
| "documents W_user_cache_remove = []"

fun pages :: "worker \<Rightarrow> string list" where
  "pages W_user_caches = [outputErrorMessage, outputNoEntryMessage]"
| "pages W_user_cache_add = [outputNormalMessage, outputErrorMessage]"
| "pages W_user_cache_remove = [outputNormalMessage, outputErrorMessage]"
| "pages _ = [outputErrorMessage]"

definition typed_answer ::
  "'j jsoncpp \<Rightarrow> ('j \<Rightarrow> 'j list option) \<Rightarrow> ('j \<Rightarrow> (string \<rightharpoonup> 'j) option) \<Rightarrow> worker \<Rightarrow> string \<Rightarrow> bool" where
  "typed_answer J j_elems j_members w out \<longleftrightarrow>
     out \<in> set (pages w) \<or>
     (\<exists>(head, ty) \<in> set (documents w). \<exists>m. answers J j_members head m out \<and>
        (\<forall>k. rel_option (has_shape J j_elems) (ty k) (m k)))"

lemma typed_page: "out \<in> set (pages w) \<Longrightarrow> typed_answer J j_elems j_members w out"
  by (simp add: typed_answer_def)

lemma typed_document:
  "j_members v = Some m \<Longrightarrow> (head, ty) \<in> set (documents w) \<Longrightarrow> \<forall>k. rel_option (has_shape J j_elems) (ty k) (m k) \<Longrightarrow>
    typed_answer J j_elems j_members w (head @ j_write J v)"
  unfolding typed_answer_def answers_def by blast

section \<open>The values the workers build\<close>

context jsoncpp_values
begin

lemma put_null_members: "put J (j_null J) k w = Inr v \<Longrightarrow> j_members v = Some [k \<mapsto> w]"
  using put_null [of k w] by auto

lemma put_members_of: "put J v k w = Inr v' \<Longrightarrow> j_members v = Some m \<Longrightarrow> j_members v' = Some (m(k \<mapsto> w))"
  using put_more [of v m k w] by auto

lemma strings_shape: "stringToJson J ss (j_null J) = Inr v \<Longrightarrow> has_shape J j_elems (Array_of Text) v"
  using stringToJson_elems [of ss] by auto

lemma json_ok_set:
  assumes "json_ok (j_set J v i w) = Inr v'" "j_elems v = Some xs" "i = length xs"
  shows "j_elems v' = Some (xs @ [w])"
  using set_elems [OF assms(2), of w] assms(1,3) by auto

lemma pair_shape:
  assumes "json_ok (j_set J (j_null J) 0 (j_string J f)) = Inr p" "json_ok (j_set J p 1 (j_int J i)) = Inr q"
  shows "has_shape J j_elems (Pair_of Text Number) q"
proof -
  have "j_elems p = Some [j_string J f]" using json_ok_set [OF assms(1) elems_null] by simp
  from json_ok_set [OF assms(2) this] show ?thesis by auto
qed

lemma file_pairs_shape:
  assumes "file_pairs J (length xs) fs vs v = Inr v'" "j_elems v = Some xs"
    and "\<forall>x \<in> set xs. has_shape J j_elems (Pair_of Text Number) x"
  shows "has_shape J j_elems (Array_of (Pair_of Text Number)) v'"
  using assms
proof (induction fs arbitrary: vs v xs)
  case (Cons f fs)
  then obtain n ns where vs: "vs = n # ns" by (cases vs) auto
  from Cons.prems(1) obtain p q v1 where p: "json_ok (j_set J (j_null J) 0 (j_string J f)) = Inr p"
    "json_ok (j_set J p 1 (j_int J (atoi n))) = Inr q" "json_ok (j_set J v (length xs) q) = Inr v1"
    and rest: "file_pairs J (Suc (length xs)) fs ns v1 = Inr v'"
    by (auto simp: vs bind_exec_eq_Inr)
  have v1: "j_elems v1 = Some (xs @ [q])" by (rule json_ok_set [OF p(3) Cons.prems(2) refl])
  have "\<forall>x \<in> set (xs @ [q]). has_shape J j_elems (Pair_of Text Number) x"
    using Cons.prems(3) pair_shape [OF p(1,2)] by auto
  from Cons.IH [OF _ v1 this, of ns] rest show ?case by simp
qed auto

lemma files_shape:
  "file_pairs J 0 fs vs (j_null J) = Inr v \<Longrightarrow> has_shape J j_elems (Array_of (Pair_of Text Number)) v"
  using file_pairs_shape [of "[]" fs vs "j_null J" v] elems_null by simp

section \<open>Every worker\<close>

lemma document_one:
  assumes "put J (j_null J) k x = Inr v" "has_shape J j_elems s x" "(head, [k \<mapsto> s]) \<in> set (documents w)"
  shows "typed_answer J j_elems j_members w (head @ j_write J v)"
  using typed_document [of j_members v "[k \<mapsto> x]" head "[k \<mapsto> s]" w J j_elems] put_null_members [OF assms(1)]
    assms(2,3) by simp

lemma document_two:
  assumes "put J (j_null J) k x = Inr u" "put J u k' y = Inr v" "has_shape J j_elems s x" "has_shape J j_elems t y"
    and "(head, [k \<mapsto> s, k' \<mapsto> t]) \<in> set (documents w)"
  shows "typed_answer J j_elems j_members w (head @ j_write J v)"
  using typed_document [of j_members v "[k \<mapsto> x, k' \<mapsto> y]" head "[k \<mapsto> s, k' \<mapsto> t]" w J j_elems]
    put_members_of [OF assms(2) put_null_members [OF assms(1)]] assms(3-5) by simp

lemma block_list_typed:
  "yields (\<lambda>(c', out). typed_answer J j_elems j_members W_block_list out) (block_list_request J M c r)"
  unfolding block_list_request_def
  by (intro yields_intros) (simp_all add: typed_page, erule (1) document_two [where s = "Array_of Text" and t = Unsigned],
      simp_all add: strings_shape atom_shapes del: has_shape.simps)

lemma file_list_typed:
  "yields (\<lambda>(c', out). typed_answer J j_elems j_members W_file_list out) (file_list_request J M c r)"
  unfolding file_list_request_def
  by (intro yields_intros) (simp_all add: typed_page, erule document_one [where s = "Array_of (Pair_of Text Number)"],
      simp_all add: files_shape del: has_shape.simps)

lemma recent_hashes_typed:
  "yields (\<lambda>(c', out). typed_answer J j_elems j_members W_recent_hashes out) (recent_hashes_request J M c r)"
  unfolding recent_hashes_request_def
  by (intro yields_intros) (simp_all add: typed_page, erule document_one [where s = "Array_of Text"],
      simp_all add: strings_shape atom_shapes del: has_shape.simps)

lemma user_caches_typed:
  "yields (\<lambda>(c', out). typed_answer J j_elems j_members W_user_caches out) (user_caches_request J M c r)"
  unfolding user_caches_request_def
  by (intro yields_intros) (simp_all add: typed_page, erule document_one [where s = "Array_of Text"],
      simp_all add: strings_shape atom_shapes del: has_shape.simps)

lemma block_query_typed:
  "yields (\<lambda>(c', out). typed_answer J j_elems j_members W_block_query out) (block_query_request J M c r)"
  unfolding block_query_request_def
  by (intro yields_intros) (simp_all add: typed_page, erule document_one [where s = "Just False"], simp_all,
      erule (1) document_two [where s = "Just True" and t = "Array_of Text"],
      simp_all add: strings_shape del: has_shape.simps(6))

lemma file_commit_typed:
  "yields (\<lambda>(c', out). typed_answer J j_elems j_members W_file_commit out) (file_commit_request J M c r)"
  unfolding file_commit_request_def
  by (intro yields_intros) (simp_all add: typed_page, erule document_one [where s = "Just True"], simp_all,
      (erule (1) document_two [where s = "Just False" and t = Text], auto)+)

lemma file_delete_typed:
  "yields (\<lambda>(c', out). typed_answer J j_elems j_members W_file_delete out) (file_delete_request J M c r)"
  unfolding file_delete_request_def
  by (intro yields_intros) (simp_all add: typed_page, erule document_one [where s = "Just True"], simp_all)

lemma user_cache_add_typed:
  "yields (\<lambda>(c', out). typed_answer J j_elems j_members W_user_cache_add out) (user_cache_add_request M c r)"
  unfolding user_cache_add_request_def
  by (intro yields_intros) (simp_all add: typed_page)

lemma user_cache_remove_typed:
  "yields (\<lambda>(c', out). typed_answer J j_elems j_members W_user_cache_remove out) (user_cache_remove_request M c r)"
  unfolding user_cache_remove_request_def
  by (intro yields_intros) (simp_all add: typed_page)

lemmas workers_typed = block_list_typed file_list_typed recent_hashes_typed user_caches_typed block_query_typed
  file_commit_typed file_delete_typed user_cache_add_typed user_cache_remove_typed

lemma worker_typed:
  "yields (\<lambda>(c', out). typed_answer J j_elems j_members w out) (worker_request w J M c r)"
  by (cases w) (simp_all add: workers_typed)

end

text \<open>C13. Whatever the request is and whatever the database does, a worker that answers at all writes one of
  its pages, or a document with the members its interface names, each of the documented type:
  lists of strings, pairs of a name and a number, versions, and truth values.\<close>

theorem worker_answers_typed:
  assumes "jsoncpp_values J j_elems j_members" "worker_request w J M c r = Inr (c', out)"
  shows "typed_answer J j_elems j_members w out"
  using yieldsD [OF jsoncpp_values.worker_typed [OF assms(1)] assms(2)] by simp

theorem worker_answers_typed_witness:
  "\<exists>c' out. worker_request W_file_commit ref_json ref_mysql ref_empty (post_request sample_body) = Inr (c', out) \<and>
    typed_answer ref_json elems members W_file_commit out"
proof -
  obtain c' out where a: "file_commit_request ref_json ref_mysql ref_empty (post_request sample_body) = Inr (c', out)"
    using ref_metadata.file_commit_answer [OF sample_posts sample_commit_fields sample_commit_ok empty_represents]
    by blast
  with worker_answers_typed [OF ref_values.jsoncpp_values_axioms, of W_file_commit ref_mysql] show ?thesis by simp
qed

end
