(* ===== verification/Fcgi_Example.thy ===== *)
theory Fcgi_Example
  imports Cache_Workers
begin

text \<open>
  \<open>blockcache/example.cpp\<close>, the FastCGI program that echoes a request: its environment, its
  body, and the body as JSON. It appends each piece of the body as a C string, so the text it
  echoes also takes in what an earlier piece, or the stack, left in the buffer.
\<close>

text \<open>The environment of a request and its body; \<open>printf\<close> shows a null string as \<open>(null)\<close>.\<close>

record example_request =
  server_name :: "string option"
  request_method :: "string option"
  ex_query :: "string option"
  ex_body :: string

definition printed :: "string option \<Rightarrow> string" where
  "printed s = (case s of None \<Rightarrow> ''(null)'' | Some t \<Rightarrow> c_str t)"

text \<open>
  The read loop: \<open>buffer\<close> is the content of the \<open>BLOCK_SIZE\<close> bytes before the call to \<open>fread\<close>,
  \<open>after\<close> the memory behind them.
\<close>

function echo_body :: "string \<Rightarrow> string \<Rightarrow> string \<Rightarrow> string \<Rightarrow> string exec" where
  "echo_body input buffer after body =
     (let bytes = take BLOCK_SIZE input;
          buffer = bytes @ drop (length bytes) buffer
      in bind_exec (string_of_ptr (Some buffer) after) (\<lambda>text.
         if length bytes < BLOCK_SIZE then Inr (body @ text)
         else echo_body (drop BLOCK_SIZE input) buffer after (body @ text)))"
  by pat_completeness auto
termination
  by (relation "measure (\<lambda>(input, _). length input)") (auto simp: BLOCK_SIZE_def)

declare echo_body.simps [simp del]

definition example_page :: "'j jsoncpp \<Rightarrow> int \<Rightarrow> example_request \<Rightarrow> string \<Rightarrow> string" where
  "example_page J requests r body =
     (let newline = [CHR 0x0A]; quote = [CHR 0x22] in
      ''Content-Type: text/html'' @ crlf @ crlf @
      ''<title>FastCGI Hello!</title>'' @ ''<h1>FastCGI Hello!</h1>'' @ ''<p> this is a test! </p>'' @
      ''<p>Request number '' @ show_int requests @ '' running on host <i>'' @ printed (server_name r) @
      ''</i>'' @ newline @ ''</p>'' @
      ''<p>This is a '' @ printed (request_method r) @ '' request</p>'' @
      ''<p>Query string: '' @ quote @ printed (ex_query r) @ quote @ ''</p>'' @
      ''<p>This is the request body: </p>'' @
      c_str body @ newline @
      (case j_parse J body of (parsedSuccess, root) \<Rightarrow>
         ''Correctly parsed: '' @ show_int (if parsedSuccess then 1 else 0) @ newline @
         ''Json pretty print:'' @ newline @ c_str (j_write J root) @ newline @ '' ''))"

text \<open>
  One request; \<open>junk\<close> is what the stack holds at the buffer and behind it when the loop body is
  entered, and the counter is the state of the program.
\<close>

definition example_one ::
  "'j jsoncpp \<Rightarrow> string \<times> string \<Rightarrow> int \<Rightarrow> example_request \<Rightarrow> (int \<times> string) exec" where
  "example_one J junk requests r =
     (case junk of (buffer, after) \<Rightarrow>
        bind_exec (echo_body (ex_body r) buffer after []) (\<lambda>body.
        let requests = to_int (requests + 1) in Inr (requests, example_page J requests r body)))"

definition example_main ::
  "'j jsoncpp \<Rightarrow> string \<times> string \<Rightarrow> example_request list \<Rightarrow> string list \<times> int exec" where
  "example_main J junk rs = serve (example_one J junk) 0 rs"

text \<open>
  A body that fits one read is echoed with whatever the buffer held behind it, up to the first
  NUL; a body of a full block and a piece of \<open>n\<close> bytes is echoed with the rest of the first
  block after the piece.
\<close>

lemma echo_short:
  assumes "length input < BLOCK_SIZE" "nul \<notin> set input" "drop (length input) buffer = junk @ nul # rest"
    and "nul \<notin> set junk"
  shows "echo_body input buffer after [] = Inr (input @ junk)"
proof -
  have x: "x \<noteq> nul" if "x \<in> set (input @ junk)" for x using that assms(2,4) by auto
  have "takeWhile (\<lambda>c. c \<noteq> nul) ((input @ junk) @ nul # (rest @ after)) = input @ junk"
    using x by (rule takeWhile_append_stop) simp_all
  moreover have "take BLOCK_SIZE input = input" using assms(1) by simp
  ultimately show ?thesis
    using assms(1,3) by (subst echo_body.simps) (simp add: Let_def string_of_ptr_def c_str_def)
qed

lemma echo_repeats:
  assumes "length buffer = BLOCK_SIZE" "length a = BLOCK_SIZE" "length b < BLOCK_SIZE" "nul \<notin> set a" "nul \<notin> set b"
  shows "echo_body (a @ b) buffer (nul # after) [] = Inr (a @ b @ drop (length b) a)"
proof -
  have d: "nul \<notin> set (drop n a)" for n using assms(4) in_set_dropD by metis
  have one: "string_of_ptr (Some a) (nul # after) = Inr a"
    by (rule string_of_ptr_terminated [OF assms(4)])
  have two: "string_of_ptr (Some (b @ drop (length b) a)) (nul # after) = Inr (b @ drop (length b) a)"
    by (rule string_of_ptr_terminated) (use assms(5) d in auto)
  have "echo_body b a (nul # after) a = Inr (a @ b @ drop (length b) a)"
    using assms(3) two by (subst echo_body.simps) (simp add: Let_def)
  then show ?thesis
    using assms(1,2) one by (subst echo_body.simps) (simp add: Let_def)
qed

end
