(* ===== verification/Spec2Isabelle.thy ===== *)
theory Spec2Isabelle
  imports Sync_Properties Meta_Types Fcgi_Example
begin

text \<open>
  A verification development of balabox, a file synchronisation service. A client cuts its files
  into blocks named by their SHA-256 hashes; a metadata server keeps, for every user and file, the
  list of hashes and a version in MySQL; a block server keeps the blocks in LevelDB; a cache
  machine near the client stores and fetches blocks on its behalf and prefetches the blocks the
  user touched last.

  \<^bold>\<open>The parts and how they interact\<close>

  \<^item> \<^verbatim>\<open>metadata/src\<close>: nine FastCGI workers, one program each, which take their
    parameters from the query string (\<open>block_list\<close>, \<open>file_list\<close>, \<open>recent_hashes\<close>, \<open>user_caches\<close>,
    \<open>file_delete\<close>, \<open>user_cache_add\<close>, \<open>user_cache_remove\<close>) or from a JSON document in the body
    (\<open>block_query\<close>, \<open>file_commit\<close>), call one operation of \<open>MySQLHelper\<close> and print a JSON document
    or an error page.
  \<^item> \<^verbatim>\<open>blockcache\<close>, block server: the workers \<open>block_store\<close> and \<open>block_fetch\<close>.
  \<^item> \<^verbatim>\<open>blockcache\<close>, cache machine: \<open>leveldb_server\<close> owns the LevelDB database of the
    machine and serves one message per connection; \<open>LevelDBHelper\<close> is its client;
    \<open>cache_block_fetch\<close> answers from the cache or from the block server and sends a message to
    \<open>prefetch\<close>, which asks the metadata server for the user's recent blocks and loads them;
    \<open>cache_block_store\<close> hands a block to the block server.
  \<^item> \<^verbatim>\<open>client/sync.py\<close>: compares the files of a directory, its own record of versions and
    the metadata server, and uploads, downloads or deletes.

  \<^bold>\<open>The theories\<close>

  Ground: \<^verbatim>\<open>Prelude\<close> has the ways a process dies (\<open>crash\<close>), steps that may die
  (\<open>exec\<close>, \<open>bind_exec\<close>), the rules \<open>yields_intros\<close> for what a step guarantees, and the integer
  conversions of a 64-bit Linux target. \<^verbatim>\<open>Cstring\<close> has \<open>find\<close>, \<open>substr\<close>, \<open>atoi\<close>,
  \<open>strtol\<close> and decimal output; \<^verbatim>\<open>Query_String\<close> the three query-string parsers with their
  32-bit positions. An operation of the code is a function from the state of the libraries it calls
  to the new state and its result; an error return is a value, an uncaught exception or undefined
  behaviour a \<open>crash\<close>, an early return or a \<open>continue\<close> an early result.

  Libraries: jsoncpp (\<^verbatim>\<open>Jsoncpp\<close>), the MySQL client (\<^verbatim>\<open>Mysql_Client\<close>), LevelDB
  (\<^verbatim>\<open>Leveldb\<close>), sockets (\<^verbatim>\<open>Local_Message\<close>), neon (\<^verbatim>\<open>Http_Client\<close>) and
  the Python libraries (\<^verbatim>\<open>Sync_Client\<close>) are not part of the repository. Each is a record
  of the calls the code makes, an argument of the definitions, and a locale with the documented
  behaviour the code relies on. MySQL is known by the rows a statement selects or changes, and may
  fail at any statement (\<open>mysql\<close>); a server that is up is \<open>reliable_mysql\<close>.
  \<^verbatim>\<open>Ref_Json\<close>, \<^verbatim>\<open>Ref_Mysql\<close>, \<^verbatim>\<open>Ref_Client\<close> and the end of \<^verbatim>\<open>Leveldb\<close>
  are concrete libraries on which the locales are interpreted: a JSON printer and parser, a server
  that parses the text of the statements, a key-value list.

  Metadata server: \<^verbatim>\<open>Mysql_Helper\<close> is \<open>mysql_helper.cc\<close> with its SQL texts;
  \<^verbatim>\<open>Fcgi_Util\<close> and \<^verbatim>\<open>Fcgi_Worker\<close> are \<open>fcgi_util.cc\<close>, \<open>gstdin\<close> and the accept loop;
  \<^verbatim>\<open>Meta_Handlers\<close> has one handler and one main function per worker.
  \<^verbatim>\<open>Mysql_Contract\<close> and \<^verbatim>\<open>Mysql_Queries\<close> say what each operation does to the tables,
  on every branch. \<^verbatim>\<open>Metadata_Spec\<close> is the abstract specification, files with a list of
  hashes and a version, and the refinement by \<open>MySQLHelper\<close>; \<^verbatim>\<open>Meta_Contract\<close> lifts it to the
  workers; \<^verbatim>\<open>Meta_Invariant\<close> has runs of the nine workers and the invariant of the block
  table; \<^verbatim>\<open>Commit_Race\<close> interleaves the statements of two commits; \<^verbatim>\<open>Meta_Types\<close>
  has the types of the answers; \<^verbatim>\<open>Meta_Properties\<close> the properties;
  \<^verbatim>\<open>Helper_Test\<close> is \<open>mysql_helper_test.cc\<close>.

  Block server and cache machine: \<^verbatim>\<open>Block_Server\<close> and \<^verbatim>\<open>Block_Contract\<close>;
  \<^verbatim>\<open>Local_Message\<close> and \<^verbatim>\<open>Http_Client\<close> for \<open>http_helper.cpp\<close>;
  \<^verbatim>\<open>Leveldb_Server\<close>, \<^verbatim>\<open>Leveldb_Helper\<close> (with \<open>test.cpp\<close> and \<open>leveldb_helper_test.cc\<close>),
  \<^verbatim>\<open>Leveldb_Tools\<close> (\<open>read.cc\<close>, \<open>write.cc\<close>), \<^verbatim>\<open>Fcgi_Example\<close> (\<open>example.cpp\<close>);
  \<^verbatim>\<open>Cache_Workers\<close> for the two cache workers and the prefetcher. \<^verbatim>\<open>Cache_Machine\<close>
  joins helper and server by a socket and derives \<open>block_cache\<close>; \<^verbatim>\<open>Cache_Contract\<close> puts a cache
  in front of a \<open>block_service\<close> and has the runs of a machine, also in front of one that answers
  with an error page for the blocks it does not hold (\<open>error_pages\<close>); \<^verbatim>\<open>Prefetch_Contract\<close> follows
  one request to the prefetcher; \<^verbatim>\<open>Block_Properties\<close> has the properties.

  All machines: \<^verbatim>\<open>Whole_System\<close> connects the workers by gateways that stand for the web
  servers, \<^verbatim>\<open>System_Properties\<close> has what a request sets in motion across machines.

  Client: \<^verbatim>\<open>Sync_Client\<close> has the requests, the upload and the download, \<^verbatim>\<open>Sync_Main\<close>
  the record of versions, the decision for a file, both loops and the option \<open>--download\<close>.
  \<^verbatim>\<open>Client_System\<close> connects the script to the workers, \<^verbatim>\<open>Client_Contract\<close> (locale
  \<open>synced\<close>) says what an upload and a download do; \<^verbatim>\<open>Sync_Contract\<close> (locale \<open>site\<close>) has the plan
  for a file and shows that a turn of the script carries it out; \<^verbatim>\<open>Sync_Clients\<close> has the step
  relation of several clients of one user, the invariant of their records and the run of a client
  that only reads; \<^verbatim>\<open>Sync_Removal\<close> adds deletions; \<^verbatim>\<open>Client_Properties\<close> and \<^verbatim>\<open>Sync_Properties\<close> have the properties.

  \<^bold>\<open>What the lemmas show\<close>

  \<^item> Functional: the effect of every worker and operation on tables, databases and caches, and the
    answer it writes, on success and on failure; the helper operations refine the specification of
    files, and a turn of the client refines its plan.
  \<^item> Invariants: blocks of a file are numbered without gaps at one version whatever fails; a cache
    holds what the block server holds, and otherwise only its error page, which no client of the
    synchronisation properties meets, since the lists it follows name stored blocks; the metadata server names stored blocks only; a client's
    record of versions is honest.
  \<^item> Round trips: messages, cache entries, blocks, JSON vectors, and a whole file from one client to
    another.
  \<^item> Termination and progress: the retry loops of the block server end when the lock is held for a
    while only, and are shown not to end when every attempt fails; all other loops are total
    functions of the model.
  \<^item> Where the code fails: injection through file names, lost updates, crashes on missing lengths,
    overflows, errors reported as data, and the cases in which the client misses a change.

  \<^bold>\<open>Bounds and fuel\<close>

  The JSON parser of \<^verbatim>\<open>Ref_Json\<close> has fuel twice the length of the text plus one, which is
  proved enough for every text the writer produces; the gateway reads at most 10 header
  lines of a worker, which prints at most 3. The loops around \<open>Open\<close> and \<open>Put\<close> of the block workers
  are \<open>partial_function (option)\<close>, so not returning is the value \<open>None\<close>. The transport properties
  bound a message by the buffer of the code (\<open>MSG_SIZE\<close>), blocks by the 4 MiB of the client, names
  in the message to the prefetcher by 973 bytes. Versions and block counts stay below \<open>2 ^ 31\<close>, as
  the code passes them through \<open>int\<close>; the file names of a download sort correctly up to 99999
  blocks. The client's properties take names made of letters, digits, dots, underscores and
  hyphens, since the script pastes names into shell commands, query strings and SQL. The
  gateways (\<open>gateway_request\<close>) set \<open>CONTENT_LENGTH\<close> also for a request without a body and have a NUL
  follow the body in memory, so neither a missing length nor the bytes after the body show in the
  properties of the system and the client; what they do to a worker are properties of their own.
  The pointer that \<open>getMissingBlockHashes\<close> frees without having assigned it is null or not as the field
  \<open>my_unset_null\<close> says; freeing another value, which is undefined, ends the worker in the model.
  In the step relation of the clients a turn of the script is one step, and an edit comes later, by the
  clock of the file times, than every step before it: the edit in the second of the upload, which
  the script misses, is left out.

  \<^bold>\<open>Not modelled\<close>

  The vendored MySQL headers under \<^verbatim>\<open>metadata/include\<close>, which declare a library the code
  only calls; the SQL schema, makefiles, Apache and FastCGI configuration and the setup scripts;
  memory that is never freed; log output; failures of \<open>socket\<close>, \<open>bind\<close> and \<open>accept\<close> beyond the error
  returns; in \<open>sync.py\<close> the parsing of arguments, printing, the housekeeping of the block directory
  and the text format of times, and versions that are not numbers, which no worker sends. What
  \<open>split\<close> makes of a file, the clock and the hash function are parameters, the latter assumed free
  of collisions on the blocks at hand. Concurrency is modelled between the statements of two commits,
  between the turns of several clients and between the processes of a cache machine; the requests
  of one worker are served one after the other, as its accept loop does.
\<close>

end
